theory Spec2Isabelle
  imports Complex_Main "HOL-Library.AList" "HOL-Library.Sublist"
begin

section \<open>JavaScript values\<close>

text \<open>
  The values that document metadata can hold. \<open>JUndefined\<close> is a value of its own: the
  parser glue writes \<open>confidence: item.confidence\<close> and \<open>job_id: result.job_id\<close>, which
  store \<open>undefined\<close> under a key when the right-hand side is missing. Numbers are
  finite; an object is its list of own properties in insertion order.
\<close>

datatype jsval = JUndefined | JNull | JBool bool | JNum rat | JStr string
  | JArr "jsval list" | JObj "(string \<times> jsval) list"

type_synonym jsobject = "(string \<times> jsval) list"

text \<open>\<open>obj[k]\<close>: a missing property reads as \<open>undefined\<close>.\<close>

definition get_prop :: "jsobject \<Rightarrow> string \<Rightarrow> jsval" where
  "get_prop obj k = (case map_of obj k of None \<Rightarrow> JUndefined | Some v \<Rightarrow> v)"

text \<open>
  \<open>{...obj, k: v}\<close>: an existing key keeps its place and takes the new value, a new key
  goes last.
\<close>

definition set_prop :: "jsobject \<Rightarrow> string \<Rightarrow> jsval \<Rightarrow> jsobject" where
  "set_prop obj k v = AList.update k v obj"

fun truthy :: "jsval \<Rightarrow> bool" where
  "truthy JUndefined = False"
| "truthy JNull = False"
| "truthy (JBool b) = b"
| "truthy (JNum n) = (n \<noteq> 0)"
| "truthy (JStr s) = (s \<noteq> [])"
| "truthy (JArr xs) = True"
| "truthy (JObj kvs) = True"

text \<open>\<open>a || b\<close>\<close>

definition js_or :: "jsval \<Rightarrow> jsval \<Rightarrow> jsval" where
  "js_or a b = (if truthy a then a else b)"

text \<open>
  \<open>JSON.parse(JSON.stringify(v))\<close> for a value \<open>v\<close> that sits inside an object or an
  array: \<open>JSON.stringify\<close> leaves out every property whose value is \<open>undefined\<close> and
  writes \<open>null\<close> for an \<open>undefined\<close> array element.
\<close>

fun jsonify :: "jsval \<Rightarrow> jsval" where
  "jsonify (JArr xs) = JArr (map (\<lambda>x. if x = JUndefined then JNull else jsonify x) xs)"
| "jsonify (JObj kvs) =
     JObj (map (\<lambda>kv. (fst kv, jsonify (snd kv))) (filter (\<lambda>kv. snd kv \<noteq> JUndefined) kvs))"
| "jsonify v = v"

definition jsonify_object :: "jsobject \<Rightarrow> jsobject" where
  "jsonify_object kvs =
     map (\<lambda>kv. (fst kv, jsonify (snd kv))) (filter (\<lambda>kv. snd kv \<noteq> JUndefined) kvs)"

text \<open>A value that \<open>JSON.stringify\<close> writes in full: no \<open>undefined\<close> anywhere inside.\<close>

fun json_clean :: "jsval \<Rightarrow> bool" where
  "json_clean JUndefined = False"
| "json_clean (JArr xs) = list_all json_clean xs"
| "json_clean (JObj kvs) = list_all (\<lambda>kv. json_clean (snd kv)) kvs"
| "json_clean v = True"

section \<open>Strings and paths\<close>

text \<open>
  A string is the list of the bytes of its UTF-8 encoding, which is how a path reaches
  the file system and how a text is written to a file. The characters that the manager
  looks for (\<open>/\<close>, \<open>.\<close>, the letters of \<open>bbox\<close>, \<open>layout\<close>, \<open>coordinate\<close>, \<open>page\<close> and
  \<open>element\<close>) are ASCII, and an ASCII byte never occurs inside the encoding of another
  character, so splitting and searching work on the bytes as they do on the characters.

  \<open>s.split("/")\<close>: never empty; the last element is what follows the last slash.
\<close>

fun split_slash :: "string \<Rightarrow> string list" where
  "split_slash [] = [[]]"
| "split_slash (c # cs) =
     (if c = CHR ''/'' then [] # split_slash cs
      else (case split_slash cs of [] \<Rightarrow> [[c]] | s # ss \<Rightarrow> (c # s) # ss))"

text \<open>
  \<open>s.replace(/\.[^/.]+$/, "")\<close>: the regular expression matches a dot followed by one
  or more characters, none of them a dot or a slash, up to the end of the string. So it
  matches exactly when the longest run of such characters at the end of \<open>s\<close> is not
  empty and has a dot right before it, and the match is that dot with the run.
\<close>

definition strip_extension :: "string \<Rightarrow> string" where
  "strip_extension s =
     (let ext = takeWhile (\<lambda>c. c \<noteq> CHR ''.'' \<and> c \<noteq> CHR ''/'') (rev s);
          front = dropWhile (\<lambda>c. c \<noteq> CHR ''.'' \<and> c \<noteq> CHR ''/'') (rev s)
      in (case front of
            [] \<Rightarrow> s
          | c # stem \<Rightarrow> if c = CHR ''.'' \<and> ext \<noteq> [] then rev stem else s))"

text \<open>
  An absolute, normalised POSIX path: the list of its segments, and whether it ends in
  a slash. The root is the empty list of segments.

  \<open>path.join\<close> (the POSIX one) leaves out its empty arguments, puts the others
  together with slashes and normalises the result: empty and \<open>.\<close> segments go, \<open>..\<close>
  takes the segment before it away (and stays at the root), and a slash at the end of
  the joined text is kept unless the result is the root. The first argument is always
  an absolute path here, given by its segments: the working directory, or a path that
  \<open>path.join\<close> returned.
\<close>

type_synonym path = "string list \<times> bool"

definition norm_step :: "string list \<Rightarrow> string \<Rightarrow> string list" where
  "norm_step p s =
     (if s = [] \<or> s = ''.'' then p else if s = ''..'' then butlast p else p @ [s])"

definition ends_with_slash :: "string \<Rightarrow> bool" where
  "ends_with_slash s = (s \<noteq> [] \<and> last s = CHR ''/'')"

definition join :: "string list \<Rightarrow> string list \<Rightarrow> path" where
  "join base parts =
     (let args = filter (\<lambda>s. s \<noteq> []) parts;
          segments = foldl norm_step [] (base @ concat (map split_slash args))
      in (segments, segments \<noteq> [] \<and> args \<noteq> [] \<and> ends_with_slash (last args)))"

text \<open>
  The white space and the line terminators of ECMAScript, each as its UTF-8 bytes:
  U+0009 to U+000D, U+0020, U+00A0, U+1680, U+2000 to U+200A, U+2028, U+2029, U+202F,
  U+205F, U+3000 and U+FEFF. \<open>String.prototype.trim\<close> takes these characters away from
  both ends of the string, as many as there are.
\<close>

definition white_space :: "string list" where
  "white_space =
     [[CHR 0x09], [CHR 0x0A], [CHR 0x0B], [CHR 0x0C], [CHR 0x0D], [CHR 0x20],
      [CHR 0xC2, CHR 0xA0],
      [CHR 0xE1, CHR 0x9A, CHR 0x80],
      [CHR 0xE2, CHR 0x80, CHR 0x80], [CHR 0xE2, CHR 0x80, CHR 0x81],
      [CHR 0xE2, CHR 0x80, CHR 0x82], [CHR 0xE2, CHR 0x80, CHR 0x83],
      [CHR 0xE2, CHR 0x80, CHR 0x84], [CHR 0xE2, CHR 0x80, CHR 0x85],
      [CHR 0xE2, CHR 0x80, CHR 0x86], [CHR 0xE2, CHR 0x80, CHR 0x87],
      [CHR 0xE2, CHR 0x80, CHR 0x88], [CHR 0xE2, CHR 0x80, CHR 0x89],
      [CHR 0xE2, CHR 0x80, CHR 0x8A],
      [CHR 0xE2, CHR 0x80, CHR 0xA8], [CHR 0xE2, CHR 0x80, CHR 0xA9],
      [CHR 0xE2, CHR 0x80, CHR 0xAF],
      [CHR 0xE2, CHR 0x81, CHR 0x9F],
      [CHR 0xE3, CHR 0x80, CHR 0x80],
      [CHR 0xEF, CHR 0xBB, CHR 0xBF]]"

text \<open>Taking the given byte sequences away from the front of a string, again and again.\<close>

function strip_front :: "string list \<Rightarrow> string \<Rightarrow> string" where
  "strip_front seqs s =
     (case List.find (\<lambda>q. q \<noteq> [] \<and> prefix q s) seqs of
        None \<Rightarrow> s
      | Some q \<Rightarrow> strip_front seqs (drop (length q) s))"
  by pat_completeness auto

termination
proof (relation "measure (\<lambda>a. length (snd a))")
  show "wf (measure (\<lambda>a. length (snd a)))" by simp
next
  fix seqs :: "string list" and s q :: string
  assume "List.find (\<lambda>q. q \<noteq> [] \<and> prefix q s) seqs = Some q"
  then have "q \<noteq> []" "prefix q s"
    by (auto simp: find_Some_iff)
  then have "length q \<le> length s" "0 < length q"
    by (auto simp: prefix_length_le)
  then have "length s - length q < length s"
    by arith
  then show "((seqs, drop (length q) s), (seqs, s)) \<in> measure (\<lambda>a. length (snd a))"
    by simp
qed

declare strip_front.simps [simp del]

definition trim :: "string \<Rightarrow> string" where
  "trim s = rev (strip_front (map rev white_space) (rev (strip_front white_space s)))"

text \<open>
  \<open>toLowerCase\<close> on the ASCII letters, and \<open>s.includes(sub)\<close>. The only characters
  outside ASCII that \<open>toLowerCase\<close> turns into text with an ASCII letter are U+212A,
  which becomes \<open>k\<close>, and U+0130, which becomes \<open>i\<close> with a combining dot after it;
  neither makes one of the five words that \<open>saveParsedDocuments\<close> searches for.
\<close>

definition toLowerCase :: "string \<Rightarrow> string" where
  "toLowerCase s =
     map (\<lambda>c. let n = (of_char c :: nat) in if 65 \<le> n \<and> n \<le> 90 then char_of (n + 32) else c) s"

fun includes_str :: "string \<Rightarrow> string \<Rightarrow> bool" where
  "includes_str [] sub = (sub = [])"
| "includes_str (c # cs) sub = (prefix sub (c # cs) \<or> includes_str cs sub)"

section \<open>Documents, cache files and the index\<close>

text \<open>
  A LlamaIndex \<open>Document\<close>, as far as the manager reads and writes it: \<open>id_\<close>, \<open>text\<close>
  and \<open>metadata\<close>.
\<close>

record document =
  doc_id :: string
  doc_text :: string
  metadata :: jsobject

text \<open>
  One element of the array in \<open>documents.json\<close>, as \<open>JSON.parse\<close> gives it back; the
  \<open>metadata\<close> property may be missing or \<open>null\<close>.
\<close>

record stored_document =
  s_id :: string
  s_text :: string
  s_metadata :: "jsobject option"

text \<open>The object written to \<open>metadata.json\<close>. Times are milliseconds.\<close>

record cache_metadata =
  documentPath_of :: string
  originalFileSize :: nat
  originalModifiedTime :: int
  cachedAt :: int
  documentsCount :: nat
  hasLayoutData :: bool
  layoutExtractionAttempted :: bool

text \<open>
  What a file holds: the JSON text of an array of stored documents, the JSON text of a
  cache metadata object, or anything else (a PDF, text that is not JSON). A JSON array
  with elements of another shape is outside this type.
\<close>

datatype fcontent = ParsedDocs "stored_document list" | CacheMeta cache_metadata | Opaque

record fsfile =
  f_content :: fcontent
  f_mtime :: int
  f_size :: nat

record stats =
  st_mtime :: int
  st_size :: nat

text \<open>What a path names: a regular file, or a directory with its own \<open>stat\<close> result.\<close>

datatype fsnode = RegularFile fsfile | Directory stats

text \<open>
  The vector index that \<open>VectorStoreIndex.fromDocuments\<close> returns, as the documents it
  was built from and a serial number that stands for the identity of the object.
\<close>

record VectorStoreIndex =
  idx_docs :: "document list"
  idx_serial :: nat

datatype error =
    LlmInitFailed
  | EmbeddingInitFailed
  | FsError
  | JsonError
  | LoadFailed
  | ParseFailed
  | EmptyDocument
  | BuildFailed

section \<open>The parser's JSON result\<close>

record page =
  p_text :: string
  p_md :: string
  p_page :: jsval
  p_layout :: "jsobject list option"
  p_items :: "jsobject list option"
  p_images :: jsval

record json_result =
  r_pages :: "page list option"
  r_job_id :: jsval
  r_file_path :: jsval

datatype parse_method = LoadJson | LoadData

section \<open>The environment and the state\<close>

text \<open>
  The collaborators that are not code of this repository: the working directory
  (the segments of \<open>process.cwd()\<close>), the two constructors of \<open>configureSettings\<close>, the
  two LlamaParse calls (\<open>None\<close> when the call throws), the identifiers a \<open>Document\<close>
  built without \<open>id_\<close> gets, whether the index builder succeeds on a list of documents,
  the length of a serialised text, and the size that \<open>stat\<close> reports for a new
  directory.
\<close>

record env =
  cwd :: "string list"
  llm_ok :: bool
  embedding_ok :: bool
  loadJson :: "path \<Rightarrow> json_result list option"
  loadData :: "path \<Rightarrow> document list option"
  randomUUID :: "nat \<Rightarrow> string"
  embed_ok :: "document list \<Rightarrow> bool"
  text_size :: "fcontent \<Rightarrow> nat"
  dir_size :: nat

text \<open>
  The state: the file system, the paths that refuse \<open>mkdir\<close> and \<open>writeFile\<close>, the clock,
  the manager's \<open>documentIndices\<close> map, and the record of what the collaborators were
  asked to do (every LlamaParse call, every \<open>fromDocuments\<close> call, the identifiers
  used). The file system maps the segments of a path to what is there; in a state that
  stands for a POSIX file system the root and every entry's parent are directories.
\<close>

record world =
  fs :: "string list \<rightharpoonup> fsnode"
  unwritable :: "string list \<Rightarrow> bool"
  now :: int
  documentIndices :: "string \<rightharpoonup> VectorStoreIndex"
  parser_log :: "(parse_method \<times> path) list"
  build_log :: "document list list"
  uuid_next :: nat

section \<open>File system calls\<close>

definition is_directory :: "fsnode option \<Rightarrow> bool" where
  "is_directory n = (case n of Some (Directory st) \<Rightarrow> True | _ \<Rightarrow> False)"

text \<open>
  \<open>stat\<close> follows the path to a file or a directory; a path that ends in a slash
  must name a directory (\<open>ENOTDIR\<close> otherwise).
\<close>

definition stat :: "world \<Rightarrow> path \<Rightarrow> error + stats" where
  "stat w p =
     (case fs w (fst p) of
        None \<Rightarrow> Inl FsError
      | Some (RegularFile f) \<Rightarrow>
          if snd p then Inl FsError else Inr \<lparr>st_mtime = f_mtime f, st_size = f_size f\<rparr>
      | Some (Directory st) \<Rightarrow> Inr st)"

text \<open>\<open>readFile\<close> reads a regular file only (\<open>EISDIR\<close> on a directory).\<close>

definition readFile :: "world \<Rightarrow> path \<Rightarrow> error + fcontent" where
  "readFile w p =
     (case fs w (fst p) of
        Some (RegularFile f) \<Rightarrow> if snd p then Inl FsError else Inr (f_content f)
      | _ \<Rightarrow> Inl FsError)"

text \<open>A new entry in a directory sets the modification time of the directory.\<close>

definition touch :: "world \<Rightarrow> string list \<Rightarrow> (string list \<rightharpoonup> fsnode)" where
  "touch w dir =
     (case fs w dir of
        Some (Directory st) \<Rightarrow> (fs w)(dir \<mapsto> Directory (st\<lparr>st_mtime := now w\<rparr>))
      | _ \<Rightarrow> fs w)"

text \<open>
  \<open>mkdir(dir, {recursive: true})\<close> goes down from the root, which is always there: a
  directory that is there is entered, a missing one is made, and a regular file in the
  way is an error (\<open>ENOTDIR\<close>, or \<open>EEXIST\<close> at the end). The directories made before an
  error stay.
\<close>

fun mkdir_below :: "env \<Rightarrow> world \<Rightarrow> string list \<Rightarrow> string list \<Rightarrow> world \<times> (error + unit)" where
  "mkdir_below e w dir [] = (w, Inr ())"
| "mkdir_below e w dir (s # rest) =
     (case fs w (dir @ [s]) of
        Some (Directory st) \<Rightarrow> mkdir_below e w (dir @ [s]) rest
      | Some (RegularFile f) \<Rightarrow> (w, Inl FsError)
      | None \<Rightarrow>
          if unwritable w (dir @ [s]) then (w, Inl FsError)
          else mkdir_below e
                 (w\<lparr>fs := (touch w dir)
                     (dir @ [s] \<mapsto> Directory \<lparr>st_mtime = now w, st_size = dir_size e\<rparr>)\<rparr>)
                 (dir @ [s]) rest)"

definition mkdir :: "env \<Rightarrow> world \<Rightarrow> path \<Rightarrow> world \<times> (error + unit)" where
  "mkdir e w p = mkdir_below e w [] (fst p)"

text \<open>
  \<open>writeFile\<close> makes or replaces a regular file in a directory that is there; it does
  not replace a directory (\<open>EISDIR\<close>), and a path that ends in a slash names no
  regular file.
\<close>

definition writeFile :: "env \<Rightarrow> world \<Rightarrow> path \<Rightarrow> fcontent \<Rightarrow> world \<times> (error + unit)" where
  "writeFile e w p c =
     (if snd p \<or> fst p = [] \<or> \<not> is_directory (fs w (butlast (fst p))) \<or>
         is_directory (fs w (fst p)) \<or> unwritable w (fst p)
      then (w, Inl FsError)
      else (w\<lparr>fs := (if fs w (fst p) = None then touch w (butlast (fst p)) else fs w)
                  (fst p \<mapsto> RegularFile
                     \<lparr>f_content = c, f_mtime = now w, f_size = text_size e c\<rparr>)\<rparr>,
            Inr ()))"

section \<open>DocumentIndexManager\<close>

definition configureSettings :: "env \<Rightarrow> error + unit" where
  "configureSettings e =
     (if \<not> llm_ok e then Inl LlmInitFailed
      else if \<not> embedding_ok e then Inl EmbeddingInitFailed
      else Inr ())"

record parsed_paths =
  documentsPath :: path
  metadataPath :: path
  parsedDir :: path

definition fileName_of :: "string \<Rightarrow> string" where
  "fileName_of documentPath =
     (let n = strip_extension (last (split_slash documentPath))
      in if n = [] then ''document'' else n)"

definition getParsedPaths :: "env \<Rightarrow> string \<Rightarrow> parsed_paths" where
  "getParsedPaths e documentPath =
     (let fileName = fileName_of documentPath;
          dir = join (cwd e) [''documents'', ''parsed'', fileName]
      in \<lparr>documentsPath = join (fst dir) [''documents.json''],
          metadataPath = join (fst dir) [''metadata.json''],
          parsedDir = dir\<rparr>)"

text \<open>The body of the \<open>try\<close> of \<open>shouldUseParsedFiles\<close>, and the function with its \<open>catch\<close>.\<close>

definition shouldUseParsedFiles_try :: "env \<Rightarrow> world \<Rightarrow> string \<Rightarrow> error + bool" where
  "shouldUseParsedFiles_try e w documentPath =
     (let sourcePath = join (cwd e) [documentPath];
          pp = getParsedPaths e documentPath
      in case stat w sourcePath of
           Inl err \<Rightarrow> Inl err
         | Inr sourceStats \<Rightarrow>
            (case stat w (documentsPath pp) of
               Inl err \<Rightarrow> Inl err
             | Inr documentsStats \<Rightarrow>
                (case stat w (metadataPath pp) of
                   Inl err \<Rightarrow> Inl err
                 | Inr metadataStats \<Rightarrow>
                     Inr (st_mtime documentsStats \<ge> st_mtime sourceStats \<and>
                          st_mtime metadataStats \<ge> st_mtime sourceStats))))"

definition shouldUseParsedFiles :: "env \<Rightarrow> world \<Rightarrow> string \<Rightarrow> bool" where
  "shouldUseParsedFiles e w documentPath =
     (case shouldUseParsedFiles_try e w documentPath of Inl err \<Rightarrow> False | Inr b \<Rightarrow> b)"

text \<open>
  \<open>JSON.parse\<close> of the file's text followed by \<open>.map\<close>: it throws on text that is not
  JSON and on a value that is not an array.
\<close>

definition parse_documents :: "fcontent \<Rightarrow> error + stored_document list" where
  "parse_documents c = (case c of ParsedDocs ds \<Rightarrow> Inr ds | _ \<Rightarrow> Inl JsonError)"

definition to_document :: "stored_document \<Rightarrow> document" where
  "to_document d =
     \<lparr>doc_id = s_id d, doc_text = s_text d,
      metadata = (case s_metadata d of None \<Rightarrow> [] | Some m \<Rightarrow> m)\<rparr>"

definition loadParsedDocuments_try :: "env \<Rightarrow> world \<Rightarrow> string \<Rightarrow> error + document list" where
  "loadParsedDocuments_try e w documentPath =
     (case readFile w (documentsPath (getParsedPaths e documentPath)) of
        Inl err \<Rightarrow> Inl err
      | Inr documentsData \<Rightarrow>
         (case parse_documents documentsData of
            Inl err \<Rightarrow> Inl err
          | Inr parsedDocuments \<Rightarrow> Inr (map to_document parsedDocuments)))"

definition loadParsedDocuments :: "env \<Rightarrow> world \<Rightarrow> string \<Rightarrow> error + document list" where
  "loadParsedDocuments e w documentPath =
     (case loadParsedDocuments_try e w documentPath of
        Inl err \<Rightarrow> Inl LoadFailed
      | Inr ds \<Rightarrow> Inr ds)"

text \<open>The text \<open>JSON.stringify(documentsData, null, 2)\<close> of \<open>saveParsedDocuments\<close>.\<close>

definition stringify_documents :: "document list \<Rightarrow> fcontent" where
  "stringify_documents documents =
     ParsedDocs (map (\<lambda>d. \<lparr>s_id = doc_id d, s_text = doc_text d,
                           s_metadata = Some (jsonify_object (metadata d))\<rparr>) documents)"

definition has_layout_key :: "string \<Rightarrow> bool" where
  "has_layout_key key =
     (includes_str (toLowerCase key) ''bbox'' \<or>
      includes_str (toLowerCase key) ''layout'' \<or>
      includes_str (toLowerCase key) ''coordinate'' \<or>
      includes_str (toLowerCase key) ''page'' \<or>
      includes_str (toLowerCase key) ''element'')"

definition saveParsedDocuments_try ::
  "env \<Rightarrow> world \<Rightarrow> string \<Rightarrow> document list \<Rightarrow> world \<times> (error + unit)" where
  "saveParsedDocuments_try e w documentPath documents =
     (let pp = getParsedPaths e documentPath
      in case mkdir e w (parsedDir pp) of
           (w1, Inl err) \<Rightarrow> (w1, Inl err)
         | (w1, Inr u) \<Rightarrow>
            (case stat w1 (join (cwd e) [documentPath]) of
               Inl err \<Rightarrow> (w1, Inl err)
             | Inr sourceStats \<Rightarrow>
                (let meta = \<lparr>documentPath_of = documentPath,
                             originalFileSize = st_size sourceStats,
                             originalModifiedTime = st_mtime sourceStats,
                             cachedAt = now w1,
                             documentsCount = length documents,
                             hasLayoutData =
                               list_ex (\<lambda>d. list_ex has_layout_key (map fst (metadata d))) documents,
                             layoutExtractionAttempted = True\<rparr>;
                     r1 = writeFile e w1 (documentsPath pp) (stringify_documents documents);
                     r2 = writeFile e (fst r1) (metadataPath pp) (CacheMeta meta)
                 in (fst r2, (case snd r1 of Inl err \<Rightarrow> Inl err | Inr u1 \<Rightarrow> snd r2)))))"

text \<open>The \<open>catch\<close> logs the error and returns: the caller never sees it.\<close>

definition saveParsedDocuments :: "env \<Rightarrow> world \<Rightarrow> string \<Rightarrow> document list \<Rightarrow> world" where
  "saveParsedDocuments e w documentPath documents =
     fst (saveParsedDocuments_try e w documentPath documents)"

text \<open>
  \<open>parseAndSaveDocuments\<close>, first the glue that turns the pages of the JSON result into
  documents.
\<close>

definition page_text :: "page \<Rightarrow> string" where
  "page_text pg = (if p_text pg \<noteq> [] then p_text pg else if p_md pg \<noteq> [] then p_md pg else [])"

definition layout_source :: "page \<Rightarrow> jsobject list" where
  "layout_source pg =
     (case p_layout pg of
        Some l \<Rightarrow> l
      | None \<Rightarrow> (case p_items pg of Some i \<Rightarrow> i | None \<Rightarrow> []))"

definition process_layout_item :: "jsobject \<Rightarrow> jsobject" where
  "process_layout_item item =
     set_prop (set_prop item ''confidence'' (get_prop item ''confidence''))
       ''element_type''
       (js_or (js_or (get_prop item ''label'') (get_prop item ''type'')) (JStr ''unknown''))"

definition has_layout_data :: "page \<Rightarrow> bool" where
  "has_layout_data pg =
     ((case p_layout pg of Some l \<Rightarrow> l \<noteq> [] | None \<Rightarrow> False) \<or>
      (case p_items pg of Some i \<Rightarrow> i \<noteq> [] | None \<Rightarrow> False))"

definition page_document :: "string \<Rightarrow> json_result \<Rightarrow> page \<Rightarrow> string \<Rightarrow> document" where
  "page_document documentPath result pg uuid =
     \<lparr>doc_id = uuid,
      doc_text = page_text pg,
      metadata =
        [(''page_number'', js_or (p_page pg) (JNum 0)),
         (''source_document'', JStr documentPath),
         (''job_id'', r_job_id result),
         (''file_path'', r_file_path result),
         (''layout_items'', JArr (map (\<lambda>item. JObj (process_layout_item item)) (layout_source pg))),
         (''images'', js_or (p_images pg) (JArr [])),
         (''has_layout_data'', JBool (has_layout_data pg))]\<rparr>"

text \<open>The pages the two nested loops keep, in order, each with the result it is from.\<close>

definition content_pages :: "json_result list \<Rightarrow> (json_result \<times> page) list" where
  "content_pages jsonResults =
     concat (map (\<lambda>r. case r_pages r of
                         None \<Rightarrow> []
                       | Some ps \<Rightarrow> map (Pair r) (filter (\<lambda>pg. trim (page_text pg) \<noteq> []) ps))
                 jsonResults)"

definition json_documents :: "env \<Rightarrow> world \<Rightarrow> string \<Rightarrow> json_result list \<Rightarrow> document list" where
  "json_documents e w documentPath jsonResults =
     map (\<lambda>ip. page_document documentPath (fst (snd ip)) (snd (snd ip))
                 (randomUUID e (uuid_next w + fst ip)))
         (enumerate 0 (content_pages jsonResults))"

definition parseAndSaveDocuments ::
  "env \<Rightarrow> world \<Rightarrow> string \<Rightarrow> world \<times> (error + document list)" where
  "parseAndSaveDocuments e w documentPath =
     (let filePath = join (cwd e) [documentPath];
          w1 = w\<lparr>parser_log := parser_log w @ [(LoadJson, filePath)]\<rparr>
      in case loadJson e filePath of
           Some jsonResults \<Rightarrow>
             (let documents = json_documents e w1 documentPath jsonResults;
                  w2 = w1\<lparr>uuid_next := uuid_next w1 + length documents\<rparr>
              in (saveParsedDocuments e w2 documentPath documents, Inr documents))
         | None \<Rightarrow>
             (let w2 = w1\<lparr>parser_log := parser_log w1 @ [(LoadData, filePath)]\<rparr>
              in case loadData e filePath of
                   None \<Rightarrow> (w2, Inl ParseFailed)
                 | Some documents \<Rightarrow>
                     (saveParsedDocuments e w2 documentPath documents, Inr documents)))"

definition fromDocuments ::
  "env \<Rightarrow> world \<Rightarrow> document list \<Rightarrow> world \<times> (error + VectorStoreIndex)" where
  "fromDocuments e w documents =
     (let w1 = w\<lparr>build_log := build_log w @ [documents]\<rparr>
      in if embed_ok e documents
         then (w1, Inr \<lparr>idx_docs = documents, idx_serial = length (build_log w)\<rparr>)
         else (w1, Inl BuildFailed))"

definition prepareIndex :: "env \<Rightarrow> world \<Rightarrow> string \<Rightarrow> world \<times> (error + unit)" where
  "prepareIndex e w documentPath =
     (case configureSettings e of
        Inl err \<Rightarrow> (w, Inl err)
      | Inr u \<Rightarrow>
         (case documentIndices w documentPath of
            Some documentIndex \<Rightarrow> (w, Inr ())
          | None \<Rightarrow>
             (case (if shouldUseParsedFiles e w documentPath
                    then (case loadParsedDocuments e w documentPath of
                            Inr documents \<Rightarrow> (w, Inr documents)
                          | Inl err \<Rightarrow> parseAndSaveDocuments e w documentPath)
                    else parseAndSaveDocuments e w documentPath) of
                (w1, Inl err) \<Rightarrow> (w1, Inl err)
              | (w1, Inr documents) \<Rightarrow>
                  if documents = [] then (w1, Inl EmptyDocument)
                  else (case fromDocuments e w1 documents of
                          (w2, Inl err) \<Rightarrow> (w2, Inl err)
                        | (w2, Inr documentIndex) \<Rightarrow>
                            (w2\<lparr>documentIndices :=
                                  (documentIndices w2)(documentPath \<mapsto> documentIndex)\<rparr>,
                             Inr ())))))"

text \<open>The body of the \<open>try\<close> of \<open>getIndex\<close>, and the function with its \<open>catch\<close>.\<close>

definition getIndex_try ::
  "env \<Rightarrow> world \<Rightarrow> string \<Rightarrow> world \<times> (error + VectorStoreIndex option)" where
  "getIndex_try e w documentPath =
     (case loadParsedDocuments e w documentPath of
        Inl err \<Rightarrow> (w, Inl err)
      | Inr documents \<Rightarrow>
          if documents \<noteq> [] then
            (case configureSettings e of
               Inl err \<Rightarrow> (w, Inl err)
             | Inr u \<Rightarrow>
                (case fromDocuments e w documents of
                   (w1, Inl err) \<Rightarrow> (w1, Inl err)
                 | (w1, Inr documentIndex) \<Rightarrow>
                     (w1\<lparr>documentIndices := (documentIndices w1)(documentPath \<mapsto> documentIndex)\<rparr>,
                      Inr (Some documentIndex))))
          else (w, Inr None))"

definition getIndex ::
  "env \<Rightarrow> world \<Rightarrow> string \<Rightarrow> world \<times> (error + VectorStoreIndex option)" where
  "getIndex e w documentPath =
     (case documentIndices w documentPath of
        Some documentIndex \<Rightarrow> (w, Inr (Some documentIndex))
      | None \<Rightarrow>
          if shouldUseParsedFiles e w documentPath then
            (case getIndex_try e w documentPath of
               (w1, Inl err) \<Rightarrow> (w1, Inr None)
             | (w1, Inr documentIndex) \<Rightarrow> (w1, Inr documentIndex))
          else (w, Inr None))"

definition hasIndex :: "world \<Rightarrow> string \<Rightarrow> bool" where
  "hasIndex w documentPath = (documentIndices w documentPath \<noteq> None)"

definition clearIndices :: "world \<Rightarrow> string list \<Rightarrow> world" where
  "clearIndices w documentPaths =
     fold (\<lambda>p w1. if hasIndex w1 p
                   then w1\<lparr>documentIndices := (documentIndices w1)(p := None)\<rparr>
                   else w1)
          documentPaths w"

text \<open>\<open>getCombinedIndex\<close>: the loop that fills \<open>allDocuments\<close>, then the build.\<close>

definition with_source :: "string \<Rightarrow> document \<Rightarrow> document" where
  "with_source documentPath doc =
     \<lparr>doc_id = doc_id doc,
      doc_text = doc_text doc,
      metadata = set_prop (metadata doc) ''source_document'' (JStr documentPath)\<rparr>"

fun collectDocuments :: "env \<Rightarrow> world \<Rightarrow> string list \<Rightarrow> document list \<Rightarrow> document list" where
  "collectDocuments e w [] allDocuments = allDocuments"
| "collectDocuments e w (documentPath # rest) allDocuments =
     (case loadParsedDocuments e w documentPath of
        Inl err \<Rightarrow> collectDocuments e w rest allDocuments
      | Inr documents \<Rightarrow>
          collectDocuments e w rest (allDocuments @ map (with_source documentPath) documents))"

definition getCombinedIndex ::
  "env \<Rightarrow> world \<Rightarrow> string list \<Rightarrow> world \<times> (error + VectorStoreIndex option)" where
  "getCombinedIndex e w documentPaths =
     (let allDocuments = collectDocuments e w documentPaths []
      in if allDocuments = [] then (w, Inr None)
         else (case configureSettings e of
                 Inl err \<Rightarrow> (w, Inl err)
               | Inr u \<Rightarrow>
                  (case fromDocuments e w allDocuments of
                     (w1, Inl err) \<Rightarrow> (w1, Inl err)
                   | (w1, Inr combinedIndex) \<Rightarrow> (w1, Inr (Some combinedIndex)))))"

section \<open>Calls of prepareIndex that overlap\<close>

text \<open>
  \<open>prepareIndex\<close> is an \<open>async\<close> function: it runs until an \<open>await\<close>, and while it
  waits other calls run. A call is followed here from one \<open>await\<close> of \<open>prepareIndex\<close>
  to the next. \<open>Called\<close> is a call that has not started; its first step runs
  \<open>configureSettings\<close> and the registry lookup, up to \<open>await shouldUseParsedFiles\<close>. The
  step of \<open>AwaitFresh\<close> takes the answer of the freshness check, the step of
  \<open>AwaitDocuments\<close> loads or parses the documents and checks that there are some, and
  the step of \<open>AwaitBuild\<close> builds the index and puts it into the registry. The work
  awaited in a step is done at once when the step is taken.
\<close>

datatype prepare_task =
    Called string
  | AwaitFresh string
  | AwaitDocuments string bool
  | AwaitBuild string "document list"
  | Finished "error + unit"

fun prepare_step :: "env \<Rightarrow> world \<Rightarrow> prepare_task \<Rightarrow> world \<times> prepare_task" where
  "prepare_step e w (Called documentPath) =
     (case configureSettings e of
        Inl err \<Rightarrow> (w, Finished (Inl err))
      | Inr u \<Rightarrow>
         (case documentIndices w documentPath of
            Some documentIndex \<Rightarrow> (w, Finished (Inr ()))
          | None \<Rightarrow> (w, AwaitFresh documentPath)))"
| "prepare_step e w (AwaitFresh documentPath) =
     (w, AwaitDocuments documentPath (shouldUseParsedFiles e w documentPath))"
| "prepare_step e w (AwaitDocuments documentPath fresh) =
     (case (if fresh
            then (case loadParsedDocuments e w documentPath of
                    Inr documents \<Rightarrow> (w, Inr documents)
                  | Inl err \<Rightarrow> parseAndSaveDocuments e w documentPath)
            else parseAndSaveDocuments e w documentPath) of
        (w1, Inl err) \<Rightarrow> (w1, Finished (Inl err))
      | (w1, Inr documents) \<Rightarrow>
          if documents = [] then (w1, Finished (Inl EmptyDocument))
          else (w1, AwaitBuild documentPath documents))"
| "prepare_step e w (AwaitBuild documentPath documents) =
     (case fromDocuments e w documents of
        (w1, Inl err) \<Rightarrow> (w1, Finished (Inl err))
      | (w1, Inr documentIndex) \<Rightarrow>
          (w1\<lparr>documentIndices := (documentIndices w1)(documentPath \<mapsto> documentIndex)\<rparr>,
           Finished (Inr ())))"
| "prepare_step e w (Finished r) = (w, Finished r)"

text \<open>
  Several calls in flight: the schedule names, step by step, the call that goes on.
\<close>

fun run_schedule ::
  "env \<Rightarrow> world \<Rightarrow> prepare_task list \<Rightarrow> nat list \<Rightarrow> world \<times> prepare_task list" where
  "run_schedule e w tasks [] = (w, tasks)"
| "run_schedule e w tasks (i # schedule) =
     (if i < length tasks
      then (case prepare_step e w (tasks ! i) of
              (w1, t1) \<Rightarrow> run_schedule e w1 (tasks[i := t1]) schedule)
      else run_schedule e w tasks schedule)"

section \<open>Auxiliary notions and sample data\<close>

text \<open>A path segment that normalisation keeps as it is.\<close>

definition normal_segment :: "string \<Rightarrow> bool" where
  "normal_segment s = (s \<noteq> [] \<and> s \<noteq> ''.'' \<and> s \<noteq> ''..'')"

text \<open>The cache directory of a file name below a normalised working directory.\<close>

definition cache_dir :: "string list \<Rightarrow> string \<Rightarrow> string list" where
  "cache_dir base f =
     (if f = ''.'' then base @ [''documents'', ''parsed'']
      else if f = ''..'' then base @ [''documents'']
      else base @ [''documents'', ''parsed'', f])"

text \<open>
  Two parts of \<open>prepareIndex\<close> by name. The documents it works on, given the answer of
  \<open>shouldUseParsedFiles\<close>: the cached ones, or the parsed ones when the cache is not
  fresh or does not load.
\<close>

definition obtainDocuments ::
  "env \<Rightarrow> world \<Rightarrow> string \<Rightarrow> bool \<Rightarrow> world \<times> (error + document list)" where
  "obtainDocuments e w documentPath fresh =
     (if fresh then
        (case loadParsedDocuments e w documentPath of
           Inr documents \<Rightarrow> (w, Inr documents)
         | Inl err \<Rightarrow> parseAndSaveDocuments e w documentPath)
      else parseAndSaveDocuments e w documentPath)"

text \<open>The end of \<open>prepareIndex\<close>: the check for no content, the build, the registration.\<close>

definition buildAndRegister ::
  "env \<Rightarrow> world \<Rightarrow> string \<Rightarrow> document list \<Rightarrow> world \<times> (error + unit)" where
  "buildAndRegister e w documentPath documents =
     (if documents = [] then (w, Inl EmptyDocument)
      else (case fromDocuments e w documents of
              (w1, Inl err) \<Rightarrow> (w1, Inl err)
            | (w1, Inr documentIndex) \<Rightarrow>
                (w1\<lparr>documentIndices := (documentIndices w1)(documentPath \<mapsto> documentIndex)\<rparr>,
                 Inr ())))"

text \<open>
  A sample installation: the application runs in \<open>/srv/nexus\<close>, LlamaParse answers for
  \<open>papers/a.pdf\<close> with one page that has a legacy \<open>items\<close> list and for
  \<open>papers/blank.pdf\<close> with one page of white space (a space, a no-break space and a
  line separator), and the embedding service works.
\<close>

definition demo_page :: page where
  "demo_page =
     \<lparr>p_text = ''Abstract'', p_md = [], p_page = JNum 1, p_layout = None,
      p_items = Some [[(''type'', JStr ''heading'')]], p_images = JUndefined\<rparr>"

definition demo_result :: json_result where
  "demo_result =
     \<lparr>r_pages = Some [demo_page], r_job_id = JStr ''job-1'',
      r_file_path = JStr ''papers/a.pdf''\<rparr>"

definition blank_result :: json_result where
  "blank_result =
     \<lparr>r_pages = Some [demo_page\<lparr>p_text :=
                  [CHR 0x20, CHR 0xC2, CHR 0xA0, CHR 0xE2, CHR 0x80, CHR 0xA8]\<rparr>],
      r_job_id = JStr ''job-2'',
      r_file_path = JStr ''papers/blank.pdf''\<rparr>"

definition demo_env :: env where
  "demo_env =
     \<lparr>cwd = [''srv'', ''nexus''], llm_ok = True, embedding_ok = True,
      loadJson = (\<lambda>p. if p = ([''srv'', ''nexus'', ''papers'', ''a.pdf''], False)
                        then Some [demo_result]
                        else if p = ([''srv'', ''nexus'', ''papers'', ''blank.pdf''], False)
                        then Some [blank_result] else None),
      loadData = (\<lambda>p. None),
      randomUUID = (\<lambda>n. ''uuid''),
      embed_ok = (\<lambda>ds. True),
      text_size = (\<lambda>c. 0),
      dir_size = 4096\<rparr>"

text \<open>
  Sample files. \<open>demo_source_fs\<close> holds the source \<open>papers/a.pdf\<close>, modified at time
  100, in its directory, and no cache; \<open>demo_fs c t\<close> has the cache of \<open>a\<close> as well, with
  \<open>c\<close> in \<open>documents.json\<close> and both cache files modified at time \<open>t\<close>.
\<close>

definition demo_source :: fsfile where
  "demo_source = \<lparr>f_content = Opaque, f_mtime = 100, f_size = 2048\<rparr>"

definition demo_stored :: stored_document where
  "demo_stored =
     \<lparr>s_id = ''seg-1'', s_text = ''Abstract'', s_metadata = Some [(''page_number'', JNum 1)]\<rparr>"

definition demo_meta :: cache_metadata where
  "demo_meta =
     \<lparr>documentPath_of = ''papers/a.pdf'', originalFileSize = 2048, originalModifiedTime = 100,
      cachedAt = 150, documentsCount = 1, hasLayoutData = True,
      layoutExtractionAttempted = True\<rparr>"

definition demo_dir :: fsnode where
  "demo_dir = Directory \<lparr>st_mtime = 10, st_size = 4096\<rparr>"

definition demo_source_fs :: "string list \<rightharpoonup> fsnode" where
  "demo_source_fs =
     [[] \<mapsto> demo_dir,
      [''srv''] \<mapsto> demo_dir,
      [''srv'', ''nexus''] \<mapsto> demo_dir,
      [''srv'', ''nexus'', ''papers''] \<mapsto> demo_dir,
      [''srv'', ''nexus'', ''papers'', ''a.pdf''] \<mapsto> RegularFile demo_source]"

definition demo_fs :: "fcontent \<Rightarrow> int \<Rightarrow> (string list \<rightharpoonup> fsnode)" where
  "demo_fs c t =
     demo_source_fs
      ([''srv'', ''nexus'', ''documents''] \<mapsto> demo_dir,
       [''srv'', ''nexus'', ''documents'', ''parsed''] \<mapsto> demo_dir,
       [''srv'', ''nexus'', ''documents'', ''parsed'', ''a''] \<mapsto> demo_dir,
       [''srv'', ''nexus'', ''documents'', ''parsed'', ''a'', ''documents.json''] \<mapsto>
         RegularFile \<lparr>f_content = c, f_mtime = t, f_size = 64\<rparr>,
       [''srv'', ''nexus'', ''documents'', ''parsed'', ''a'', ''metadata.json''] \<mapsto>
         RegularFile \<lparr>f_content = CacheMeta demo_meta, f_mtime = t, f_size = 64\<rparr>)"

definition demo_world :: "(string list \<rightharpoonup> fsnode) \<Rightarrow> world" where
  "demo_world files =
     \<lparr>fs = files, unwritable = (\<lambda>p. False), now = 200, documentIndices = Map.empty,
      parser_log = [], build_log = [], uuid_next = 0\<rparr>"

text \<open>
  The document that the parser glue makes of the sample page, and the same document as
  it comes back from the cache.
\<close>

definition demo_document :: document where
  "demo_document = page_document ''papers/a.pdf'' demo_result demo_page ''uuid''"

definition demo_cached_document :: document where
  "demo_cached_document = demo_document\<lparr>metadata := jsonify_object (metadata demo_document)\<rparr>"

text \<open>The content of a regular file; a directory has none.\<close>

definition node_content :: "fsnode \<Rightarrow> fcontent option" where
  "node_content n = (case n of RegularFile f \<Rightarrow> Some (f_content f) | Directory st \<Rightarrow> None)"

text \<open>
  How often \<open>parseAndSaveDocuments\<close> has run: each run starts with one \<open>loadJson\<close> call.
\<close>

definition parse_runs :: "world \<Rightarrow> nat" where
  "parse_runs w = length (filter (\<lambda>x. fst x = LoadJson) (parser_log w))"

text \<open>
  What \<open>getCombinedIndex\<close> takes from one document: its cached documents, each with
  \<open>source_document\<close> set, and nothing when the cache does not load.
\<close>

definition cached_segments :: "env \<Rightarrow> world \<Rightarrow> string \<Rightarrow> document list" where
  "cached_segments e w documentPath =
     (case loadParsedDocuments e w documentPath of
        Inl err \<Rightarrow> []
      | Inr documents \<Rightarrow> map (with_source documentPath) documents)"

text \<open>The schedule that runs \<open>n\<close> calls one after another, and four steps of one call.\<close>

definition one_after_another :: "nat \<Rightarrow> nat list" where
  "one_after_another n = concat (map (replicate 4) [0..<n])"

definition steps4 :: "env \<Rightarrow> world \<Rightarrow> prepare_task \<Rightarrow> world \<times> prepare_task" where
  "steps4 e w t =
     (case prepare_step e w t of (w1, t1) \<Rightarrow>
      case prepare_step e w1 t1 of (w2, t2) \<Rightarrow>
      case prepare_step e w2 t2 of (w3, t3) \<Rightarrow> prepare_step e w3 t3)"

text \<open>
  Kinds of calls in flight. A call that has started is past its registry lookup unless
  it has finished; a call has run \<open>fromDocuments\<close> exactly when it ended in success or in
  \<open>BuildFailed\<close>, provided it did not end at the registry lookup; a call awaits a parse
  when its freshness check has answered no and it has not gone on.
\<close>

fun started :: "prepare_task \<Rightarrow> bool" where
  "started (Called p) = False"
| "started t = True"

fun in_flight :: "prepare_task \<Rightarrow> bool" where
  "in_flight (AwaitFresh p) = True"
| "in_flight (AwaitDocuments p fresh) = True"
| "in_flight (AwaitBuild p ds) = True"
| "in_flight t = False"

fun build_outcome :: "prepare_task \<Rightarrow> bool" where
  "build_outcome (Finished r) = (r = Inr () \<or> r = Inl BuildFailed)"
| "build_outcome t = False"

fun awaits_parse :: "prepare_task \<Rightarrow> bool" where
  "awaits_parse (AwaitDocuments p fresh) = (\<not> fresh)"
| "awaits_parse t = False"

fun past_freshness :: "prepare_task \<Rightarrow> bool" where
  "past_freshness (AwaitDocuments p fresh) = (\<not> fresh)"
| "past_freshness (AwaitBuild p ds) = True"
| "past_freshness (Finished r) = True"
| "past_freshness t = False"

section \<open>Paths of the parse cache\<close>

lemma foldl_norm_step_normal:
  "list_all normal_segment xs \<Longrightarrow> foldl norm_step acc xs = acc @ xs"
  by (induction xs arbitrary: acc) (auto simp: norm_step_def normal_segment_def)

lemma norm_step_keeps_normal:
  "list_all normal_segment acc \<Longrightarrow> list_all normal_segment (norm_step acc s)"
  by (auto simp: norm_step_def normal_segment_def list_all_iff dest: in_set_butlastD)

lemma foldl_norm_step_keeps_normal:
  "list_all normal_segment acc \<Longrightarrow> list_all normal_segment (foldl norm_step acc xs)"
  by (induction xs arbitrary: acc) (simp_all add: norm_step_keeps_normal)

lemma split_slash_nonempty: "split_slash s \<noteq> []"
  by (induction s) (auto split: list.splits)

lemma split_slash_no_slash: "CHR ''/'' \<notin> set s \<Longrightarrow> split_slash s = [s]"
  by (induction s) auto

lemma last_split_slash_no_slash: "CHR ''/'' \<notin> set (last (split_slash s))"
  by (induction s) (auto simp: split_slash_nonempty split: list.splits)

lemma strip_extension_subset: "set (strip_extension s) \<subseteq> set s"
proof -
  have "set (dropWhile (\<lambda>c. c \<noteq> CHR ''.'' \<and> c \<noteq> CHR ''/'') (rev s)) \<subseteq> set s"
    using set_dropWhileD by fastforce
  then show ?thesis
    by (auto simp: strip_extension_def Let_def split: list.splits)
qed

lemma fileName_of_no_slash: "CHR ''/'' \<notin> set (fileName_of p)"
  using strip_extension_subset [of "last (split_slash p)"] last_split_slash_no_slash [of p]
  by (auto simp: fileName_of_def Let_def)

lemma fileName_of_nonempty: "fileName_of p \<noteq> []"
  by (simp add: fileName_of_def Let_def)

lemma no_slash_at_end: "CHR ''/'' \<notin> set s \<Longrightarrow> \<not> ends_with_slash s"
  by (metis ends_with_slash_def last_in_set)

lemma parsedDir_eq:
  "parsedDir (getParsedPaths e p) =
     (cache_dir (foldl norm_step [] (cwd e)) (fileName_of p), False)"
  using fileName_of_no_slash [of p] fileName_of_nonempty [of p]
  by (simp add: getParsedPaths_def Let_def join_def split_slash_no_slash cache_dir_def
      norm_step_def butlast_append no_slash_at_end)

lemma cache_dir_normal:
  "list_all normal_segment base \<Longrightarrow> f \<noteq> [] \<Longrightarrow> list_all normal_segment (cache_dir base f)"
  by (auto simp: cache_dir_def normal_segment_def)

lemma cache_dir_inj: "cache_dir base f = cache_dir base g \<Longrightarrow> f = g"
  by (auto simp: cache_dir_def split: if_splits)

lemma join_file:
  assumes "list_all normal_segment dir" "normal_segment f" "CHR ''/'' \<notin> set f"
  shows "join dir [f] = (dir @ [f], False)"
  using assms
  by (simp add: join_def split_slash_no_slash foldl_norm_step_normal norm_step_def
      normal_segment_def no_slash_at_end)

lemma parsedDir_normal: "list_all normal_segment (fst (parsedDir (getParsedPaths e p)))"
  unfolding parsedDir_eq fst_conv
  by (rule cache_dir_normal) (simp_all add: foldl_norm_step_keeps_normal fileName_of_nonempty)

lemma documentsPath_eq:
  "documentsPath (getParsedPaths e p) =
     (fst (parsedDir (getParsedPaths e p)) @ [''documents.json''], False)"
proof -
  have "join (fst (parsedDir (getParsedPaths e p))) [''documents.json''] =
      (fst (parsedDir (getParsedPaths e p)) @ [''documents.json''], False)"
    using parsedDir_normal by (rule join_file) (simp_all add: normal_segment_def)
  then show ?thesis by (simp add: getParsedPaths_def Let_def)
qed

lemma metadataPath_eq:
  "metadataPath (getParsedPaths e p) =
     (fst (parsedDir (getParsedPaths e p)) @ [''metadata.json''], False)"
proof -
  have "join (fst (parsedDir (getParsedPaths e p))) [''metadata.json''] =
      (fst (parsedDir (getParsedPaths e p)) @ [''metadata.json''], False)"
    using parsedDir_normal by (rule join_file) (simp_all add: normal_segment_def)
  then show ?thesis by (simp add: getParsedPaths_def Let_def)
qed

lemma documentsPath_neq_metadataPath:
  "documentsPath (getParsedPaths e p) \<noteq> metadataPath (getParsedPaths e q)"
  by (simp add: documentsPath_eq metadataPath_eq)

lemma same_fileName_same_paths:
  "fileName_of p = fileName_of q \<Longrightarrow> getParsedPaths e p = getParsedPaths e q"
  by (simp add: getParsedPaths_def)

lemma fileName_of_a_pdf:
  "fileName_of ''papers/a.pdf'' = ''a''" "fileName_of ''drafts/a.pdf'' = ''a''"
  "fileName_of ''papers/b.pdf'' = ''b''" "fileName_of ''papers/a.pdf/'' = ''document''"
  by (simp_all add: fileName_of_def strip_extension_def)

text \<open>
  C9, as the code has it: the cache files of a document are found from its base file
  name alone (the last segment of the path without its last extension, \<open>document\<close>
  when nothing is left). Two paths have the same \<open>documents.json\<close>, the same
  \<open>metadata.json\<close> and the same cache directory exactly when their base file names are
  the same, and the \<open>documents.json\<close> of one is never the \<open>metadata.json\<close> of another.
\<close>

theorem cache_paths_by_file_name:
  "((documentsPath (getParsedPaths e p) = documentsPath (getParsedPaths e q)) =
      (fileName_of p = fileName_of q)) \<and>
   ((metadataPath (getParsedPaths e p) = metadataPath (getParsedPaths e q)) =
      (fileName_of p = fileName_of q)) \<and>
   ((parsedDir (getParsedPaths e p) = parsedDir (getParsedPaths e q)) =
      (fileName_of p = fileName_of q)) \<and>
   documentsPath (getParsedPaths e p) \<noteq> metadataPath (getParsedPaths e q)"
  by (auto simp: documentsPath_eq metadataPath_eq parsedDir_eq dest: cache_dir_inj)

theorem cache_paths_by_file_name_witness:
  "documentsPath (getParsedPaths demo_env ''papers/a.pdf'') \<noteq>
     documentsPath (getParsedPaths demo_env ''papers/b.pdf'') \<and>
   metadataPath (getParsedPaths demo_env ''papers/a.pdf'') =
     metadataPath (getParsedPaths demo_env ''drafts/a.pdf'')"
  using cache_paths_by_file_name [of demo_env "''papers/a.pdf''" "''papers/b.pdf''"]
    cache_paths_by_file_name [of demo_env "''papers/a.pdf''" "''drafts/a.pdf''"]
  by (simp add: fileName_of_a_pdf)

text \<open>
  C9 as stated fails: \<open>papers/a.pdf\<close> and \<open>drafts/a.pdf\<close> are different documents with
  the same cache files.
\<close>

theorem distinct_refs_share_cache_paths:
  "''papers/a.pdf'' \<noteq> ''drafts/a.pdf'' \<and>
   getParsedPaths demo_env ''papers/a.pdf'' = getParsedPaths demo_env ''drafts/a.pdf''"
  by (simp add: getParsedPaths_def fileName_of_a_pdf)

section \<open>The file system\<close>

lemma is_directory_simps:
  "is_directory None = False" "is_directory (Some (RegularFile f)) = False"
  "is_directory (Some (Directory st)) = True"
  by (simp_all add: is_directory_def)

lemma is_directory_iff: "is_directory n = (\<exists>st. n = Some (Directory st))"
  by (auto simp: is_directory_def split: option.splits fsnode.splits)

lemma touch_other: "q \<noteq> dir \<Longrightarrow> touch w dir q = fs w q"
  by (simp add: touch_def split: option.splits fsnode.splits)

lemma touch_kind:
  "is_directory (touch w dir q) = is_directory (fs w q)"
  "(touch w dir q = Some (RegularFile f)) = (fs w q = Some (RegularFile f))"
  "(touch w dir q = None) = (fs w q = None)"
  by (auto simp: touch_def is_directory_def split: option.splits fsnode.splits)

lemma stat_fs: "fs w' = fs w \<Longrightarrow> stat w' = stat w"
  by (rule ext) (simp add: stat_def)

lemma readFile_fs: "fs w' = fs w \<Longrightarrow> readFile w' = readFile w"
  by (rule ext) (simp add: readFile_def)

lemma stat_fails_iff:
  "(\<exists>err. stat w path = Inl err) =
     (fs w (fst path) = None \<or> (snd path \<and> \<not> is_directory (fs w (fst path))))"
  by (auto simp: stat_def is_directory_def split: option.splits fsnode.splits)

lemma stat_ok_iff:
  "(\<exists>st. stat w path = Inr st) =
     (fs w (fst path) \<noteq> None \<and> (snd path \<longrightarrow> is_directory (fs w (fst path))))"
  by (auto simp: stat_def is_directory_def split: option.splits fsnode.splits)

lemma mkdir_below_frame:
  "documentIndices (fst (mkdir_below e w dir rest)) = documentIndices w \<and>
   parser_log (fst (mkdir_below e w dir rest)) = parser_log w \<and>
   build_log (fst (mkdir_below e w dir rest)) = build_log w \<and>
   uuid_next (fst (mkdir_below e w dir rest)) = uuid_next w \<and>
   unwritable (fst (mkdir_below e w dir rest)) = unwritable w \<and>
   now (fst (mkdir_below e w dir rest)) = now w"
  by (induction rest arbitrary: w dir) (simp_all split: option.splits fsnode.splits)

lemma mkdir_below_dir:
  "is_directory (fs w q) \<Longrightarrow> is_directory (fs (fst (mkdir_below e w dir rest)) q)"
proof (induction rest arbitrary: w dir)
  case Nil
  then show ?case by simp
next
  case (Cons s rest)
  let ?w = "w\<lparr>fs := (touch w dir)
      (dir @ [s] \<mapsto> Directory \<lparr>st_mtime = now w, st_size = dir_size e\<rparr>)\<rparr>"
  have "is_directory (fs ?w q)"
    using Cons.prems by (simp add: touch_kind is_directory_simps)
  from Cons.IH [OF this] Cons.IH [OF Cons.prems] Cons.prems show ?case
    by (simp split: option.splits fsnode.splits)
qed

lemma mkdir_below_file:
  "(fs (fst (mkdir_below e w dir rest)) q = Some (RegularFile f)) =
     (fs w q = Some (RegularFile f))"
proof (induction rest arbitrary: w dir)
  case Nil
  show ?case by simp
next
  case (Cons s rest)
  let ?w = "w\<lparr>fs := (touch w dir)
      (dir @ [s] \<mapsto> Directory \<lparr>st_mtime = now w, st_size = dir_size e\<rparr>)\<rparr>"
  have "fs w (dir @ [s]) = None \<Longrightarrow>
      (fs ?w q = Some (RegularFile f)) = (fs w q = Some (RegularFile f))"
    by (auto simp: touch_kind)
  with Cons.IH [of ?w] Cons.IH [of w] show ?case
    by (simp split: option.splits fsnode.splits)
qed

lemma mkdir_below_other:
  "\<not> prefix q (dir @ rest) \<Longrightarrow> fs (fst (mkdir_below e w dir rest)) q = fs w q"
proof (induction rest arbitrary: w dir)
  case Nil
  then show ?case by simp
next
  case (Cons s rest)
  let ?w = "w\<lparr>fs := (touch w dir)
      (dir @ [s] \<mapsto> Directory \<lparr>st_mtime = now w, st_size = dir_size e\<rparr>)\<rparr>"
  from Cons.prems have np: "\<not> prefix q ((dir @ [s]) @ rest)" by simp
  from Cons.prems have "q \<noteq> dir" "q \<noteq> dir @ [s]" by auto
  then have "fs ?w q = fs w q" by (simp add: touch_other)
  with Cons.IH [OF np, of ?w] Cons.IH [OF np, of w] show ?case
    by (simp split: option.splits fsnode.splits)
qed

lemma mkdir_below_ok:
  "is_directory (fs w dir) \<or> rest \<noteq> [] \<Longrightarrow> snd (mkdir_below e w dir rest) = Inr () \<Longrightarrow>
   is_directory (fs (fst (mkdir_below e w dir rest)) (dir @ rest))"
proof (induction rest arbitrary: w dir)
  case Nil
  then show ?case by simp
next
  case (Cons s rest)
  let ?w = "w\<lparr>fs := (touch w dir)
      (dir @ [s] \<mapsto> Directory \<lparr>st_mtime = now w, st_size = dir_size e\<rparr>)\<rparr>"
  show ?case
  proof (cases "fs w (dir @ [s])")
    case None
    with Cons.prems have ok: "snd (mkdir_below e ?w (dir @ [s]) rest) = Inr ()"
      by (simp split: if_splits)
    have "is_directory (fs ?w (dir @ [s])) \<or> rest \<noteq> []" by (simp add: is_directory_simps)
    from Cons.IH [OF this ok] None Cons.prems show ?thesis
      by (simp split: if_splits)
  next
    case (Some n)
    show ?thesis
    proof (cases n)
      case (RegularFile f)
      with Some Cons.prems show ?thesis by simp
    next
      case (Directory st)
      with Some Cons.prems have ok: "snd (mkdir_below e w (dir @ [s]) rest) = Inr ()"
        by simp
      have "is_directory (fs w (dir @ [s])) \<or> rest \<noteq> []"
        by (simp add: Some Directory is_directory_simps)
      from Cons.IH [OF this ok] Some Directory show ?thesis by simp
    qed
  qed
qed

lemma mkdir_frame:
  "documentIndices (fst (mkdir e w p)) = documentIndices w"
  "parser_log (fst (mkdir e w p)) = parser_log w"
  "build_log (fst (mkdir e w p)) = build_log w"
  "uuid_next (fst (mkdir e w p)) = uuid_next w"
  "unwritable (fst (mkdir e w p)) = unwritable w"
  "now (fst (mkdir e w p)) = now w"
  by (simp_all add: mkdir_def mkdir_below_frame)

lemma mkdir_kind:
  "is_directory (fs w q) \<Longrightarrow> is_directory (fs (fst (mkdir e w p)) q)"
  "(fs (fst (mkdir e w p)) q = Some (RegularFile f)) = (fs w q = Some (RegularFile f))"
  by (simp_all add: mkdir_def mkdir_below_dir mkdir_below_file)

lemma mkdir_other: "\<not> prefix q (fst p) \<Longrightarrow> fs (fst (mkdir e w p)) q = fs w q"
  by (simp add: mkdir_def mkdir_below_other)

lemma mkdir_ok:
  "fst p \<noteq> [] \<Longrightarrow> snd (mkdir e w p) = Inr () \<Longrightarrow>
   is_directory (fs (fst (mkdir e w p)) (fst p))"
  using mkdir_below_ok [of w "[]" "fst p" e]
  by (simp add: mkdir_def)

lemma mkdir_stat:
  assumes "stat w q = Inr st"
  shows "\<exists>st'. stat (fst (mkdir e w p)) q = Inr st'"
proof -
  from assms have "fs w (fst q) \<noteq> None \<and> (snd q \<longrightarrow> is_directory (fs w (fst q)))"
    using stat_ok_iff [of w q] by blast
  then have "fs (fst (mkdir e w p)) (fst q) \<noteq> None \<and>
      (snd q \<longrightarrow> is_directory (fs (fst (mkdir e w p)) (fst q)))"
  proof (cases "fs w (fst q)")
    case None
    then show "fs w (fst q) \<noteq> None \<and> (snd q \<longrightarrow> is_directory (fs w (fst q))) \<Longrightarrow> ?thesis"
      by simp
  next
    case (Some n)
    assume h: "fs w (fst q) \<noteq> None \<and> (snd q \<longrightarrow> is_directory (fs w (fst q)))"
    show ?thesis
    proof (cases n)
      case (RegularFile f)
      with Some have "fs (fst (mkdir e w p)) (fst q) = Some (RegularFile f)"
        by (simp add: mkdir_kind)
      with h Some RegularFile show ?thesis by (simp add: is_directory_simps)
    next
      case (Directory d)
      with Some have "is_directory (fs w (fst q))" by (simp add: is_directory_simps)
      then have "is_directory (fs (fst (mkdir e w p)) (fst q))" by (rule mkdir_kind)
      then show ?thesis by (auto simp: is_directory_iff)
    qed
  qed
  then show ?thesis using stat_ok_iff [of "fst (mkdir e w p)" q] by blast
qed

lemma writeFile_frame:
  "documentIndices (fst (writeFile e w p c)) = documentIndices w"
  "parser_log (fst (writeFile e w p c)) = parser_log w"
  "build_log (fst (writeFile e w p c)) = build_log w"
  "uuid_next (fst (writeFile e w p c)) = uuid_next w"
  "unwritable (fst (writeFile e w p c)) = unwritable w"
  "now (fst (writeFile e w p c)) = now w"
  by (simp_all add: writeFile_def)

lemma writeFile_written:
  assumes "\<not> snd p" "is_directory (fs w (butlast (fst p)))" "fst p \<noteq> []"
    "\<not> is_directory (fs w (fst p))" "\<not> unwritable w (fst p)"
  shows "fs (fst (writeFile e w p c)) (fst p) =
    Some (RegularFile \<lparr>f_content = c, f_mtime = now w, f_size = text_size e c\<rparr>)"
  using assms by (simp add: writeFile_def)

lemma writeFile_other:
  assumes "q \<noteq> fst p" "q \<noteq> butlast (fst p)"
  shows "fs (fst (writeFile e w p c)) q = fs w q"
  using assms by (simp add: writeFile_def touch_other)

lemma writeFile_kind:
  "is_directory (fs (fst (writeFile e w p c)) q) = is_directory (fs w q)"
  by (auto simp: writeFile_def touch_kind is_directory_simps)

section \<open>The freshness check\<close>

lemma demo_paths:
  "join (cwd demo_env) [''papers/a.pdf''] = ([''srv'', ''nexus'', ''papers'', ''a.pdf''], False)"
  "join (cwd demo_env) [''papers/a.pdf/''] = ([''srv'', ''nexus'', ''papers'', ''a.pdf''], True)"
  "documentsPath (getParsedPaths demo_env ''papers/a.pdf'') =
     ([''srv'', ''nexus'', ''documents'', ''parsed'', ''a'', ''documents.json''], False)"
  "metadataPath (getParsedPaths demo_env ''papers/a.pdf'') =
     ([''srv'', ''nexus'', ''documents'', ''parsed'', ''a'', ''metadata.json''], False)"
  "parsedDir (getParsedPaths demo_env ''papers/a.pdf'') =
     ([''srv'', ''nexus'', ''documents'', ''parsed'', ''a''], False)"
  by (simp_all add: getParsedPaths_def fileName_of_a_pdf join_def demo_env_def norm_step_def
      ends_with_slash_def Let_def)

lemma join_slash:
  "snd (join base [documentPath]) =
     (fst (join base [documentPath]) \<noteq> [] \<and> ends_with_slash documentPath)"
  by (auto simp: join_def Let_def ends_with_slash_def)

text \<open>
  C5: the freshness check answers true exactly when the source, the cached
  \<open>documents.json\<close> and the cached \<open>metadata.json\<close> can all be stat'ed and both cache
  files were modified no earlier than the source. The body of its \<open>try\<close> fails exactly
  when one of the three \<open>stat\<close> calls fails, and then the function answers false: no
  error leaves it. A \<open>stat\<close> call fails exactly when nothing is at the path, or the
  path ends in a slash and what is there is not a directory; the path of the source
  ends in a slash when the document path does.
\<close>

theorem shouldUseParsedFiles_iff:
  "(shouldUseParsedFiles e w documentPath =
      (\<exists>src docs meta.
         stat w (join (cwd e) [documentPath]) = Inr src \<and>
         stat w (documentsPath (getParsedPaths e documentPath)) = Inr docs \<and>
         stat w (metadataPath (getParsedPaths e documentPath)) = Inr meta \<and>
         st_mtime docs \<ge> st_mtime src \<and> st_mtime meta \<ge> st_mtime src)) \<and>
   ((\<exists>err. shouldUseParsedFiles_try e w documentPath = Inl err) =
      ((\<exists>err. stat w (join (cwd e) [documentPath]) = Inl err) \<or>
       (\<exists>err. stat w (documentsPath (getParsedPaths e documentPath)) = Inl err) \<or>
       (\<exists>err. stat w (metadataPath (getParsedPaths e documentPath)) = Inl err))) \<and>
   (\<forall>err. shouldUseParsedFiles_try e w documentPath = Inl err \<longrightarrow>
      \<not> shouldUseParsedFiles e w documentPath) \<and>
   ((\<exists>err. stat w path = Inl err) =
      (fs w (fst path) = None \<or> (snd path \<and> \<not> is_directory (fs w (fst path))))) \<and>
   (fs w (fst path) = Some (RegularFile f) \<and> \<not> snd path \<longrightarrow>
      stat w path = Inr \<lparr>st_mtime = f_mtime f, st_size = f_size f\<rparr>) \<and>
   (fs w (fst path) = Some (Directory st) \<longrightarrow> stat w path = Inr st) \<and>
   snd (join (cwd e) [documentPath]) =
     (fst (join (cwd e) [documentPath]) \<noteq> [] \<and> ends_with_slash documentPath)"
proof (intro conjI)
  show "shouldUseParsedFiles e w documentPath =
      (\<exists>src docs meta.
         stat w (join (cwd e) [documentPath]) = Inr src \<and>
         stat w (documentsPath (getParsedPaths e documentPath)) = Inr docs \<and>
         stat w (metadataPath (getParsedPaths e documentPath)) = Inr meta \<and>
         st_mtime docs \<ge> st_mtime src \<and> st_mtime meta \<ge> st_mtime src)"
    by (auto simp: shouldUseParsedFiles_def shouldUseParsedFiles_try_def Let_def
        split: sum.splits)
  show "(\<exists>err. shouldUseParsedFiles_try e w documentPath = Inl err) =
      ((\<exists>err. stat w (join (cwd e) [documentPath]) = Inl err) \<or>
       (\<exists>err. stat w (documentsPath (getParsedPaths e documentPath)) = Inl err) \<or>
       (\<exists>err. stat w (metadataPath (getParsedPaths e documentPath)) = Inl err))"
    by (auto simp: shouldUseParsedFiles_try_def Let_def split: sum.splits)
  show "\<forall>err. shouldUseParsedFiles_try e w documentPath = Inl err \<longrightarrow>
      \<not> shouldUseParsedFiles e w documentPath"
    by (simp add: shouldUseParsedFiles_def)
  show "(\<exists>err. stat w path = Inl err) =
      (fs w (fst path) = None \<or> (snd path \<and> \<not> is_directory (fs w (fst path))))"
    by (rule stat_fails_iff)
  show "fs w (fst path) = Some (RegularFile f) \<and> \<not> snd path \<longrightarrow>
      stat w path = Inr \<lparr>st_mtime = f_mtime f, st_size = f_size f\<rparr>"
    by (simp add: stat_def)
  show "fs w (fst path) = Some (Directory st) \<longrightarrow> stat w path = Inr st"
    by (simp add: stat_def)
  show "snd (join (cwd e) [documentPath]) =
     (fst (join (cwd e) [documentPath]) \<noteq> [] \<and> ends_with_slash documentPath)"
    by (rule join_slash)
qed

lemma demo_world_simps:
  "fs (demo_world f) = f" "documentIndices (demo_world f) = Map.empty"
  "parser_log (demo_world f) = []" "build_log (demo_world f) = []"
  "unwritable (demo_world f) = (\<lambda>p. False)" "now (demo_world f) = 200"
  "uuid_next (demo_world f) = 0"
  by (simp_all add: demo_world_def)

lemma demo_stat:
  "stat (demo_world (demo_fs c t)) ([''srv'', ''nexus'', ''papers'', ''a.pdf''], False) =
     Inr \<lparr>st_mtime = 100, st_size = 2048\<rparr>"
  "stat (demo_world (demo_fs c t)) ([''srv'', ''nexus'', ''papers'', ''a.pdf''], True) =
     Inl FsError"
  "stat (demo_world (demo_fs c t))
     ([''srv'', ''nexus'', ''documents'', ''parsed'', ''a'', ''documents.json''], False) =
     Inr \<lparr>st_mtime = t, st_size = 64\<rparr>"
  "stat (demo_world (demo_fs c t))
     ([''srv'', ''nexus'', ''documents'', ''parsed'', ''a'', ''metadata.json''], False) =
     Inr \<lparr>st_mtime = t, st_size = 64\<rparr>"
  by (simp_all add: stat_def demo_world_simps demo_fs_def demo_source_fs_def demo_source_def)

lemma demo_fresh:
  "shouldUseParsedFiles demo_env (demo_world (demo_fs c 150)) ''papers/a.pdf''"
  by (simp add: shouldUseParsedFiles_def shouldUseParsedFiles_try_def demo_paths demo_stat)

lemma demo_stale:
  "\<not> shouldUseParsedFiles demo_env (demo_world (demo_fs c 50)) ''papers/a.pdf''"
  by (simp add: shouldUseParsedFiles_def shouldUseParsedFiles_try_def demo_paths demo_stat)

lemma demo_no_cache:
  "\<not> shouldUseParsedFiles demo_env (demo_world Map.empty) p"
  by (simp add: shouldUseParsedFiles_def shouldUseParsedFiles_try_def stat_def demo_world_def)

lemma demo_source_only:
  "\<not> shouldUseParsedFiles demo_env (demo_world demo_source_fs) ''papers/a.pdf''"
  by (simp add: shouldUseParsedFiles_def shouldUseParsedFiles_try_def stat_def demo_paths
      demo_world_simps demo_source_fs_def)

theorem shouldUseParsedFiles_iff_witness:
  "shouldUseParsedFiles demo_env (demo_world (demo_fs Opaque 150)) ''papers/a.pdf'' \<and>
   \<not> shouldUseParsedFiles demo_env (demo_world (demo_fs Opaque 50)) ''papers/a.pdf'' \<and>
   \<not> shouldUseParsedFiles demo_env (demo_world (demo_fs Opaque 150)) ''papers/a.pdf/'' \<and>
   shouldUseParsedFiles_try demo_env (demo_world Map.empty) ''papers/a.pdf'' = Inl FsError \<and>
   \<not> shouldUseParsedFiles demo_env (demo_world Map.empty) ''papers/a.pdf'' \<and>
   stat (demo_world (demo_fs Opaque 150)) (join (cwd demo_env) [''papers/a.pdf/'']) =
     Inl FsError \<and>
   stat (demo_world (demo_fs Opaque 150)) (join (cwd demo_env) [''papers/a.pdf'']) =
     Inr \<lparr>st_mtime = 100, st_size = 2048\<rparr> \<and>
   stat (demo_world (demo_fs Opaque 150)) (join (cwd demo_env) [''papers/'']) =
     Inr \<lparr>st_mtime = 10, st_size = 4096\<rparr>"
proof -
  let ?w = "demo_world (demo_fs Opaque 150)"
  have slash: "join (cwd demo_env) [''papers/''] = ([''srv'', ''nexus'', ''papers''], True)"
    by (simp add: join_def demo_env_def norm_step_def ends_with_slash_def)
  have node: "fs ?w (fst (join (cwd demo_env) [''papers/a.pdf''])) = Some (RegularFile demo_source)"
    "fs ?w (fst (join (cwd demo_env) [''papers/a.pdf/''])) = Some (RegularFile demo_source)"
    "fs ?w (fst (join (cwd demo_env) [''papers/''])) =
       Some (Directory \<lparr>st_mtime = 10, st_size = 4096\<rparr>)"
    by (simp_all add: demo_paths slash demo_world_simps demo_fs_def demo_source_fs_def
        demo_dir_def)
  have a: "shouldUseParsedFiles demo_env ?w ''papers/a.pdf''"
    using shouldUseParsedFiles_iff
      [where e = demo_env and w = ?w and documentPath = "''papers/a.pdf''"
         and path = "join (cwd demo_env) [''papers/a.pdf'']" and f = demo_source
         and st = "\<lparr>st_mtime = 10, st_size = 4096\<rparr>"]
    by (simp add: demo_paths demo_stat)
  have b: "\<not> shouldUseParsedFiles demo_env (demo_world (demo_fs Opaque 50)) ''papers/a.pdf''"
    using shouldUseParsedFiles_iff
      [where e = demo_env and w = "demo_world (demo_fs Opaque 50)"
         and documentPath = "''papers/a.pdf''"
         and path = "join (cwd demo_env) [''papers/a.pdf'']" and f = demo_source
         and st = "\<lparr>st_mtime = 10, st_size = 4096\<rparr>"]
    by (simp add: demo_paths demo_stat)
  have c: "\<not> shouldUseParsedFiles demo_env ?w ''papers/a.pdf/'' \<and>
      stat ?w (join (cwd demo_env) [''papers/a.pdf/'']) = Inl FsError"
    using shouldUseParsedFiles_iff
      [where e = demo_env and w = ?w and documentPath = "''papers/a.pdf/''"
         and path = "join (cwd demo_env) [''papers/a.pdf/'']" and f = demo_source
         and st = "\<lparr>st_mtime = 10, st_size = 4096\<rparr>"]
    by (simp add: demo_paths demo_stat)
  have d: "shouldUseParsedFiles_try demo_env (demo_world Map.empty) ''papers/a.pdf'' = Inl FsError \<and>
      \<not> shouldUseParsedFiles demo_env (demo_world Map.empty) ''papers/a.pdf''"
    using shouldUseParsedFiles_iff
      [where e = demo_env and w = "demo_world Map.empty" and documentPath = "''papers/a.pdf''"
         and path = "join (cwd demo_env) [''papers/a.pdf'']" and f = demo_source
         and st = "\<lparr>st_mtime = 10, st_size = 4096\<rparr>"]
    by (simp add: demo_paths demo_world_simps shouldUseParsedFiles_try_def stat_def)
  have f: "stat ?w (join (cwd demo_env) [''papers/a.pdf'']) =
      Inr \<lparr>st_mtime = f_mtime demo_source, st_size = f_size demo_source\<rparr>"
    using shouldUseParsedFiles_iff
      [where e = demo_env and w = ?w and documentPath = "''papers/a.pdf''"
         and path = "join (cwd demo_env) [''papers/a.pdf'']" and f = demo_source
         and st = "\<lparr>st_mtime = 10, st_size = 4096\<rparr>"]
      node(1)
    by (simp add: demo_paths)
  have g: "stat ?w (join (cwd demo_env) [''papers/'']) = Inr \<lparr>st_mtime = 10, st_size = 4096\<rparr>"
    using shouldUseParsedFiles_iff
      [where e = demo_env and w = ?w and documentPath = "''papers/''"
         and path = "join (cwd demo_env) [''papers/'']" and f = demo_source
         and st = "\<lparr>st_mtime = 10, st_size = 4096\<rparr>"]
      node(3)
    by blast
  from a b c d f g show ?thesis by (simp add: demo_source_def)
qed

section \<open>What each step leaves alone\<close>

lemma save_mkdir_fails:
  assumes "snd (mkdir e w (parsedDir (getParsedPaths e p))) = Inl err"
  shows "saveParsedDocuments e w p ds = fst (mkdir e w (parsedDir (getParsedPaths e p)))"
  using assms
  by (cases "mkdir e w (parsedDir (getParsedPaths e p))")
    (simp add: saveParsedDocuments_def saveParsedDocuments_try_def)

lemma save_stat_fails:
  assumes "snd (mkdir e w (parsedDir (getParsedPaths e p))) = Inr ()"
    and "stat (fst (mkdir e w (parsedDir (getParsedPaths e p)))) (join (cwd e) [p]) = Inl err"
  shows "saveParsedDocuments e w p ds = fst (mkdir e w (parsedDir (getParsedPaths e p)))"
  using assms
  by (cases "mkdir e w (parsedDir (getParsedPaths e p))")
    (simp add: saveParsedDocuments_def saveParsedDocuments_try_def)

lemma save_writes:
  assumes "snd (mkdir e w (parsedDir (getParsedPaths e p))) = Inr ()"
    and "stat (fst (mkdir e w (parsedDir (getParsedPaths e p)))) (join (cwd e) [p]) = Inr st"
  shows "\<exists>c. saveParsedDocuments e w p ds =
    fst (writeFile e
          (fst (writeFile e (fst (mkdir e w (parsedDir (getParsedPaths e p))))
                  (documentsPath (getParsedPaths e p)) (stringify_documents ds)))
          (metadataPath (getParsedPaths e p)) c)"
  using assms
  by (cases "mkdir e w (parsedDir (getParsedPaths e p))")
    (auto simp: saveParsedDocuments_def saveParsedDocuments_try_def Let_def)

lemma saveParsedDocuments_frame:
  "documentIndices (saveParsedDocuments e w p ds) = documentIndices w"
  "parser_log (saveParsedDocuments e w p ds) = parser_log w"
  "build_log (saveParsedDocuments e w p ds) = build_log w"
  "uuid_next (saveParsedDocuments e w p ds) = uuid_next w"
  "unwritable (saveParsedDocuments e w p ds) = unwritable w"
  "now (saveParsedDocuments e w p ds) = now w"
proof -
  let ?m = "mkdir e w (parsedDir (getParsedPaths e p))"
  have "documentIndices (saveParsedDocuments e w p ds) = documentIndices w \<and>
    parser_log (saveParsedDocuments e w p ds) = parser_log w \<and>
    build_log (saveParsedDocuments e w p ds) = build_log w \<and>
    uuid_next (saveParsedDocuments e w p ds) = uuid_next w \<and>
    unwritable (saveParsedDocuments e w p ds) = unwritable w \<and>
    now (saveParsedDocuments e w p ds) = now w"
  proof (cases "snd ?m")
    case (Inl err)
    then show ?thesis by (simp add: save_mkdir_fails mkdir_frame)
  next
    case (Inr u)
    then have ok: "snd ?m = Inr ()" by simp
    show ?thesis
    proof (cases "stat (fst ?m) (join (cwd e) [p])")
      case (Inl err)
      with ok show ?thesis by (simp add: save_stat_fails mkdir_frame)
    next
      case (Inr st)
      from save_writes [OF ok Inr, of ds] obtain c where
        "saveParsedDocuments e w p ds =
          fst (writeFile e (fst (writeFile e (fst ?m) (documentsPath (getParsedPaths e p))
                  (stringify_documents ds))) (metadataPath (getParsedPaths e p)) c)"
        by blast
      then show ?thesis by (simp add: writeFile_frame mkdir_frame)
    qed
  qed
  then show "documentIndices (saveParsedDocuments e w p ds) = documentIndices w"
    "parser_log (saveParsedDocuments e w p ds) = parser_log w"
    "build_log (saveParsedDocuments e w p ds) = build_log w"
    "uuid_next (saveParsedDocuments e w p ds) = uuid_next w"
    "unwritable (saveParsedDocuments e w p ds) = unwritable w"
    "now (saveParsedDocuments e w p ds) = now w"
    by simp_all
qed

lemma parseAndSaveDocuments_frame:
  "documentIndices (fst (parseAndSaveDocuments e w p)) = documentIndices w"
  "build_log (fst (parseAndSaveDocuments e w p)) = build_log w"
  by (simp_all add: parseAndSaveDocuments_def Let_def saveParsedDocuments_frame
      split: option.splits)

lemma parseAndSaveDocuments_log:
  "parser_log (fst (parseAndSaveDocuments e w p)) =
     parser_log w @
       (case loadJson e (join (cwd e) [p]) of
          Some r \<Rightarrow> [(LoadJson, join (cwd e) [p])]
        | None \<Rightarrow> [(LoadJson, join (cwd e) [p]), (LoadData, join (cwd e) [p])])"
  by (simp add: parseAndSaveDocuments_def Let_def saveParsedDocuments_frame
      split: option.splits)

lemma parseAndSaveDocuments_runs:
  "parse_runs (fst (parseAndSaveDocuments e w p)) = Suc (parse_runs w)"
  by (simp add: parse_runs_def parseAndSaveDocuments_log split: option.splits)

lemma fromDocuments_frame:
  "fs (fst (fromDocuments e w ds)) = fs w"
  "documentIndices (fst (fromDocuments e w ds)) = documentIndices w"
  "parser_log (fst (fromDocuments e w ds)) = parser_log w"
  "build_log (fst (fromDocuments e w ds)) = build_log w @ [ds]"
  "uuid_next (fst (fromDocuments e w ds)) = uuid_next w"
  by (simp_all add: fromDocuments_def Let_def)

lemma fromDocuments_result:
  "snd (fromDocuments e w ds) =
     (if embed_ok e ds then Inr \<lparr>idx_docs = ds, idx_serial = length (build_log w)\<rparr>
      else Inl BuildFailed)"
  by (simp add: fromDocuments_def Let_def)

lemma obtainDocuments_frame:
  "documentIndices (fst (obtainDocuments e w p fresh)) = documentIndices w"
  "build_log (fst (obtainDocuments e w p fresh)) = build_log w"
  by (simp_all add: obtainDocuments_def parseAndSaveDocuments_frame split: sum.splits)

lemma obtainDocuments_runs:
  "parse_runs (fst (obtainDocuments e w p fresh)) \<le> Suc (parse_runs w)"
  by (simp add: obtainDocuments_def parseAndSaveDocuments_runs split: sum.splits)

lemma buildAndRegister_cases:
  "buildAndRegister e w p ds =
     (if ds = [] then (w, Inl EmptyDocument)
      else if embed_ok e ds
        then (w\<lparr>build_log := build_log w @ [ds],
                documentIndices := (documentIndices w)
                  (p \<mapsto> \<lparr>idx_docs = ds, idx_serial = length (build_log w)\<rparr>)\<rparr>, Inr ())
        else (w\<lparr>build_log := build_log w @ [ds]\<rparr>, Inl BuildFailed))"
  by (simp add: buildAndRegister_def fromDocuments_def Let_def)

lemma prepareIndex_alt:
  "prepareIndex e w p =
     (case configureSettings e of
        Inl err \<Rightarrow> (w, Inl err)
      | Inr u \<Rightarrow>
         (case documentIndices w p of
            Some documentIndex \<Rightarrow> (w, Inr ())
          | None \<Rightarrow>
             (case obtainDocuments e w p (shouldUseParsedFiles e w p) of
                (w1, Inl err) \<Rightarrow> (w1, Inl err)
              | (w1, Inr documents) \<Rightarrow> buildAndRegister e w1 p documents)))"
  unfolding prepareIndex_def obtainDocuments_def buildAndRegister_def by (rule refl)

lemma prepareIndex_hit:
  "configureSettings e = Inr () \<Longrightarrow> documentIndices w p = Some h \<Longrightarrow>
   prepareIndex e w p = (w, Inr ())"
  by (simp add: prepareIndex_alt)

lemma prepareIndex_miss:
  "configureSettings e = Inr () \<Longrightarrow> documentIndices w p = None \<Longrightarrow>
   prepareIndex e w p =
     (case snd (obtainDocuments e w p (shouldUseParsedFiles e w p)) of
        Inl err \<Rightarrow> (fst (obtainDocuments e w p (shouldUseParsedFiles e w p)), Inl err)
      | Inr ds \<Rightarrow>
          buildAndRegister e (fst (obtainDocuments e w p (shouldUseParsedFiles e w p))) p ds)"
  by (simp add: prepareIndex_alt split: prod.splits sum.splits)

lemma prepareIndex_config_error:
  "configureSettings e = Inl err \<Longrightarrow> prepareIndex e w p = (w, Inl err)"
  by (simp add: prepareIndex_alt)

lemma prepareIndex_ok_config:
  "prepareIndex e w p = (w1, Inr ()) \<Longrightarrow> configureSettings e = Inr ()"
  by (cases "configureSettings e") (simp_all add: prepareIndex_alt)

lemma prepareIndex_registry:
  assumes "prepareIndex e w p = (w', r)"
  shows "(documentIndices w' = documentIndices w) \<or>
         (r = Inr () \<and> documentIndices w p = None \<and>
          (\<exists>idx. documentIndices w' = (documentIndices w)(p \<mapsto> idx) \<and> idx_docs idx \<noteq> [] \<and>
                 embed_ok e (idx_docs idx) \<and> build_log w' = build_log w @ [idx_docs idx]))"
proof (cases "configureSettings e")
  case (Inl err)
  with assms show ?thesis by (simp add: prepareIndex_config_error)
next
  case (Inr u)
  show ?thesis
  proof (cases "documentIndices w p")
    case (Some h)
    with Inr assms show ?thesis by (simp add: prepareIndex_hit)
  next
    case None
    let ?o = "obtainDocuments e w p (shouldUseParsedFiles e w p)"
    show ?thesis
    proof (cases "snd ?o")
      case (Inl err)
      with Inr None assms show ?thesis
        by (auto simp: prepareIndex_miss obtainDocuments_frame)
    next
      case (Inr ds)
      with \<open>configureSettings e = Inr u\<close> None assms show ?thesis
        by (auto simp: prepareIndex_miss buildAndRegister_cases obtainDocuments_frame
            split: if_splits)
    qed
  qed
qed

section \<open>prepareIndex: documents without content\<close>


lemma json_documents_parser_log [simp]:
  "json_documents e (w\<lparr>parser_log := l\<rparr>) p rs = json_documents e w p rs"
  by (simp add: json_documents_def)

lemma parseAndSaveDocuments_result:
  "snd (parseAndSaveDocuments e w p) =
     (case loadJson e (join (cwd e) [p]) of
        Some rs \<Rightarrow> Inr (json_documents e w p rs)
      | None \<Rightarrow>
          (case loadData e (join (cwd e) [p]) of
             None \<Rightarrow> Inl ParseFailed
           | Some ds \<Rightarrow> Inr ds))"
  by (simp add: parseAndSaveDocuments_def Let_def split: option.splits)

lemma demo_config: "configureSettings demo_env = Inr ()"
  by (simp add: configureSettings_def demo_env_def)

lemma blank_paths:
  "join (cwd demo_env) [''papers/blank.pdf''] =
     ([''srv'', ''nexus'', ''papers'', ''blank.pdf''], False)"
  by (simp add: join_def demo_env_def norm_step_def ends_with_slash_def)

lemma demo_trim:
  "trim ''Abstract'' = ''Abstract''"
  "trim [CHR 0x20, CHR 0xC2, CHR 0xA0, CHR 0xE2, CHR 0x80, CHR 0xA8] = []"
  by (simp_all add: trim_def white_space_def strip_front.simps)

lemma blank_parse:
  "snd (parseAndSaveDocuments demo_env w ''papers/blank.pdf'') = Inr []"
  by (simp add: parseAndSaveDocuments_result blank_paths)
    (simp add: demo_env_def json_documents_def content_pages_def blank_result_def
      demo_page_def page_text_def demo_trim)

lemma content_pages_empty:
  "(content_pages rs = []) =
     list_all (\<lambda>r. case r_pages r of
                       None \<Rightarrow> True
                     | Some ps \<Rightarrow> list_all (\<lambda>pg. trim (page_text pg) = []) ps) rs"
  by (induction rs)
    (auto simp: content_pages_def filter_empty_conv list_all_iff split: option.splits)

lemma json_documents_empty:
  "(json_documents e w p rs = []) = (content_pages rs = [])"
  by (cases "content_pages rs") (simp_all add: json_documents_def)

text \<open>
  C3: when the registry has no index for the document and its segments come out empty,
  from a fresh cache that holds an empty list or from a parse that keeps no page,
  \<open>prepareIndex\<close> fails with \<open>EmptyDocument\<close>, nothing is built and the registry stays
  as it was. The JSON parse keeps no page exactly when every page of every result has
  a text (\<open>text\<close>, or \<open>md\<close> when \<open>text\<close> is empty) that is empty or all white space.
  Whatever the outcome, a failed \<open>prepareIndex\<close> leaves the registry unchanged, and the
  registry changes only by the one entry of a build that succeeded on a non-empty list
  of documents.
\<close>

theorem prepareIndex_empty_document:
  "(configureSettings e = Inr () \<and> documentIndices w p = None \<and>
      shouldUseParsedFiles e w p \<and> loadParsedDocuments e w p = Inr [] \<longrightarrow>
        prepareIndex e w p = (w, Inl EmptyDocument)) \<and>
   (configureSettings e = Inr () \<and> documentIndices w p = None \<and>
      (\<not> shouldUseParsedFiles e w p \<or> (\<exists>err. loadParsedDocuments e w p = Inl err)) \<and>
      snd (parseAndSaveDocuments e w p) = Inr [] \<longrightarrow>
        prepareIndex e w p = (fst (parseAndSaveDocuments e w p), Inl EmptyDocument) \<and>
        documentIndices (fst (prepareIndex e w p)) = documentIndices w \<and>
        build_log (fst (prepareIndex e w p)) = build_log w) \<and>
   (loadJson e (join (cwd e) [p]) = Some rs \<longrightarrow>
      (snd (parseAndSaveDocuments e w p) = Inr []) =
        list_all (\<lambda>r. case r_pages r of
                          None \<Rightarrow> True
                        | Some ps \<Rightarrow> list_all (\<lambda>pg. trim (page_text pg) = []) ps) rs) \<and>
   (\<forall>err. snd (prepareIndex e w p) = Inl err \<longrightarrow>
        documentIndices (fst (prepareIndex e w p)) = documentIndices w) \<and>
   (documentIndices (fst (prepareIndex e w p)) \<noteq> documentIndices w \<longrightarrow>
      snd (prepareIndex e w p) = Inr () \<and>
      (\<exists>idx. documentIndices (fst (prepareIndex e w p)) = (documentIndices w)(p \<mapsto> idx) \<and>
             idx_docs idx \<noteq> [] \<and> embed_ok e (idx_docs idx) \<and>
             build_log (fst (prepareIndex e w p)) = build_log w @ [idx_docs idx]))"
proof (intro conjI impI allI)
  assume "configureSettings e = Inr () \<and> documentIndices w p = None \<and>
      shouldUseParsedFiles e w p \<and> loadParsedDocuments e w p = Inr []"
  then show "prepareIndex e w p = (w, Inl EmptyDocument)"
    by (simp add: prepareIndex_miss obtainDocuments_def buildAndRegister_cases)
next
  assume h: "configureSettings e = Inr () \<and> documentIndices w p = None \<and>
      (\<not> shouldUseParsedFiles e w p \<or> (\<exists>err. loadParsedDocuments e w p = Inl err)) \<and>
      snd (parseAndSaveDocuments e w p) = Inr []"
  then have o: "obtainDocuments e w p (shouldUseParsedFiles e w p) = parseAndSaveDocuments e w p"
    by (auto simp: obtainDocuments_def)
  with h show a: "prepareIndex e w p = (fst (parseAndSaveDocuments e w p), Inl EmptyDocument)"
    by (simp add: prepareIndex_miss buildAndRegister_cases)
  show "documentIndices (fst (prepareIndex e w p)) = documentIndices w"
    by (simp add: a parseAndSaveDocuments_frame)
  show "build_log (fst (prepareIndex e w p)) = build_log w"
    by (simp add: a parseAndSaveDocuments_frame)
next
  assume "loadJson e (join (cwd e) [p]) = Some rs"
  then show "(snd (parseAndSaveDocuments e w p) = Inr []) =
        list_all (\<lambda>r. case r_pages r of
                          None \<Rightarrow> True
                        | Some ps \<Rightarrow> list_all (\<lambda>pg. trim (page_text pg) = []) ps) rs"
    by (simp add: parseAndSaveDocuments_result json_documents_empty content_pages_empty)
next
  fix err assume "snd (prepareIndex e w p) = Inl err"
  then show "documentIndices (fst (prepareIndex e w p)) = documentIndices w"
    using prepareIndex_registry [OF prod.collapse [symmetric], of e w p] by auto
next
  assume "documentIndices (fst (prepareIndex e w p)) \<noteq> documentIndices w"
  then show "snd (prepareIndex e w p) = Inr ()"
    using prepareIndex_registry [OF prod.collapse [symmetric], of e w p] by auto
next
  assume "documentIndices (fst (prepareIndex e w p)) \<noteq> documentIndices w"
  then show "\<exists>idx. documentIndices (fst (prepareIndex e w p)) = (documentIndices w)(p \<mapsto> idx) \<and>
             idx_docs idx \<noteq> [] \<and> embed_ok e (idx_docs idx) \<and>
             build_log (fst (prepareIndex e w p)) = build_log w @ [idx_docs idx]"
    using prepareIndex_registry [OF prod.collapse [symmetric], of e w p] by auto
qed

lemma demo_load_empty:
  "loadParsedDocuments demo_env (demo_world (demo_fs (ParsedDocs []) 150)) ''papers/a.pdf'' = Inr []"
  by (simp add: loadParsedDocuments_def loadParsedDocuments_try_def readFile_def demo_paths
      demo_world_def demo_fs_def parse_documents_def)

lemma demo_blank_missing:
  "\<not> shouldUseParsedFiles demo_env (demo_world demo_source_fs) ''papers/blank.pdf''"
  by (simp add: shouldUseParsedFiles_def shouldUseParsedFiles_try_def stat_def blank_paths
      demo_world_simps demo_source_fs_def)

theorem prepareIndex_empty_document_witness:
  "prepareIndex demo_env (demo_world (demo_fs (ParsedDocs []) 150)) ''papers/a.pdf'' =
     (demo_world (demo_fs (ParsedDocs []) 150), Inl EmptyDocument) \<and>
   snd (parseAndSaveDocuments demo_env (demo_world demo_source_fs) ''papers/blank.pdf'') =
     Inr [] \<and>
   snd (prepareIndex demo_env (demo_world demo_source_fs) ''papers/blank.pdf'') =
     Inl EmptyDocument \<and>
   documentIndices (fst (prepareIndex demo_env (demo_world demo_source_fs)
     ''papers/blank.pdf'')) = Map.empty"
proof -
  let ?w = "demo_world demo_source_fs"
  have json: "loadJson demo_env (join (cwd demo_env) [''papers/blank.pdf'']) =
      Some [blank_result]"
    by (simp add: blank_paths) (simp add: demo_env_def)
  have blank: "list_all (\<lambda>r. case r_pages r of
        None \<Rightarrow> True
      | Some ps \<Rightarrow> list_all (\<lambda>pg. trim (page_text pg) = []) ps) [blank_result]"
    by (simp add: blank_result_def demo_page_def page_text_def demo_trim)
  have "prepareIndex demo_env (demo_world (demo_fs (ParsedDocs []) 150)) ''papers/a.pdf'' =
     (demo_world (demo_fs (ParsedDocs []) 150), Inl EmptyDocument)"
    using prepareIndex_empty_document
      [where e = demo_env and w = "demo_world (demo_fs (ParsedDocs []) 150)"
         and p = "''papers/a.pdf''" and rs = "[]"]
    by (simp add: demo_config demo_load_empty demo_fresh demo_world_simps)
  moreover have parsed: "snd (parseAndSaveDocuments demo_env ?w ''papers/blank.pdf'') = Inr []"
    using prepareIndex_empty_document
      [where e = demo_env and w = ?w and p = "''papers/blank.pdf''" and rs = "[blank_result]"]
      json blank
    by blast
  moreover have "configureSettings demo_env = Inr () \<and>
      documentIndices ?w ''papers/blank.pdf'' = None \<and>
      (\<not> shouldUseParsedFiles demo_env ?w ''papers/blank.pdf'' \<or>
       (\<exists>err. loadParsedDocuments demo_env ?w ''papers/blank.pdf'' = Inl err)) \<and>
      snd (parseAndSaveDocuments demo_env ?w ''papers/blank.pdf'') = Inr []"
    using demo_config demo_blank_missing parsed by (simp add: demo_world_simps)
  then have "prepareIndex demo_env ?w ''papers/blank.pdf'' =
       (fst (parseAndSaveDocuments demo_env ?w ''papers/blank.pdf''), Inl EmptyDocument) \<and>
     documentIndices (fst (prepareIndex demo_env ?w ''papers/blank.pdf'')) =
       documentIndices ?w"
    using prepareIndex_empty_document
      [where e = demo_env and w = ?w and p = "''papers/blank.pdf''" and rs = "[blank_result]"]
    by blast
  ultimately show ?thesis by (simp add: demo_world_simps parseAndSaveDocuments_frame)
qed

section \<open>prepareIndex: two calls in a row\<close>


lemma demo_documents:
  "json_documents demo_env w ''papers/a.pdf'' [demo_result] =
     [page_document ''papers/a.pdf'' demo_result demo_page ''uuid'']"
  by (simp add: json_documents_def content_pages_def demo_result_def demo_page_def
      page_text_def demo_trim demo_env_def)

lemma demo_parse:
  "snd (parseAndSaveDocuments demo_env w ''papers/a.pdf'') =
     Inr [page_document ''papers/a.pdf'' demo_result demo_page ''uuid'']"
  by (simp add: parseAndSaveDocuments_result demo_paths)
    (simp add: demo_env_def demo_documents [unfolded demo_env_def])

lemma demo_embed_ok: "embed_ok demo_env ds"
  by (simp add: demo_env_def)

lemma prepareIndex_parse_runs:
  assumes "configureSettings e = Inr ()" "documentIndices w p = None"
  shows "parse_runs (fst (prepareIndex e w p)) =
     (if shouldUseParsedFiles e w p \<and> (\<exists>ds. loadParsedDocuments e w p = Inr ds)
      then parse_runs w else Suc (parse_runs w))"
proof -
  let ?o = "obtainDocuments e w p (shouldUseParsedFiles e w p)"
  have a: "parse_runs (fst (prepareIndex e w p)) = parse_runs (fst ?o)"
    using assms
    by (cases "snd ?o")
      (simp_all add: prepareIndex_miss buildAndRegister_cases parse_runs_def)
  have "parse_runs (fst ?o) =
     (if shouldUseParsedFiles e w p \<and> (\<exists>ds. loadParsedDocuments e w p = Inr ds)
      then parse_runs w else Suc (parse_runs w))"
    by (cases "loadParsedDocuments e w p")
      (simp_all add: obtainDocuments_def parseAndSaveDocuments_runs)
  with a show ?thesis by simp
qed

text \<open>
  C2: a call of \<open>prepareIndex\<close> that finds an index for the document in the registry
  returns at once and leaves the whole state as it was: nothing is loaded, parsed or
  built, and the registry entry is the handle it was. So of two calls in a row, where
  the first one finds no index and succeeds, the first runs \<open>parseAndSaveDocuments\<close>
  at most once (not at all when a fresh cache loads) and builds exactly one index,
  and the second does nothing.
\<close>

theorem prepareIndex_twice:
  "(configureSettings e = Inr () \<and> documentIndices w p = Some h \<longrightarrow>
      prepareIndex e w p = (w, Inr ())) \<and>
   (documentIndices w p = None \<and> snd (prepareIndex e w p) = Inr () \<longrightarrow>
      prepareIndex e (fst (prepareIndex e w p)) p = (fst (prepareIndex e w p), Inr ()) \<and>
      (\<exists>idx. documentIndices (fst (prepareIndex e w p)) p = Some idx) \<and>
      length (build_log (fst (prepareIndex e w p))) = Suc (length (build_log w)) \<and>
      parse_runs (fst (prepareIndex e w p)) =
        (if shouldUseParsedFiles e w p \<and> (\<exists>ds. loadParsedDocuments e w p = Inr ds)
         then parse_runs w else Suc (parse_runs w)))"
proof (intro conjI impI)
  assume "configureSettings e = Inr () \<and> documentIndices w p = Some h"
  then show "prepareIndex e w p = (w, Inr ())"
    by (simp add: prepareIndex_hit)
next
  assume h: "documentIndices w p = None \<and> snd (prepareIndex e w p) = Inr ()"
  let ?w1 = "fst (prepareIndex e w p)"
  from h have miss: "documentIndices w p = None" and ok: "snd (prepareIndex e w p) = Inr ()"
    by simp_all
  have run: "prepareIndex e w p = (?w1, Inr ())"
    using ok by (simp add: prod_eq_iff)
  have cfg: "configureSettings e = Inr ()"
    using run by (rule prepareIndex_ok_config)
  have reg: "documentIndices ?w1 = documentIndices w \<or>
      (\<exists>idx. documentIndices ?w1 = (documentIndices w)(p \<mapsto> idx) \<and> idx_docs idx \<noteq> [] \<and>
             embed_ok e (idx_docs idx) \<and> build_log ?w1 = build_log w @ [idx_docs idx])"
    using prepareIndex_registry [OF run] by auto
  have built: "\<exists>idx. documentIndices ?w1 = (documentIndices w)(p \<mapsto> idx) \<and>
      build_log ?w1 = build_log w @ [idx_docs idx]"
  proof (cases "snd (obtainDocuments e w p (shouldUseParsedFiles e w p))")
    case (Inl err)
    with cfg miss ok show ?thesis by (simp add: prepareIndex_miss)
  next
    case (Inr ds)
    with cfg miss ok show ?thesis
      by (auto simp: prepareIndex_miss buildAndRegister_cases obtainDocuments_frame
          split: if_splits)
  qed
  then show entry: "\<exists>idx. documentIndices ?w1 p = Some idx" by auto
  then show "prepareIndex e ?w1 p = (?w1, Inr ())"
    using cfg by (auto simp: prepareIndex_hit)
  from built show "length (build_log ?w1) = Suc (length (build_log w))" by auto
  from cfg miss show "parse_runs ?w1 =
        (if shouldUseParsedFiles e w p \<and> (\<exists>ds. loadParsedDocuments e w p = Inr ds)
         then parse_runs w else Suc (parse_runs w))"
    by (simp add: prepareIndex_parse_runs)
qed

lemma demo_prepare_ok:
  "\<not> shouldUseParsedFiles demo_env (demo_world f) ''papers/a.pdf'' \<Longrightarrow>
   snd (prepareIndex demo_env (demo_world f) ''papers/a.pdf'') = Inr ()"
  by (simp add: prepareIndex_miss demo_config demo_world_simps obtainDocuments_def demo_parse
      buildAndRegister_cases demo_embed_ok)

theorem prepareIndex_twice_witness:
  "prepareIndex demo_env
     (fst (prepareIndex demo_env
        (demo_world demo_source_fs)
        ''papers/a.pdf'')) ''papers/a.pdf'' =
     (fst (prepareIndex demo_env
        (demo_world demo_source_fs)
        ''papers/a.pdf''), Inr ()) \<and>
   length (build_log (fst (prepareIndex demo_env
        (demo_world demo_source_fs)
        ''papers/a.pdf''))) = 1 \<and>
   parse_runs (fst (prepareIndex demo_env
        (demo_world demo_source_fs)
        ''papers/a.pdf'')) = 1"
  using prepareIndex_twice
    [of demo_env "demo_world demo_source_fs"
      "''papers/a.pdf''"]
    demo_prepare_ok [OF demo_source_only] demo_source_only
  by (simp add: demo_world_simps parse_runs_def)

section \<open>getIndex: rebuilding from the cache\<close>


lemma shouldUseParsedFiles_fs:
  assumes "fs w' = fs w"
  shows "shouldUseParsedFiles e w' p = shouldUseParsedFiles e w p"
proof -
  have eq: "stat w' = stat w" using assms by (rule stat_fs)
  show ?thesis
    unfolding shouldUseParsedFiles_def shouldUseParsedFiles_try_def eq by (rule refl)
qed

lemma loadParsedDocuments_fs:
  assumes "fs w' = fs w"
  shows "loadParsedDocuments e w' p = loadParsedDocuments e w p"
proof -
  have eq: "readFile w' = readFile w" using assms by (rule readFile_fs)
  show ?thesis
    unfolding loadParsedDocuments_def loadParsedDocuments_try_def eq by (rule refl)
qed

lemma clearIndices_frame:
  "fs (clearIndices w ps) = fs w"
  "parser_log (clearIndices w ps) = parser_log w"
  "build_log (clearIndices w ps) = build_log w"
  unfolding clearIndices_def by (induction ps arbitrary: w; simp)+

lemma clearIndices_registry:
  "documentIndices (clearIndices w ps) q = (if q \<in> set ps then None else documentIndices w q)"
  unfolding clearIndices_def
  by (induction ps arbitrary: w) (auto simp: hasIndex_def)

lemma getIndex_try_cases:
  "getIndex_try e w p =
     (case loadParsedDocuments e w p of
        Inl err \<Rightarrow> (w, Inl err)
      | Inr ds \<Rightarrow>
          if ds = [] then (w, Inr None)
          else (case configureSettings e of
                  Inl err \<Rightarrow> (w, Inl err)
                | Inr u \<Rightarrow>
                    if embed_ok e ds
                    then (w\<lparr>build_log := build_log w @ [ds],
                            documentIndices := (documentIndices w)
                              (p \<mapsto> \<lparr>idx_docs = ds, idx_serial = length (build_log w)\<rparr>)\<rparr>,
                          Inr (Some \<lparr>idx_docs = ds, idx_serial = length (build_log w)\<rparr>))
                    else (w\<lparr>build_log := build_log w @ [ds]\<rparr>, Inl BuildFailed)))"
  by (simp add: getIndex_try_def fromDocuments_def Let_def split: sum.splits)

lemma getIndex_miss:
  "documentIndices w p = None \<Longrightarrow>
   getIndex e w p =
     (if \<not> shouldUseParsedFiles e w p then (w, Inr None)
      else (case loadParsedDocuments e w p of
              Inl err \<Rightarrow> (w, Inr None)
            | Inr ds \<Rightarrow>
                if ds = [] then (w, Inr None)
                else (case configureSettings e of
                        Inl err \<Rightarrow> (w, Inr None)
                      | Inr u \<Rightarrow>
                          if embed_ok e ds
                          then (w\<lparr>build_log := build_log w @ [ds],
                                  documentIndices := (documentIndices w)
                                    (p \<mapsto> \<lparr>idx_docs = ds, idx_serial = length (build_log w)\<rparr>)\<rparr>,
                                Inr (Some \<lparr>idx_docs = ds, idx_serial = length (build_log w)\<rparr>))
                          else (w\<lparr>build_log := build_log w @ [ds]\<rparr>, Inr None))))"
  by (simp add: getIndex_def getIndex_try_cases split: sum.splits)

lemma getIndex_hit:
  "documentIndices w p = Some idx \<Longrightarrow> getIndex e w p = (w, Inr (Some idx))"
  by (simp add: getIndex_def)

lemma getIndex_frame:
  "parser_log (fst (getIndex e w p)) = parser_log w"
  "fs (fst (getIndex e w p)) = fs w"
  by (cases "documentIndices w p"; simp add: getIndex_miss getIndex_hit split: sum.splits)+

lemma getIndex_returns: "\<exists>r. snd (getIndex e w p) = Inr r"
  by (cases "documentIndices w p"; simp add: getIndex_miss getIndex_hit split: sum.splits)


lemma getIndex_absent:
  assumes miss: "documentIndices w p = None"
    and h: "\<not> shouldUseParsedFiles e w p \<or> (\<exists>err. loadParsedDocuments e w p = Inl err) \<or>
       loadParsedDocuments e w p = Inr [] \<or> (\<exists>err. configureSettings e = Inl err) \<or>
       (\<exists>ds. loadParsedDocuments e w p = Inr ds \<and> \<not> embed_ok e ds)"
  shows "snd (getIndex e w p) = Inr None \<and>
      documentIndices (fst (getIndex e w p)) = documentIndices w"
proof (cases "shouldUseParsedFiles e w p")
  case False
  then show ?thesis by (simp add: getIndex_miss [OF miss])
next
  case True
  note fresh = this
  show ?thesis
  proof (cases "loadParsedDocuments e w p")
    case (Inl err)
    then show ?thesis by (simp add: getIndex_miss [OF miss])
  next
    case (Inr ds)
    note load = this
    show ?thesis
    proof (cases "ds = []")
      case True
      with load show ?thesis by (simp add: getIndex_miss [OF miss])
    next
      case False
      note nonempty = this
      show ?thesis
      proof (cases "configureSettings e")
        case (Inl err)
        with load show ?thesis by (simp add: getIndex_miss [OF miss])
      next
        case (Inr u)
        with h fresh load nonempty have "\<not> embed_ok e ds" by simp
        with load Inr show ?thesis by (simp add: getIndex_miss [OF miss])
      qed
    qed
  qed
qed

lemma getIndex_present:
  assumes "documentIndices w p = None" "shouldUseParsedFiles e w p"
    "loadParsedDocuments e w p = Inr ds" "ds \<noteq> []" "configureSettings e = Inr ()"
    "embed_ok e ds"
  shows "getIndex e w p =
     (w\<lparr>build_log := build_log w @ [ds],
        documentIndices := (documentIndices w)
          (p \<mapsto> \<lparr>idx_docs = ds, idx_serial = length (build_log w)\<rparr>)\<rparr>,
      Inr (Some \<lparr>idx_docs = ds, idx_serial = length (build_log w)\<rparr>))"
  using assms by (simp add: getIndex_miss)

lemma getIndex_some:
  assumes miss: "documentIndices w p = None"
    and some: "snd (getIndex e w p) = Inr (Some idx)"
  shows "shouldUseParsedFiles e w p \<and> loadParsedDocuments e w p = Inr (idx_docs idx) \<and>
    idx_docs idx \<noteq> []"
proof (cases "shouldUseParsedFiles e w p")
  case False
  with some show ?thesis by (simp add: getIndex_miss [OF miss])
next
  case True
  note fresh = this
  show ?thesis
  proof (cases "loadParsedDocuments e w p")
    case (Inl err)
    with some fresh show ?thesis by (simp add: getIndex_miss [OF miss])
  next
    case (Inr ds)
    note load = this
    show ?thesis
    proof (cases "ds = [] \<or> \<not> embed_ok e ds \<or> (\<exists>err. configureSettings e = Inl err)")
      case True
      then have "snd (getIndex e w p) = Inr None"
        using getIndex_absent [OF miss, of e] load by auto
      with some show ?thesis by simp
    next
      case False
      then have "ds \<noteq> []" "configureSettings e = Inr ()" "embed_ok e ds"
        by (cases "configureSettings e"; simp)+
      from getIndex_present [OF miss fresh load this] some
      have "idx = \<lparr>idx_docs = ds, idx_serial = length (build_log w)\<rparr>" by simp
      with fresh load \<open>ds \<noteq> []\<close> show ?thesis by simp
    qed
  qed
qed

text \<open>
  C4: \<open>getIndex\<close> never calls the parser, never writes a file and never throws. For a
  document without an index in the registry it answers absent, with the registry as it
  was, when the cache is not fresh, does not load, holds no document, or the settings
  or the build fail; otherwise it builds an index from the documents loaded from the
  cache, stores it in the registry and returns it. An index it returns for such a
  document is always built from the fresh cache. After \<open>clearIndices\<close> the cleared
  documents have no index, the files and the other entries are as before, and
  \<open>getIndex\<close> rebuilds from the cache in this way.
\<close>

theorem getIndex_rebuilds_from_cache:
  "parser_log (fst (getIndex e w p)) = parser_log w \<and>
   fs (fst (getIndex e w p)) = fs w \<and>
   (\<exists>r. snd (getIndex e w p) = Inr r) \<and>
   (documentIndices w p = None \<and>
      (\<not> shouldUseParsedFiles e w p \<or> (\<exists>err. loadParsedDocuments e w p = Inl err) \<or>
       loadParsedDocuments e w p = Inr [] \<or> (\<exists>err. configureSettings e = Inl err) \<or>
       (\<exists>ds. loadParsedDocuments e w p = Inr ds \<and> \<not> embed_ok e ds)) \<longrightarrow>
        snd (getIndex e w p) = Inr None \<and>
        documentIndices (fst (getIndex e w p)) = documentIndices w) \<and>
   (documentIndices w p = None \<and> shouldUseParsedFiles e w p \<and>
      loadParsedDocuments e w p = Inr ds \<and> ds \<noteq> [] \<and> configureSettings e = Inr () \<and>
      embed_ok e ds \<longrightarrow>
        snd (getIndex e w p) = Inr (Some \<lparr>idx_docs = ds, idx_serial = length (build_log w)\<rparr>) \<and>
        documentIndices (fst (getIndex e w p)) =
          (documentIndices w)(p \<mapsto> \<lparr>idx_docs = ds, idx_serial = length (build_log w)\<rparr>) \<and>
        build_log (fst (getIndex e w p)) = build_log w @ [ds]) \<and>
   (documentIndices w p = None \<and> snd (getIndex e w p) = Inr (Some idx) \<longrightarrow>
        shouldUseParsedFiles e w p \<and> loadParsedDocuments e w p = Inr (idx_docs idx) \<and>
        idx_docs idx \<noteq> []) \<and>
   (p \<in> set ps \<longrightarrow>
        \<not> hasIndex (clearIndices w ps) p \<and>
        fs (clearIndices w ps) = fs w \<and>
        (\<forall>q. q \<notin> set ps \<longrightarrow> documentIndices (clearIndices w ps) q = documentIndices w q) \<and>
        shouldUseParsedFiles e (clearIndices w ps) p = shouldUseParsedFiles e w p \<and>
        loadParsedDocuments e (clearIndices w ps) p = loadParsedDocuments e w p)"
proof (intro conjI impI)
  show "parser_log (fst (getIndex e w p)) = parser_log w" "fs (fst (getIndex e w p)) = fs w"
    by (simp_all add: getIndex_frame)
  show "\<exists>r. snd (getIndex e w p) = Inr r" by (rule getIndex_returns)
next
  assume h: "documentIndices w p = None \<and>
      (\<not> shouldUseParsedFiles e w p \<or> (\<exists>err. loadParsedDocuments e w p = Inl err) \<or>
       loadParsedDocuments e w p = Inr [] \<or> (\<exists>err. configureSettings e = Inl err) \<or>
       (\<exists>ds. loadParsedDocuments e w p = Inr ds \<and> \<not> embed_ok e ds))"
  have "snd (getIndex e w p) = Inr None \<and>
      documentIndices (fst (getIndex e w p)) = documentIndices w"
    by (rule getIndex_absent [OF conjunct1 [OF h] conjunct2 [OF h]])
  then show "snd (getIndex e w p) = Inr None"
    "documentIndices (fst (getIndex e w p)) = documentIndices w"
    by simp_all
next
  assume h: "documentIndices w p = None \<and> shouldUseParsedFiles e w p \<and>
      loadParsedDocuments e w p = Inr ds \<and> ds \<noteq> [] \<and> configureSettings e = Inr () \<and>
      embed_ok e ds"
  then have "getIndex e w p =
     (w\<lparr>build_log := build_log w @ [ds],
        documentIndices := (documentIndices w)
          (p \<mapsto> \<lparr>idx_docs = ds, idx_serial = length (build_log w)\<rparr>)\<rparr>,
      Inr (Some \<lparr>idx_docs = ds, idx_serial = length (build_log w)\<rparr>))"
    by (intro getIndex_present) simp_all
  then show
    "snd (getIndex e w p) = Inr (Some \<lparr>idx_docs = ds, idx_serial = length (build_log w)\<rparr>)"
    "documentIndices (fst (getIndex e w p)) =
          (documentIndices w)(p \<mapsto> \<lparr>idx_docs = ds, idx_serial = length (build_log w)\<rparr>)"
    "build_log (fst (getIndex e w p)) = build_log w @ [ds]"
    by simp_all
next
  assume h: "documentIndices w p = None \<and> snd (getIndex e w p) = Inr (Some idx)"
  have "shouldUseParsedFiles e w p \<and> loadParsedDocuments e w p = Inr (idx_docs idx) \<and>
    idx_docs idx \<noteq> []"
    by (rule getIndex_some [OF conjunct1 [OF h] conjunct2 [OF h]])
  then show "shouldUseParsedFiles e w p" "loadParsedDocuments e w p = Inr (idx_docs idx)"
    "idx_docs idx \<noteq> []"
    by simp_all
next
  assume "p \<in> set ps"
  then show "\<not> hasIndex (clearIndices w ps) p"
    by (simp add: hasIndex_def clearIndices_registry)
  show "fs (clearIndices w ps) = fs w" by (simp add: clearIndices_frame)
  show "\<forall>q. q \<notin> set ps \<longrightarrow> documentIndices (clearIndices w ps) q = documentIndices w q"
    by (simp add: clearIndices_registry)
  show "shouldUseParsedFiles e (clearIndices w ps) p = shouldUseParsedFiles e w p"
    by (rule shouldUseParsedFiles_fs) (simp add: clearIndices_frame)
  show "loadParsedDocuments e (clearIndices w ps) p = loadParsedDocuments e w p"
    by (rule loadParsedDocuments_fs) (simp add: clearIndices_frame)
qed

lemma demo_load:
  "loadParsedDocuments demo_env (demo_world (demo_fs (ParsedDocs [demo_stored]) t)) ''papers/a.pdf'' =
     Inr [to_document demo_stored]"
  by (simp add: loadParsedDocuments_def loadParsedDocuments_try_def readFile_def demo_paths
      demo_world_simps demo_fs_def parse_documents_def)

theorem getIndex_rebuilds_from_cache_witness:
  "snd (getIndex demo_env
         (clearIndices (demo_world (demo_fs (ParsedDocs [demo_stored]) 150)) [''papers/a.pdf''])
         ''papers/a.pdf'') =
     Inr (Some \<lparr>idx_docs = [to_document demo_stored], idx_serial = 0\<rparr>) \<and>
   parser_log (fst (getIndex demo_env
         (clearIndices (demo_world (demo_fs (ParsedDocs [demo_stored]) 150)) [''papers/a.pdf''])
         ''papers/a.pdf'')) = [] \<and>
   getIndex demo_env (demo_world (demo_fs (ParsedDocs [demo_stored]) 50)) ''papers/a.pdf'' =
     (demo_world (demo_fs (ParsedDocs [demo_stored]) 50), Inr None)"
proof -
  let ?w = "demo_world (demo_fs (ParsedDocs [demo_stored]) 150)"
  let ?c = "clearIndices ?w [''papers/a.pdf'']"
  let ?s = "demo_world (demo_fs (ParsedDocs [demo_stored]) 50)"
  have clear: "\<not> hasIndex ?c ''papers/a.pdf'' \<and>
      shouldUseParsedFiles demo_env ?c ''papers/a.pdf'' \<and>
      loadParsedDocuments demo_env ?c ''papers/a.pdf'' = Inr [to_document demo_stored]"
    using getIndex_rebuilds_from_cache
      [where e = demo_env and w = ?w and p = "''papers/a.pdf''" and ps = "[''papers/a.pdf'']"
         and ds = "[]" and idx = "\<lparr>idx_docs = [], idx_serial = 0\<rparr>"]
    by (simp add: demo_fresh demo_load)
  have "snd (getIndex demo_env ?c ''papers/a.pdf'') =
      Inr (Some \<lparr>idx_docs = [to_document demo_stored], idx_serial = length (build_log ?c)\<rparr>) \<and>
    parser_log (fst (getIndex demo_env ?c ''papers/a.pdf'')) = parser_log ?c"
    using getIndex_rebuilds_from_cache
      [where e = demo_env and w = ?c and p = "''papers/a.pdf''" and ps = "[]"
         and ds = "[to_document demo_stored]" and idx = "\<lparr>idx_docs = [], idx_serial = 0\<rparr>"]
      clear
    by (simp add: hasIndex_def demo_config demo_embed_ok)
  moreover have "snd (getIndex demo_env ?s ''papers/a.pdf'') = Inr None \<and>
      documentIndices (fst (getIndex demo_env ?s ''papers/a.pdf'')) = documentIndices ?s"
    using getIndex_rebuilds_from_cache
      [where e = demo_env and w = ?s and p = "''papers/a.pdf''" and ps = "[]"
         and ds = "[]" and idx = "\<lparr>idx_docs = [], idx_serial = 0\<rparr>"]
    by (simp add: demo_stale demo_world_simps)
  moreover have "getIndex demo_env ?s ''papers/a.pdf'' = (?s, Inr None)"
    by (simp add: getIndex_def demo_stale demo_world_simps)
  ultimately show ?thesis
    by (simp add: clearIndices_frame demo_world_simps)
qed
section \<open>Saving and loading the parse cache\<close>

lemma json_clean_defined: "json_clean v \<Longrightarrow> v \<noteq> JUndefined"
  by auto

lemma jsonify_clean: "json_clean v \<Longrightarrow> jsonify v = v"
proof (induction v rule: jsonify.induct)
  case (1 xs)
  have "(if x = JUndefined then JNull else jsonify x) = x" if "x \<in> set xs" for x
  proof -
    from that "1.prems" have c: "json_clean x" by (simp add: list_all_iff)
    then have "x \<noteq> JUndefined" by (rule json_clean_defined)
    with "1.IH" that c show ?thesis by simp
  qed
  then show ?case by (simp add: map_idI)
next
  case (2 kvs)
  have clean: "json_clean (snd kv)" if "kv \<in> set kvs" for kv
    using that "2.prems" by (simp add: list_all_iff)
  then have keep: "filter (\<lambda>kv. snd kv \<noteq> JUndefined) kvs = kvs"
    by (simp add: filter_id_conv json_clean_defined)
  have "(fst kv, jsonify (snd kv)) = kv" if "kv \<in> set kvs" for kv
    using "2.IH" [of kv] that clean [OF that] by (simp add: keep)
  then show ?case by (simp add: keep map_idI)
qed simp_all

lemma jsonify_object_clean:
  "list_all (\<lambda>kv. json_clean (snd kv)) m \<Longrightarrow> jsonify_object m = m"
proof -
  assume "list_all (\<lambda>kv. json_clean (snd kv)) m"
  then have "json_clean (JObj m)" by simp
  then have "jsonify (JObj m) = JObj m" by (rule jsonify_clean)
  then show ?thesis by (simp add: jsonify_object_def)
qed

lemma load_stringified:
  assumes "fs w (fst (documentsPath (getParsedPaths e p))) =
    Some (RegularFile \<lparr>f_content = stringify_documents docs, f_mtime = t, f_size = n\<rparr>)"
  shows "loadParsedDocuments e w p =
    Inr (map (\<lambda>d. d\<lparr>metadata := jsonify_object (metadata d)\<rparr>) docs)"
proof -
  have "readFile w (documentsPath (getParsedPaths e p)) = Inr (stringify_documents docs)"
    using assms by (simp add: readFile_def documentsPath_eq)
  then show ?thesis
    by (simp add: loadParsedDocuments_def loadParsedDocuments_try_def
        stringify_documents_def parse_documents_def to_document_def comp_def)
qed

lemma load_missing:
  assumes "fs w (fst (documentsPath (getParsedPaths e p))) = None"
  shows "loadParsedDocuments e w p = Inl LoadFailed"
  using assms by (simp add: loadParsedDocuments_def loadParsedDocuments_try_def readFile_def)

lemma load_same_fileName:
  "fileName_of q = fileName_of p \<Longrightarrow> loadParsedDocuments e w q = loadParsedDocuments e w p"
  by (simp add: loadParsedDocuments_def loadParsedDocuments_try_def
      same_fileName_same_paths [of q p])

lemma not_prefix_snoc: "\<not> prefix (xs @ [x]) xs"
  by (auto dest: prefix_length_le)

lemma save_writes_documents:
  assumes src: "stat w (join (cwd e) [p]) = Inr s"
    and mk: "snd (mkdir e w (parsedDir (getParsedPaths e p))) = Inr ()"
    and nd: "\<not> is_directory (fs w (fst (documentsPath (getParsedPaths e p))))"
    and wr: "\<not> unwritable w (fst (documentsPath (getParsedPaths e p)))"
  shows "fs (saveParsedDocuments e w p docs) (fst (documentsPath (getParsedPaths e p))) =
    Some (RegularFile \<lparr>f_content = stringify_documents docs, f_mtime = now w,
          f_size = text_size e (stringify_documents docs)\<rparr>)"
proof -
  let ?pp = "getParsedPaths e p"
  let ?w1 = "fst (mkdir e w (parsedDir ?pp))"
  let ?d = "fst (parsedDir ?pp)"
  let ?c = "stringify_documents docs"
  let ?w2 = "fst (writeFile e ?w1 (documentsPath ?pp) ?c)"
  from mkdir_stat [OF src] obtain st where st: "stat ?w1 (join (cwd e) [p]) = Inr st"
    by blast
  from save_writes [OF mk st, of docs] obtain c where
    save: "saveParsedDocuments e w p docs = fst (writeFile e ?w2 (metadataPath ?pp) c)"
    by blast
  have "?d \<noteq> []"
    by (simp add: parsedDir_eq cache_dir_def)
  then have dir: "is_directory (fs ?w1 ?d)"
    using mk by (rule mkdir_ok)
  have same: "fs ?w1 (?d @ [''documents.json'']) = fs w (?d @ [''documents.json''])"
    by (rule mkdir_other) (rule not_prefix_snoc)
  have "fs ?w2 (fst (documentsPath ?pp)) =
      Some (RegularFile \<lparr>f_content = ?c, f_mtime = now ?w1, f_size = text_size e ?c\<rparr>)"
    using dir same nd wr
    by (intro writeFile_written) (simp_all add: documentsPath_eq mkdir_frame)
  moreover have "fs (fst (writeFile e ?w2 (metadataPath ?pp) c)) (fst (documentsPath ?pp)) =
      fs ?w2 (fst (documentsPath ?pp))"
    by (rule writeFile_other) (simp_all add: documentsPath_eq metadataPath_eq)
  ultimately show ?thesis
    by (simp add: save mkdir_frame)
qed

lemma save_then_load:
  assumes "stat w (join (cwd e) [p]) = Inr s"
    and "snd (mkdir e w (parsedDir (getParsedPaths e p))) = Inr ()"
    and "\<not> is_directory (fs w (fst (documentsPath (getParsedPaths e p))))"
    and "\<not> unwritable w (fst (documentsPath (getParsedPaths e p)))"
  shows "loadParsedDocuments e (saveParsedDocuments e w p docs) p =
    Inr (map (\<lambda>d. d\<lparr>metadata := jsonify_object (metadata d)\<rparr>) docs)"
  by (rule load_stringified) (rule save_writes_documents [OF assms])

lemma save_fails_early:
  assumes "(\<exists>err. snd (mkdir e w (parsedDir (getParsedPaths e p))) = Inl err) \<or>
    (\<exists>err. stat (fst (mkdir e w (parsedDir (getParsedPaths e p)))) (join (cwd e) [p]) = Inl err)"
  shows "saveParsedDocuments e w p docs = fst (mkdir e w (parsedDir (getParsedPaths e p)))"
proof (cases "snd (mkdir e w (parsedDir (getParsedPaths e p)))")
  case (Inl err)
  then show ?thesis by (rule save_mkdir_fails)
next
  case (Inr u)
  with assms obtain err where
    "stat (fst (mkdir e w (parsedDir (getParsedPaths e p)))) (join (cwd e) [p]) = Inl err"
    by auto
  with Inr show ?thesis by (intro save_stat_fails) simp_all
qed

lemma save_other:
  assumes "\<not> prefix q (fst (documentsPath (getParsedPaths e p)))"
    and "\<not> prefix q (fst (metadataPath (getParsedPaths e p)))"
  shows "fs (saveParsedDocuments e w p docs) q = fs w q"
proof -
  let ?pp = "getParsedPaths e p"
  let ?m = "mkdir e w (parsedDir ?pp)"
  let ?d = "fst (parsedDir ?pp)"
  from assms have nd: "\<not> prefix q ?d" "q \<noteq> ?d" "q \<noteq> fst (documentsPath ?pp)"
    "q \<noteq> fst (metadataPath ?pp)"
    by (auto simp: documentsPath_eq)
  have m: "fs (fst ?m) q = fs w q"
    using nd(1) by (rule mkdir_other)
  show ?thesis
  proof (cases "(\<exists>err. snd ?m = Inl err) \<or> (\<exists>err. stat (fst ?m) (join (cwd e) [p]) = Inl err)")
    case True
    then show ?thesis by (simp add: save_fails_early m)
  next
    case False
    then have ok: "snd ?m = Inr ()"
      by (cases "snd ?m") simp_all
    from False obtain st where st: "stat (fst ?m) (join (cwd e) [p]) = Inr st"
      by (cases "stat (fst ?m) (join (cwd e) [p])") auto
    from save_writes [OF ok st, of docs] obtain c where
      save: "saveParsedDocuments e w p docs =
        fst (writeFile e (fst (writeFile e (fst ?m) (documentsPath ?pp)
               (stringify_documents docs))) (metadataPath ?pp) c)"
      by blast
    have "fs (saveParsedDocuments e w p docs) q =
        fs (fst (writeFile e (fst ?m) (documentsPath ?pp) (stringify_documents docs))) q"
      unfolding save using nd by (intro writeFile_other) (simp_all add: metadataPath_eq)
    also have "\<dots> = fs (fst ?m) q"
      using nd by (intro writeFile_other) (simp_all add: documentsPath_eq)
    finally show ?thesis by (simp add: m)
  qed
qed

lemma mkdir_readFile: "readFile (fst (mkdir e w p)) = readFile w"
proof
  fix q
  show "readFile (fst (mkdir e w p)) q = readFile w q"
  proof (cases "\<exists>f. fs w (fst q) = Some (RegularFile f)")
    case True
    then obtain f where f: "fs w (fst q) = Some (RegularFile f)" by blast
    then have "fs (fst (mkdir e w p)) (fst q) = Some (RegularFile f)"
      by (simp add: mkdir_kind)
    with f show ?thesis by (simp add: readFile_def)
  next
    case False
    then have "\<nexists>f. fs (fst (mkdir e w p)) (fst q) = Some (RegularFile f)"
      by (simp add: mkdir_kind)
    with False show ?thesis
      by (auto simp: readFile_def split: option.splits fsnode.splits)
  qed
qed

lemma mkdir_load:
  "loadParsedDocuments e (fst (mkdir e w p)) q = loadParsedDocuments e w q"
  unfolding loadParsedDocuments_def loadParsedDocuments_try_def mkdir_readFile by (rule refl)

lemma clean_documents_unchanged:
  assumes "list_all (\<lambda>d. list_all (\<lambda>kv. json_clean (snd kv)) (metadata d)) docs"
  shows "map (\<lambda>d. d\<lparr>metadata := jsonify_object (metadata d)\<rparr>) docs = docs"
  using assms by (induction docs) (simp_all add: jsonify_object_clean)

text \<open>
  C8, as the code has it: when the source of the document can be stat'ed, the cache
  directory can be made, and \<open>documents.json\<close> is not a directory and does not refuse
  the write, the documents loaded after a save are the saved ones with the same \<open>id_\<close>
  and \<open>text\<close> and with the metadata as \<open>JSON.stringify\<close> wrote it, that is, without the
  properties whose value is \<open>undefined\<close>; they are the saved documents themselves when
  no metadata holds \<open>undefined\<close>. When the directory cannot be made, or the source
  cannot be stat'ed after that, the save stops there: it may have made directories, it
  has written or changed no regular file, and every load gives what it gave before.
\<close>

theorem save_load_roundtrip:
  "((\<exists>s. stat w (join (cwd e) [p]) = Inr s) \<and>
    snd (mkdir e w (parsedDir (getParsedPaths e p))) = Inr () \<and>
    \<not> is_directory (fs w (fst (documentsPath (getParsedPaths e p)))) \<and>
    \<not> unwritable w (fst (documentsPath (getParsedPaths e p))) \<longrightarrow>
      loadParsedDocuments e (saveParsedDocuments e w p docs) p =
        Inr (map (\<lambda>d. d\<lparr>metadata := jsonify_object (metadata d)\<rparr>) docs) \<and>
      (list_all (\<lambda>d. list_all (\<lambda>kv. json_clean (snd kv)) (metadata d)) docs \<longrightarrow>
         loadParsedDocuments e (saveParsedDocuments e w p docs) p = Inr docs)) \<and>
   ((\<exists>err. snd (mkdir e w (parsedDir (getParsedPaths e p))) = Inl err) \<or>
    (\<exists>err. stat (fst (mkdir e w (parsedDir (getParsedPaths e p)))) (join (cwd e) [p]) =
       Inl err) \<longrightarrow>
      saveParsedDocuments e w p docs = fst (mkdir e w (parsedDir (getParsedPaths e p))) \<and>
      (\<forall>q f. (fs (saveParsedDocuments e w p docs) q = Some (RegularFile f)) =
             (fs w q = Some (RegularFile f))) \<and>
      (\<forall>q. loadParsedDocuments e (saveParsedDocuments e w p docs) q =
           loadParsedDocuments e w q))"
proof (intro conjI impI allI)
  assume h: "(\<exists>s. stat w (join (cwd e) [p]) = Inr s) \<and>
    snd (mkdir e w (parsedDir (getParsedPaths e p))) = Inr () \<and>
    \<not> is_directory (fs w (fst (documentsPath (getParsedPaths e p)))) \<and>
    \<not> unwritable w (fst (documentsPath (getParsedPaths e p)))"
  then obtain s where "stat w (join (cwd e) [p]) = Inr s" by auto
  with h show loaded: "loadParsedDocuments e (saveParsedDocuments e w p docs) p =
        Inr (map (\<lambda>d. d\<lparr>metadata := jsonify_object (metadata d)\<rparr>) docs)"
    by (intro save_then_load) simp_all
  assume "list_all (\<lambda>d. list_all (\<lambda>kv. json_clean (snd kv)) (metadata d)) docs"
  then show "loadParsedDocuments e (saveParsedDocuments e w p docs) p = Inr docs"
    by (simp add: loaded clean_documents_unchanged)
next
  assume h: "(\<exists>err. snd (mkdir e w (parsedDir (getParsedPaths e p))) = Inl err) \<or>
    (\<exists>err. stat (fst (mkdir e w (parsedDir (getParsedPaths e p)))) (join (cwd e) [p]) =
       Inl err)"
  then show early: "saveParsedDocuments e w p docs =
      fst (mkdir e w (parsedDir (getParsedPaths e p)))"
    by (rule save_fails_early)
  fix q f
  show "(fs (saveParsedDocuments e w p docs) q = Some (RegularFile f)) =
      (fs w q = Some (RegularFile f))"
    unfolding early by (rule mkdir_kind)
next
  assume h: "(\<exists>err. snd (mkdir e w (parsedDir (getParsedPaths e p))) = Inl err) \<or>
    (\<exists>err. stat (fst (mkdir e w (parsedDir (getParsedPaths e p)))) (join (cwd e) [p]) =
       Inl err)"
  fix q
  show "loadParsedDocuments e (saveParsedDocuments e w p docs) q = loadParsedDocuments e w q"
    unfolding save_fails_early [OF h] by (rule mkdir_load)
qed

lemma demo_save_ready:
  assumes "fs w = demo_source_fs" "unwritable w = (\<lambda>p. False)"
  shows "stat w (join (cwd demo_env) [''papers/a.pdf'']) = Inr \<lparr>st_mtime = 100, st_size = 2048\<rparr>"
    "snd (mkdir demo_env w (parsedDir (getParsedPaths demo_env ''papers/a.pdf''))) = Inr ()"
    "\<not> is_directory (fs w (fst (documentsPath (getParsedPaths demo_env ''papers/a.pdf''))))"
    "\<not> unwritable w (fst (documentsPath (getParsedPaths demo_env ''papers/a.pdf'')))"
  using assms
  by (simp_all add: demo_paths stat_def mkdir_def demo_source_fs_def demo_source_def
      demo_dir_def is_directory_def touch_def)

lemma demo_stored_clean:
  "list_all (\<lambda>d. list_all (\<lambda>kv. json_clean (snd kv)) (metadata d)) [to_document demo_stored]"
  by (simp add: to_document_def demo_stored_def)

theorem save_load_roundtrip_witness:
  "loadParsedDocuments demo_env
     (saveParsedDocuments demo_env (demo_world demo_source_fs) ''papers/a.pdf''
        [to_document demo_stored])
     ''papers/a.pdf'' = Inr [to_document demo_stored] \<and>
   saveParsedDocuments demo_env (demo_world demo_source_fs) ''papers/a.pdf/''
        [to_document demo_stored] =
     fst (mkdir demo_env (demo_world demo_source_fs)
            (parsedDir (getParsedPaths demo_env ''papers/a.pdf/'')))"
proof -
  let ?w = "demo_world demo_source_fs"
  have w: "fs ?w = demo_source_fs" "unwritable ?w = (\<lambda>p. False)"
    by (simp_all add: demo_world_simps)
  note ready = demo_save_ready [OF w]
  have "\<exists>s. stat ?w (join (cwd demo_env) [''papers/a.pdf'']) = Inr s"
    using ready(1) by blast
  with ready(2,3,4) have a: "loadParsedDocuments demo_env
      (saveParsedDocuments demo_env ?w ''papers/a.pdf'' [to_document demo_stored])
      ''papers/a.pdf'' = Inr [to_document demo_stored]"
    using save_load_roundtrip
      [where e = demo_env and w = ?w and p = "''papers/a.pdf''"
         and docs = "[to_document demo_stored]"]
      demo_stored_clean
    by blast
  have "fs (fst (mkdir demo_env ?w (parsedDir (getParsedPaths demo_env ''papers/a.pdf/''))))
      [''srv'', ''nexus'', ''papers'', ''a.pdf''] = Some (RegularFile demo_source)"
    by (simp add: mkdir_kind demo_world_simps demo_source_fs_def)
  then have "stat (fst (mkdir demo_env ?w (parsedDir (getParsedPaths demo_env ''papers/a.pdf/''))))
      (join (cwd demo_env) [''papers/a.pdf/'']) = Inl FsError"
    by (simp add: stat_def demo_paths)
  then have b: "saveParsedDocuments demo_env ?w ''papers/a.pdf/'' [to_document demo_stored] =
      fst (mkdir demo_env ?w (parsedDir (getParsedPaths demo_env ''papers/a.pdf/'')))"
    using save_load_roundtrip
      [where e = demo_env and w = ?w and p = "''papers/a.pdf/''"
         and docs = "[to_document demo_stored]"]
    by blast
  from a b show ?thesis by simp
qed

text \<open>
  C8 as stated fails. For the path \<open>papers/a.pdf/\<close>, which ends in a slash, the source
  cannot be stat'ed, the save writes no file and the load fails; and the document that
  the parser glue builds for the sample page, whose layout item has no \<open>confidence\<close>,
  comes back from the cache without that property.
\<close>

theorem save_load_not_lossless:
  "loadParsedDocuments demo_env
     (saveParsedDocuments demo_env (demo_world demo_source_fs) ''papers/a.pdf/''
        [to_document demo_stored])
     ''papers/a.pdf/'' = Inl LoadFailed \<and>
   snd (parseAndSaveDocuments demo_env (demo_world demo_source_fs) ''papers/a.pdf'') =
     Inr [demo_document] \<and>
   loadParsedDocuments demo_env
     (saveParsedDocuments demo_env (demo_world demo_source_fs) ''papers/a.pdf'' [demo_document])
     ''papers/a.pdf'' = Inr [demo_cached_document] \<and>
   demo_cached_document \<noteq> demo_document \<and>
   get_prop (metadata demo_document) ''layout_items'' =
     JArr [JObj [(''type'', JStr ''heading''), (''confidence'', JUndefined),
                 (''element_type'', JStr ''heading'')]] \<and>
   get_prop (metadata demo_cached_document) ''layout_items'' =
     JArr [JObj [(''type'', JStr ''heading''), (''element_type'', JStr ''heading'')]]"
proof (intro conjI)
  let ?w = "demo_world demo_source_fs"
  let ?p = "''papers/a.pdf/''"
  let ?q = "fst (documentsPath (getParsedPaths demo_env ?p))"
  have q: "?q = [''srv'', ''nexus'', ''documents'', ''parsed'', ''document'', ''documents.json'']"
    by (simp add: documentsPath_eq parsedDir_eq fileName_of_a_pdf cache_dir_def demo_env_def
        norm_step_def)
  have "fs (saveParsedDocuments demo_env ?w ?p [to_document demo_stored]) ?q = None"
  proof -
    have "\<forall>f. fs (saveParsedDocuments demo_env ?w ?p [to_document demo_stored]) ?q \<noteq>
        Some (RegularFile f)"
    proof -
      have "fs (fst (mkdir demo_env ?w (parsedDir (getParsedPaths demo_env ?p))))
          [''srv'', ''nexus'', ''papers'', ''a.pdf''] = Some (RegularFile demo_source)"
        by (simp add: mkdir_kind demo_world_simps demo_source_fs_def)
      then have "stat (fst (mkdir demo_env ?w (parsedDir (getParsedPaths demo_env ?p))))
          (join (cwd demo_env) [?p]) = Inl FsError"
        by (simp add: stat_def demo_paths)
      then have "saveParsedDocuments demo_env ?w ?p [to_document demo_stored] =
          fst (mkdir demo_env ?w (parsedDir (getParsedPaths demo_env ?p)))"
        by (intro save_fails_early) simp
      then show ?thesis
        by (simp add: mkdir_kind q demo_world_simps demo_source_fs_def)
    qed
    moreover have "\<not> is_directory
        (fs (saveParsedDocuments demo_env ?w ?p [to_document demo_stored]) ?q)"
    proof -
      have "fs (fst (mkdir demo_env ?w (parsedDir (getParsedPaths demo_env ?p)))) ?q = fs ?w ?q"
        unfolding documentsPath_eq fst_conv by (rule mkdir_other) (rule not_prefix_snoc)
      moreover have "fs (fst (mkdir demo_env ?w (parsedDir (getParsedPaths demo_env ?p))))
          [''srv'', ''nexus'', ''papers'', ''a.pdf''] = Some (RegularFile demo_source)"
        by (simp add: mkdir_kind demo_world_simps demo_source_fs_def)
      then have "stat (fst (mkdir demo_env ?w (parsedDir (getParsedPaths demo_env ?p))))
          (join (cwd demo_env) [?p]) = Inl FsError"
        by (simp add: stat_def demo_paths)
      then have "saveParsedDocuments demo_env ?w ?p [to_document demo_stored] =
          fst (mkdir demo_env ?w (parsedDir (getParsedPaths demo_env ?p)))"
        by (intro save_fails_early) simp
      ultimately show ?thesis
        by (simp add: q demo_world_simps demo_source_fs_def is_directory_def)
    qed
    ultimately show ?thesis
      by (cases "fs (saveParsedDocuments demo_env ?w ?p [to_document demo_stored]) ?q")
        (auto simp: is_directory_def split: fsnode.splits)
  qed
  then show "loadParsedDocuments demo_env
     (saveParsedDocuments demo_env ?w ?p [to_document demo_stored]) ?p = Inl LoadFailed"
    by (rule load_missing)
next
  show "snd (parseAndSaveDocuments demo_env (demo_world demo_source_fs) ''papers/a.pdf'') =
     Inr [demo_document]"
    by (simp add: demo_parse demo_document_def)
next
  let ?w = "demo_world demo_source_fs"
  have w: "fs ?w = demo_source_fs" "unwritable ?w = (\<lambda>p. False)"
    by (simp_all add: demo_world_simps)
  show "loadParsedDocuments demo_env
     (saveParsedDocuments demo_env ?w ''papers/a.pdf'' [demo_document])
     ''papers/a.pdf'' = Inr [demo_cached_document]"
    using save_then_load [OF demo_save_ready [OF w], of "[demo_document]"]
    by (simp add: demo_cached_document_def)
next
  show items: "get_prop (metadata demo_document) ''layout_items'' =
      JArr [JObj [(''type'', JStr ''heading''), (''confidence'', JUndefined),
                  (''element_type'', JStr ''heading'')]]"
    by (simp add: demo_document_def page_document_def get_prop_def layout_source_def
        demo_page_def process_layout_item_def set_prop_def js_or_def)
  show cached: "get_prop (metadata demo_cached_document) ''layout_items'' =
      JArr [JObj [(''type'', JStr ''heading''), (''element_type'', JStr ''heading'')]]"
    by (simp add: demo_cached_document_def demo_document_def page_document_def get_prop_def
        layout_source_def demo_page_def process_layout_item_def set_prop_def js_or_def
        jsonify_object_def demo_result_def)
  show "demo_cached_document \<noteq> demo_document"
  proof
    assume "demo_cached_document = demo_document"
    then have "get_prop (metadata demo_cached_document) ''layout_items'' =
        get_prop (metadata demo_document) ''layout_items''"
      by simp
    with items cached show False by simp
  qed
qed

section \<open>getCombinedIndex\<close>


lemma collectDocuments_eq:
  "collectDocuments e w refs acc = acc @ concat (map (cached_segments e w) refs)"
  by (induction refs arbitrary: acc) (simp_all add: cached_segments_def split: sum.splits)

lemma collectDocuments_skip:
  "cached_segments e w b = [] \<Longrightarrow>
   collectDocuments e w (xs @ b # ys) acc = collectDocuments e w (xs @ ys) acc"
  by (simp add: collectDocuments_eq)

lemma getCombinedIndex_cases:
  "getCombinedIndex e w refs =
     (if collectDocuments e w refs [] = [] then (w, Inr None)
      else (case configureSettings e of
              Inl err \<Rightarrow> (w, Inl err)
            | Inr u \<Rightarrow>
                if embed_ok e (collectDocuments e w refs [])
                then (w\<lparr>build_log := build_log w @ [collectDocuments e w refs []]\<rparr>,
                      Inr (Some \<lparr>idx_docs = collectDocuments e w refs [],
                                 idx_serial = length (build_log w)\<rparr>))
                else (w\<lparr>build_log := build_log w @ [collectDocuments e w refs []]\<rparr>,
                      Inl BuildFailed)))"
  by (simp add: getCombinedIndex_def fromDocuments_def Let_def split: sum.splits)

lemma getCombinedIndex_frame:
  "parser_log (fst (getCombinedIndex e w refs)) = parser_log w"
  "fs (fst (getCombinedIndex e w refs)) = fs w"
  "documentIndices (fst (getCombinedIndex e w refs)) = documentIndices w"
  by (simp_all add: getCombinedIndex_cases split: sum.splits)

lemma getCombinedIndex_some:
  "snd (getCombinedIndex e w refs) = Inr (Some idx) \<Longrightarrow>
   idx_docs idx = collectDocuments e w refs []"
  by (auto simp: getCombinedIndex_cases split: if_splits sum.splits)

lemma get_prop_set_prop:
  "get_prop (set_prop obj k v) k' = (if k' = k then v else get_prop obj k')"
  by (simp add: get_prop_def set_prop_def update_conv')

lemma with_source_props:
  "get_prop (metadata (with_source ref d)) ''source_document'' = JStr ref"
  "k \<noteq> ''source_document'' \<Longrightarrow> get_prop (metadata (with_source ref d)) k = get_prop (metadata d) k"
  "doc_id (with_source ref d) = doc_id d" "doc_text (with_source ref d) = doc_text d"
  by (simp_all add: with_source_def get_prop_set_prop)

lemma collectDocuments_registry:
  "collectDocuments e (w\<lparr>documentIndices := r\<rparr>) refs acc = collectDocuments e w refs acc"
proof -
  have "cached_segments e (w\<lparr>documentIndices := r\<rparr>) = cached_segments e w"
    by (rule ext) (simp add: cached_segments_def loadParsedDocuments_fs [of "w\<lparr>documentIndices := r\<rparr>" w])
  then show ?thesis by (simp add: collectDocuments_eq)
qed

lemma in_collectDocuments:
  assumes "d \<in> set (collectDocuments e w refs [])"
  shows "\<exists>ref \<in> set refs. \<exists>ds. loadParsedDocuments e w ref = Inr ds \<and>
           (\<exists>d0 \<in> set ds. d = with_source ref d0)"
proof -
  from assms obtain ref where ref: "ref \<in> set refs" "d \<in> set (cached_segments e w ref)"
    by (auto simp: collectDocuments_eq)
  then show ?thesis
    by (cases "loadParsedDocuments e w ref") (auto simp: cached_segments_def)
qed

lemma parseAndSaveDocuments_json:
  assumes "loadJson e (join (cwd e) [p]) = Some rs"
  shows "fst (parseAndSaveDocuments e w p) =
    saveParsedDocuments e
      (w\<lparr>parser_log := parser_log w @ [(LoadJson, join (cwd e) [p])],
         uuid_next := uuid_next w + length (json_documents e w p rs)\<rparr>)
      p (json_documents e w p rs)"
  using assms by (simp add: parseAndSaveDocuments_def Let_def)

lemma demo_prepared:
  "\<exists>v. fs v = demo_source_fs \<and> unwritable v = (\<lambda>p. False) \<and> build_log v = [] \<and>
     fs (fst (prepareIndex demo_env (demo_world demo_source_fs) ''papers/a.pdf'')) =
       fs (saveParsedDocuments demo_env v ''papers/a.pdf'' [demo_document])"
  "build_log (fst (prepareIndex demo_env (demo_world demo_source_fs) ''papers/a.pdf'')) =
     [[demo_document]]"
proof -
  let ?w = "demo_world demo_source_fs"
  let ?a = "''papers/a.pdf''"
  let ?v = "?w\<lparr>parser_log := parser_log ?w @ [(LoadJson, join (cwd demo_env) [?a])],
      uuid_next := uuid_next ?w + length (json_documents demo_env ?w ?a [demo_result])\<rparr>"
  have json: "loadJson demo_env (join (cwd demo_env) [?a]) = Some [demo_result]"
    by (simp add: demo_paths) (simp add: demo_env_def)
  have parsed: "fst (parseAndSaveDocuments demo_env ?w ?a) =
      saveParsedDocuments demo_env ?v ?a [demo_document]"
    using parseAndSaveDocuments_json [OF json, of ?w]
    by (simp add: demo_documents demo_document_def)
  have obtained: "obtainDocuments demo_env ?w ?a (shouldUseParsedFiles demo_env ?w ?a) =
      parseAndSaveDocuments demo_env ?w ?a"
    by (simp add: obtainDocuments_def demo_source_only)
  have run: "prepareIndex demo_env ?w ?a =
      buildAndRegister demo_env (fst (parseAndSaveDocuments demo_env ?w ?a)) ?a [demo_document]"
    by (simp add: prepareIndex_miss demo_config demo_world_simps obtained demo_parse
        demo_document_def)
  have "fs (fst (prepareIndex demo_env ?w ?a)) =
      fs (saveParsedDocuments demo_env ?v ?a [demo_document])"
    by (simp add: run buildAndRegister_cases demo_embed_ok parsed demo_document_def
        page_document_def)
  moreover have "fs ?v = demo_source_fs" "unwritable ?v = (\<lambda>p. False)" "build_log ?v = []"
    by (simp_all add: demo_world_simps)
  ultimately show "\<exists>v. fs v = demo_source_fs \<and> unwritable v = (\<lambda>p. False) \<and> build_log v = [] \<and>
     fs (fst (prepareIndex demo_env ?w ?a)) =
       fs (saveParsedDocuments demo_env v ?a [demo_document])"
    by blast
  show "build_log (fst (prepareIndex demo_env ?w ?a)) = [[demo_document]]"
    by (simp add: run buildAndRegister_cases demo_embed_ok parseAndSaveDocuments_frame
        demo_world_simps demo_document_def page_document_def)
qed

lemma demo_prepared_cache:
  "loadParsedDocuments demo_env
     (fst (prepareIndex demo_env (demo_world demo_source_fs) ''papers/a.pdf'')) ''papers/a.pdf'' =
   Inr [demo_cached_document]"
  "fs (fst (prepareIndex demo_env (demo_world demo_source_fs) ''papers/a.pdf''))
     [''srv'', ''nexus'', ''drafts'', ''a.pdf''] = None"
proof -
  let ?w1 = "fst (prepareIndex demo_env (demo_world demo_source_fs) ''papers/a.pdf'')"
  from demo_prepared(1) obtain v where v: "fs v = demo_source_fs" "unwritable v = (\<lambda>p. False)"
    and w1: "fs ?w1 = fs (saveParsedDocuments demo_env v ''papers/a.pdf'' [demo_document])"
    by blast
  have "loadParsedDocuments demo_env ?w1 ''papers/a.pdf'' =
      loadParsedDocuments demo_env
        (saveParsedDocuments demo_env v ''papers/a.pdf'' [demo_document]) ''papers/a.pdf''"
    using w1 by (rule loadParsedDocuments_fs)
  also have "\<dots> = Inr [demo_cached_document]"
    using save_then_load [OF demo_save_ready [OF v], of "[demo_document]"]
    by (simp add: demo_cached_document_def)
  finally show "loadParsedDocuments demo_env ?w1 ''papers/a.pdf'' = Inr [demo_cached_document]" .
  have "fs (saveParsedDocuments demo_env v ''papers/a.pdf'' [demo_document])
      [''srv'', ''nexus'', ''drafts'', ''a.pdf''] = fs v [''srv'', ''nexus'', ''drafts'', ''a.pdf'']"
    by (rule save_other) (simp_all add: demo_paths)
  moreover have "fs v [''srv'', ''nexus'', ''drafts'', ''a.pdf''] = None"
    by (simp add: v demo_source_fs_def)
  ultimately show "fs ?w1 [''srv'', ''nexus'', ''drafts'', ''a.pdf''] = None"
    by (simp only: w1)
qed

text \<open>
  C6, as the code has it: the documents of the index that \<open>getCombinedIndex\<close> returns
  are the cached documents of the given paths, in order, each rebuilt with the same
  \<open>id_\<close> and \<open>text\<close> and with \<open>source_document\<close> set to the path of the list that it was
  loaded for; every other metadata property is kept, and \<open>source_document\<close> is set
  whether or not the cached metadata had it, in place of the value it had. The result
  does not depend on the registry, and the registry is left as it was. The cache that
  is loaded for a path is the one of its base file name: two paths with the same base
  file name load the same documents, so that the documents saved for \<open>p\<close> come back
  from \<open>getCombinedIndex [q]\<close> with \<open>source_document\<close> set to \<open>q\<close> for every \<open>q\<close> with the
  base file name of \<open>p\<close>, be it \<open>p\<close> itself or another document.
\<close>

theorem getCombinedIndex_attribution:
  "(snd (getCombinedIndex e w refs) = Inr (Some idx) \<longrightarrow>
      idx_docs idx = concat (map (cached_segments e w) refs) \<and>
      (\<forall>d \<in> set (idx_docs idx).
         \<exists>ref \<in> set refs. \<exists>ds. loadParsedDocuments e w ref = Inr ds \<and>
           (\<exists>d0 \<in> set ds. d = with_source ref d0 \<and>
              get_prop (metadata d) ''source_document'' = JStr ref \<and>
              doc_id d = doc_id d0 \<and> doc_text d = doc_text d0 \<and>
              (\<forall>k. k \<noteq> ''source_document'' \<longrightarrow>
                 get_prop (metadata d) k = get_prop (metadata d0) k)))) \<and>
   get_prop (metadata (with_source path doc)) ''source_document'' = JStr path \<and>
   snd (getCombinedIndex e (w\<lparr>documentIndices := r\<rparr>) refs) = snd (getCombinedIndex e w refs) \<and>
   documentIndices (fst (getCombinedIndex e w refs)) = documentIndices w \<and>
   (fileName_of q = fileName_of p \<longrightarrow>
      loadParsedDocuments e w q = loadParsedDocuments e w p \<and>
      cached_segments e w q =
        (case loadParsedDocuments e w p of
           Inl err \<Rightarrow> []
         | Inr ds \<Rightarrow> map (with_source q) ds)) \<and>
   ((\<exists>s. stat w (join (cwd e) [p]) = Inr s) \<and>
    snd (mkdir e w (parsedDir (getParsedPaths e p))) = Inr () \<and>
    \<not> is_directory (fs w (fst (documentsPath (getParsedPaths e p)))) \<and>
    \<not> unwritable w (fst (documentsPath (getParsedPaths e p))) \<and>
    fileName_of q = fileName_of p \<and> docs \<noteq> [] \<and> configureSettings e = Inr () \<and>
    embed_ok e (map (with_source q)
                 (map (\<lambda>d. d\<lparr>metadata := jsonify_object (metadata d)\<rparr>) docs)) \<longrightarrow>
      snd (getCombinedIndex e (saveParsedDocuments e w p docs) [q]) =
        Inr (Some \<lparr>idx_docs = map (with_source q)
                                (map (\<lambda>d. d\<lparr>metadata := jsonify_object (metadata d)\<rparr>) docs),
                   idx_serial = length (build_log w)\<rparr>))"
proof (intro conjI impI ballI)
  assume some: "snd (getCombinedIndex e w refs) = Inr (Some idx)"
  then show "idx_docs idx = concat (map (cached_segments e w) refs)"
    by (simp add: getCombinedIndex_some collectDocuments_eq)
  fix d assume "d \<in> set (idx_docs idx)"
  with some have "d \<in> set (collectDocuments e w refs [])"
    by (simp add: getCombinedIndex_some)
  from in_collectDocuments [OF this]
  obtain ref ds d0 where *: "ref \<in> set refs" "loadParsedDocuments e w ref = Inr ds"
    "d0 \<in> set ds" "d = with_source ref d0"
    by blast
  show "\<exists>ref \<in> set refs. \<exists>ds. loadParsedDocuments e w ref = Inr ds \<and>
           (\<exists>d0 \<in> set ds. d = with_source ref d0 \<and>
              get_prop (metadata d) ''source_document'' = JStr ref \<and>
              doc_id d = doc_id d0 \<and> doc_text d = doc_text d0 \<and>
              (\<forall>k. k \<noteq> ''source_document'' \<longrightarrow>
                 get_prop (metadata d) k = get_prop (metadata d0) k))"
    using * by (intro bexI [of _ ref] exI [of _ ds] conjI bexI [of _ d0])
      (simp_all add: with_source_props)
next
  show "get_prop (metadata (with_source path doc)) ''source_document'' = JStr path"
    by (simp add: with_source_props)
  show "snd (getCombinedIndex e (w\<lparr>documentIndices := r\<rparr>) refs) = snd (getCombinedIndex e w refs)"
    by (simp add: getCombinedIndex_cases collectDocuments_registry split: sum.splits)
  show "documentIndices (fst (getCombinedIndex e w refs)) = documentIndices w"
    by (simp add: getCombinedIndex_frame)
next
  assume same: "fileName_of q = fileName_of p"
  then show load: "loadParsedDocuments e w q = loadParsedDocuments e w p"
    by (rule load_same_fileName)
  show "cached_segments e w q =
        (case loadParsedDocuments e w p of
           Inl err \<Rightarrow> []
         | Inr ds \<Rightarrow> map (with_source q) ds)"
    unfolding cached_segments_def load by (rule refl)
next
  let ?J = "map (\<lambda>d. d\<lparr>metadata := jsonify_object (metadata d)\<rparr>) docs"
  let ?v = "saveParsedDocuments e w p docs"
  assume h: "(\<exists>s. stat w (join (cwd e) [p]) = Inr s) \<and>
    snd (mkdir e w (parsedDir (getParsedPaths e p))) = Inr () \<and>
    \<not> is_directory (fs w (fst (documentsPath (getParsedPaths e p)))) \<and>
    \<not> unwritable w (fst (documentsPath (getParsedPaths e p))) \<and>
    fileName_of q = fileName_of p \<and> docs \<noteq> [] \<and> configureSettings e = Inr () \<and>
    embed_ok e (map (with_source q) ?J)"
  then obtain s where "stat w (join (cwd e) [p]) = Inr s" by auto
  with h have "loadParsedDocuments e ?v p = Inr ?J"
    by (intro save_then_load) simp_all
  with h have "loadParsedDocuments e ?v q = Inr ?J"
    by (simp add: load_same_fileName [of q p])
  then have "collectDocuments e ?v [q] [] = map (with_source q) ?J"
    by (simp add: collectDocuments_eq cached_segments_def)
  with h show "snd (getCombinedIndex e ?v [q]) =
      Inr (Some \<lparr>idx_docs = map (with_source q) ?J, idx_serial = length (build_log w)\<rparr>)"
    by (simp add: getCombinedIndex_cases saveParsedDocuments_frame
        del: collectDocuments.simps)
qed

lemma demo_load_b:
  "loadParsedDocuments demo_env (demo_world (demo_fs c t)) ''papers/b.pdf'' = Inl LoadFailed"
  by (rule load_missing)
    (simp add: documentsPath_eq parsedDir_eq fileName_of_a_pdf cache_dir_def demo_env_def
      norm_step_def demo_world_simps demo_fs_def demo_source_fs_def)

lemma demo_collect:
  "collectDocuments demo_env (demo_world (demo_fs (ParsedDocs [demo_stored]) t))
     [''papers/a.pdf'', ''papers/b.pdf''] [] =
   [with_source ''papers/a.pdf'' (to_document demo_stored)]"
  by (simp add: collectDocuments_eq cached_segments_def demo_load demo_load_b)

lemma demo_combined:
  "snd (getCombinedIndex demo_env (demo_world (demo_fs (ParsedDocs [demo_stored]) t))
     [''papers/a.pdf'', ''papers/b.pdf'']) =
   Inr (Some \<lparr>idx_docs = [with_source ''papers/a.pdf'' (to_document demo_stored)],
              idx_serial = 0\<rparr>)"
  by (simp add: getCombinedIndex_cases demo_collect demo_config demo_embed_ok demo_world_simps
      del: collectDocuments.simps)

theorem getCombinedIndex_attribution_witness:
  "snd (getCombinedIndex demo_env (demo_world (demo_fs (ParsedDocs [demo_stored]) 150))
     [''papers/a.pdf'', ''papers/b.pdf'']) =
     Inr (Some \<lparr>idx_docs = [with_source ''papers/a.pdf'' (to_document demo_stored)],
                idx_serial = 0\<rparr>) \<and>
   [with_source ''papers/a.pdf'' (to_document demo_stored)] =
     concat (map (cached_segments demo_env (demo_world (demo_fs (ParsedDocs [demo_stored]) 150)))
       [''papers/a.pdf'', ''papers/b.pdf'']) \<and>
   get_prop (metadata (to_document demo_stored)) ''source_document'' = JUndefined \<and>
   get_prop (metadata (with_source ''papers/a.pdf'' (to_document demo_stored)))
     ''source_document'' = JStr ''papers/a.pdf'' \<and>
   snd (getCombinedIndex demo_env
          (saveParsedDocuments demo_env (demo_world demo_source_fs) ''papers/a.pdf''
             [demo_document])
          [''drafts/a.pdf'']) =
     Inr (Some \<lparr>idx_docs = [with_source ''drafts/a.pdf'' demo_cached_document],
                idx_serial = 0\<rparr>)"
proof -
  let ?w = "demo_world demo_source_fs"
  have w: "fs ?w = demo_source_fs" "unwritable ?w = (\<lambda>p. False)"
    by (simp_all add: demo_world_simps)
  note ready = demo_save_ready [OF w]
  have undef: "get_prop (metadata (to_document demo_stored)) ''source_document'' = JUndefined"
    by (simp add: to_document_def demo_stored_def get_prop_def)
  have src: "\<exists>s. stat ?w (join (cwd demo_env) [''papers/a.pdf'']) = Inr s"
    using ready(1) by blast
  have first: "[with_source ''papers/a.pdf'' (to_document demo_stored)] =
      concat (map (cached_segments demo_env (demo_world (demo_fs (ParsedDocs [demo_stored]) 150)))
        [''papers/a.pdf'', ''papers/b.pdf'']) \<and>
    get_prop (metadata (with_source ''papers/a.pdf'' (to_document demo_stored)))
      ''source_document'' = JStr ''papers/a.pdf''"
    using getCombinedIndex_attribution
      [where e = demo_env and w = "demo_world (demo_fs (ParsedDocs [demo_stored]) 150)"
         and refs = "[''papers/a.pdf'', ''papers/b.pdf'']"
         and idx = "\<lparr>idx_docs = [with_source ''papers/a.pdf'' (to_document demo_stored)],
                      idx_serial = 0\<rparr>"
         and path = "''papers/a.pdf''" and doc = "to_document demo_stored"
         and r = Map.empty and p = "''papers/a.pdf''" and q = "''drafts/a.pdf''"
         and docs = "[]"]
      demo_combined [of 150]
    by simp
  have "snd (getCombinedIndex demo_env
          (saveParsedDocuments demo_env ?w ''papers/a.pdf'' [demo_document]) [''drafts/a.pdf'']) =
      Inr (Some \<lparr>idx_docs = map (with_source ''drafts/a.pdf'')
                     (map (\<lambda>d. d\<lparr>metadata := jsonify_object (metadata d)\<rparr>) [demo_document]),
                 idx_serial = length (build_log ?w)\<rparr>)"
    using getCombinedIndex_attribution
      [where e = demo_env and w = ?w
         and refs = "[]" and idx = "\<lparr>idx_docs = [], idx_serial = 0\<rparr>"
         and path = "''papers/a.pdf''" and doc = "to_document demo_stored"
         and r = Map.empty and p = "''papers/a.pdf''" and q = "''drafts/a.pdf''"
         and docs = "[demo_document]"]
      src ready(2,3,4) demo_config
    by (simp add: fileName_of_a_pdf demo_embed_ok)
  then have second: "snd (getCombinedIndex demo_env
          (saveParsedDocuments demo_env ?w ''papers/a.pdf'' [demo_document]) [''drafts/a.pdf'']) =
      Inr (Some \<lparr>idx_docs = [with_source ''drafts/a.pdf'' demo_cached_document],
                 idx_serial = 0\<rparr>)"
    by (simp add: demo_cached_document_def demo_world_simps)
  from first second undef demo_combined [of 150] show ?thesis by simp
qed

text \<open>
  C6 as stated fails. After \<open>prepareIndex\<close> has parsed \<open>papers/a.pdf\<close> and cached its one
  document, which carries \<open>papers/a.pdf\<close> as its \<open>source_document\<close>, the combined index
  for \<open>drafts/a.pdf\<close>, a document that does not exist, holds that document with
  \<open>source_document\<close> set to \<open>drafts/a.pdf\<close>.
\<close>

theorem combined_index_tags_requested_path:
  "snd (prepareIndex demo_env (demo_world demo_source_fs) ''papers/a.pdf'') = Inr () \<and>
   loadParsedDocuments demo_env
     (fst (prepareIndex demo_env (demo_world demo_source_fs) ''papers/a.pdf''))
     ''papers/a.pdf'' = Inr [demo_cached_document] \<and>
   doc_text demo_cached_document = ''Abstract'' \<and>
   get_prop (metadata demo_cached_document) ''source_document'' = JStr ''papers/a.pdf'' \<and>
   join (cwd demo_env) [''drafts/a.pdf''] = ([''srv'', ''nexus'', ''drafts'', ''a.pdf''], False) \<and>
   fs (fst (prepareIndex demo_env (demo_world demo_source_fs) ''papers/a.pdf''))
     [''srv'', ''nexus'', ''drafts'', ''a.pdf''] = None \<and>
   snd (getCombinedIndex demo_env
          (fst (prepareIndex demo_env (demo_world demo_source_fs) ''papers/a.pdf''))
          [''drafts/a.pdf'']) =
     Inr (Some \<lparr>idx_docs = [with_source ''drafts/a.pdf'' demo_cached_document],
                idx_serial = 1\<rparr>) \<and>
   get_prop (metadata (with_source ''drafts/a.pdf'' demo_cached_document)) ''source_document'' =
     JStr ''drafts/a.pdf''"
proof -
  let ?w1 = "fst (prepareIndex demo_env (demo_world demo_source_fs) ''papers/a.pdf'')"
  have ok: "snd (prepareIndex demo_env (demo_world demo_source_fs) ''papers/a.pdf'') = Inr ()"
    by (rule demo_prepare_ok [OF demo_source_only])
  have body: "doc_text demo_cached_document = ''Abstract''"
    by (simp add: demo_cached_document_def demo_document_def page_document_def page_text_def
        demo_page_def)
  have tag: "get_prop (metadata demo_cached_document) ''source_document'' = JStr ''papers/a.pdf''"
    by (simp add: demo_cached_document_def demo_document_def page_document_def get_prop_def
        jsonify_object_def demo_result_def demo_page_def js_or_def)
  have path: "join (cwd demo_env) [''drafts/a.pdf''] =
      ([''srv'', ''nexus'', ''drafts'', ''a.pdf''], False)"
    by (simp add: join_def demo_env_def norm_step_def ends_with_slash_def Let_def)
  have "loadParsedDocuments demo_env ?w1 ''drafts/a.pdf'' = Inr [demo_cached_document]"
    using demo_prepared_cache(1) by (simp add: load_same_fileName [of "''drafts/a.pdf''" "''papers/a.pdf''"] fileName_of_a_pdf)
  then have "collectDocuments demo_env ?w1 [''drafts/a.pdf''] [] =
      [with_source ''drafts/a.pdf'' demo_cached_document]"
    by (simp add: collectDocuments_eq cached_segments_def)
  then have combined: "snd (getCombinedIndex demo_env ?w1 [''drafts/a.pdf'']) =
      Inr (Some \<lparr>idx_docs = [with_source ''drafts/a.pdf'' demo_cached_document],
                 idx_serial = 1\<rparr>)"
    by (simp add: getCombinedIndex_cases demo_config demo_embed_ok demo_prepared(2)
        del: collectDocuments.simps)
  from ok demo_prepared_cache body tag path combined show ?thesis
    by (simp add: with_source_props)
qed

text \<open>
  C7: the loop of \<open>getCombinedIndex\<close> collects the cached documents of every path whose
  cache loads and passes over a path whose cache does not load, so that such a path
  can be left out of the list without changing the outcome. The result is absent
  exactly when nothing was collected; when something was collected and the settings
  and the build succeed, the result is the index built from the collected documents.
  In particular, with the cache of \<open>b\<close> missing, \<open>[a, b]\<close> gives what \<open>[a]\<close> gives, an
  index of the documents of \<open>a\<close> alone when there are any, and \<open>[b]\<close> gives absent.
\<close>

theorem getCombinedIndex_partial:
  "collectDocuments e w refs [] = concat (map (cached_segments e w) refs) \<and>
   ((\<exists>err. loadParsedDocuments e w b = Inl err) \<longrightarrow>
      cached_segments e w b = [] \<and>
      getCombinedIndex e w (xs @ b # ys) = getCombinedIndex e w (xs @ ys)) \<and>
   ((snd (getCombinedIndex e w refs) = Inr None) = (collectDocuments e w refs [] = [])) \<and>
   (collectDocuments e w refs [] \<noteq> [] \<and> configureSettings e = Inr () \<and>
    embed_ok e (collectDocuments e w refs []) \<longrightarrow>
      snd (getCombinedIndex e w refs) =
        Inr (Some \<lparr>idx_docs = collectDocuments e w refs [],
                   idx_serial = length (build_log w)\<rparr>)) \<and>
   ((\<exists>err. loadParsedDocuments e w b = Inl err) \<longrightarrow>
      getCombinedIndex e w [a, b] = getCombinedIndex e w [a] \<and>
      getCombinedIndex e w [b] = (w, Inr None)) \<and>
   ((\<exists>err. loadParsedDocuments e w b = Inl err) \<and> loadParsedDocuments e w a = Inr ds \<and>
    ds \<noteq> [] \<and> configureSettings e = Inr () \<and> embed_ok e (map (with_source a) ds) \<longrightarrow>
      snd (getCombinedIndex e w [a, b]) =
        Inr (Some \<lparr>idx_docs = map (with_source a) ds, idx_serial = length (build_log w)\<rparr>))"
proof (intro conjI impI)
  show "collectDocuments e w refs [] = concat (map (cached_segments e w) refs)"
    by (simp add: collectDocuments_eq)
next
  assume "\<exists>err. loadParsedDocuments e w b = Inl err"
  then show skipped: "cached_segments e w b = []"
    by (auto simp: cached_segments_def)
  then have eq: "collectDocuments e w (xs @ b # ys) [] = collectDocuments e w (xs @ ys) []"
    by (rule collectDocuments_skip)
  show "getCombinedIndex e w (xs @ b # ys) = getCombinedIndex e w (xs @ ys)"
    unfolding getCombinedIndex_cases eq by (rule refl)
next
  show "(snd (getCombinedIndex e w refs) = Inr None) = (collectDocuments e w refs [] = [])"
    by (simp add: getCombinedIndex_cases split: sum.splits)
next
  assume "collectDocuments e w refs [] \<noteq> [] \<and> configureSettings e = Inr () \<and>
    embed_ok e (collectDocuments e w refs [])"
  then show "snd (getCombinedIndex e w refs) =
        Inr (Some \<lparr>idx_docs = collectDocuments e w refs [],
                   idx_serial = length (build_log w)\<rparr>)"
    by (simp add: getCombinedIndex_cases)
next
  assume "\<exists>err. loadParsedDocuments e w b = Inl err"
  then have skipped: "cached_segments e w b = []"
    by (auto simp: cached_segments_def)
  have eq: "collectDocuments e w [a, b] [] = collectDocuments e w [a] []"
    using collectDocuments_skip [OF skipped, where xs = "[a]" and ys = "[]" and acc = "[]"]
    by simp
  show "getCombinedIndex e w [a, b] = getCombinedIndex e w [a]"
    unfolding getCombinedIndex_cases eq by (rule refl)
  have none: "collectDocuments e w [b] [] = []"
    using collectDocuments_skip [OF skipped, where xs = "[]" and ys = "[]" and acc = "[]"]
    by (simp add: collectDocuments_eq)
  show "getCombinedIndex e w [b] = (w, Inr None)"
    unfolding getCombinedIndex_cases none by simp
next
  assume h: "(\<exists>err. loadParsedDocuments e w b = Inl err) \<and> loadParsedDocuments e w a = Inr ds \<and>
    ds \<noteq> [] \<and> configureSettings e = Inr () \<and> embed_ok e (map (with_source a) ds)"
  then have "collectDocuments e w [a, b] [] = map (with_source a) ds"
    by (auto simp: collectDocuments_eq cached_segments_def)
  with h show "snd (getCombinedIndex e w [a, b]) =
        Inr (Some \<lparr>idx_docs = map (with_source a) ds, idx_serial = length (build_log w)\<rparr>)"
    by (simp add: getCombinedIndex_cases)
qed

theorem getCombinedIndex_partial_witness:
  "getCombinedIndex demo_env (demo_world (demo_fs (ParsedDocs [demo_stored]) 150))
     [''papers/a.pdf'', ''papers/b.pdf''] =
   getCombinedIndex demo_env (demo_world (demo_fs (ParsedDocs [demo_stored]) 150))
     [''papers/a.pdf''] \<and>
   snd (getCombinedIndex demo_env (demo_world (demo_fs (ParsedDocs [demo_stored]) 150))
     [''papers/a.pdf'', ''papers/b.pdf'']) =
     Inr (Some \<lparr>idx_docs = [with_source ''papers/a.pdf'' (to_document demo_stored)],
                idx_serial = 0\<rparr>) \<and>
   getCombinedIndex demo_env (demo_world (demo_fs (ParsedDocs [demo_stored]) 150))
     [''papers/b.pdf''] =
     (demo_world (demo_fs (ParsedDocs [demo_stored]) 150), Inr None)"
proof -
  let ?w = "demo_world (demo_fs (ParsedDocs [demo_stored]) 150)"
  note partial = getCombinedIndex_partial
      [where e = demo_env and w = ?w and a = "''papers/a.pdf''" and b = "''papers/b.pdf''"
         and ds = "[to_document demo_stored]" and xs = "[]" and ys = "[]"
         and refs = "[''papers/b.pdf'']"]
  have missing: "\<exists>err. loadParsedDocuments demo_env ?w ''papers/b.pdf'' = Inl err"
    by (simp add: demo_load_b)
  have cached: "loadParsedDocuments demo_env ?w ''papers/a.pdf'' = Inr [to_document demo_stored]"
    by (rule demo_load)
  have usable: "[to_document demo_stored] \<noteq> []" "configureSettings demo_env = Inr ()"
    "embed_ok demo_env (map (with_source ''papers/a.pdf'') [to_document demo_stored])"
    by (simp_all add: demo_config demo_embed_ok)
  from partial missing
  have "getCombinedIndex demo_env ?w [''papers/a.pdf'', ''papers/b.pdf''] =
      getCombinedIndex demo_env ?w [''papers/a.pdf''] \<and>
    getCombinedIndex demo_env ?w [''papers/b.pdf''] = (?w, Inr None)"
    by blast
  moreover from partial missing cached usable
  have "snd (getCombinedIndex demo_env ?w [''papers/a.pdf'', ''papers/b.pdf'']) =
      Inr (Some \<lparr>idx_docs = map (with_source ''papers/a.pdf'') [to_document demo_stored],
                 idx_serial = length (build_log ?w)\<rparr>)"
    by blast
  ultimately show ?thesis
    by (simp add: demo_world_simps)
qed

text \<open>
  C10: \<open>getCombinedIndex\<close> never calls the parser and never writes a file, and what it
  collects and returns depends on the contents of the files only, not on any
  modification time. A document whose cache loads is included even when the freshness
  check on it fails: its cached documents are among the collected ones, the index is
  built from the collected documents when the settings and the build succeed, and for
  such a document alone the result is the index of its cached documents.
\<close>

theorem getCombinedIndex_ignores_freshness:
  "parser_log (fst (getCombinedIndex e w refs)) = parser_log w \<and>
   fs (fst (getCombinedIndex e w refs)) = fs w \<and>
   ((\<forall>q. map_option node_content (fs w' q) = map_option node_content (fs w q)) \<longrightarrow>
      collectDocuments e w' refs [] = collectDocuments e w refs [] \<and>
      (length (build_log w') = length (build_log w) \<longrightarrow>
         snd (getCombinedIndex e w' refs) = snd (getCombinedIndex e w refs))) \<and>
   (ref \<in> set refs \<and> loadParsedDocuments e w ref = Inr ds \<and> \<not> shouldUseParsedFiles e w ref \<longrightarrow>
      set (map (with_source ref) ds) \<subseteq> set (collectDocuments e w refs []) \<and>
      (ds \<noteq> [] \<and> configureSettings e = Inr () \<and> embed_ok e (collectDocuments e w refs []) \<longrightarrow>
         snd (getCombinedIndex e w refs) =
           Inr (Some \<lparr>idx_docs = collectDocuments e w refs [],
                      idx_serial = length (build_log w)\<rparr>) \<and>
         build_log (fst (getCombinedIndex e w refs)) =
           build_log w @ [collectDocuments e w refs []])) \<and>
   (loadParsedDocuments e w ref = Inr ds \<and> ds \<noteq> [] \<and> \<not> shouldUseParsedFiles e w ref \<and>
    configureSettings e = Inr () \<and> embed_ok e (map (with_source ref) ds) \<longrightarrow>
      snd (getCombinedIndex e w [ref]) =
        Inr (Some \<lparr>idx_docs = map (with_source ref) ds, idx_serial = length (build_log w)\<rparr>))"
proof (intro conjI impI)
  show "parser_log (fst (getCombinedIndex e w refs)) = parser_log w"
    "fs (fst (getCombinedIndex e w refs)) = fs w"
    by (simp_all add: getCombinedIndex_frame)
next
  assume same: "\<forall>q. map_option node_content (fs w' q) = map_option node_content (fs w q)"
  have "readFile w' q = readFile w q" for q
    using same [rule_format, of "fst q"]
    by (cases "fs w' (fst q)"; cases "fs w (fst q)")
      (auto simp: readFile_def node_content_def split: fsnode.splits)
  then have "readFile w' = readFile w" by (rule ext)
  then have "loadParsedDocuments e w' p = loadParsedDocuments e w p" for p
    by (simp add: loadParsedDocuments_def loadParsedDocuments_try_def)
  then have "cached_segments e w' = cached_segments e w"
    by (intro ext) (simp add: cached_segments_def)
  then show collect: "collectDocuments e w' refs [] = collectDocuments e w refs []"
    by (simp add: collectDocuments_eq)
  assume "length (build_log w') = length (build_log w)"
  then show "snd (getCombinedIndex e w' refs) = snd (getCombinedIndex e w refs)"
    by (simp add: getCombinedIndex_cases collect split: sum.splits)
next
  assume h: "ref \<in> set refs \<and> loadParsedDocuments e w ref = Inr ds \<and>
    \<not> shouldUseParsedFiles e w ref"
  then have seg: "ref \<in> set refs" "cached_segments e w ref = map (with_source ref) ds"
    by (simp_all add: cached_segments_def)
  then show sub: "set (map (with_source ref) ds) \<subseteq> set (collectDocuments e w refs [])"
    by (auto simp: collectDocuments_eq)
  assume b: "ds \<noteq> [] \<and> configureSettings e = Inr () \<and> embed_ok e (collectDocuments e w refs [])"
  with sub have nonempty: "collectDocuments e w refs [] \<noteq> []"
    by (cases ds) auto
  with b show "snd (getCombinedIndex e w refs) =
           Inr (Some \<lparr>idx_docs = collectDocuments e w refs [],
                      idx_serial = length (build_log w)\<rparr>)"
    by (simp add: getCombinedIndex_cases)
  from nonempty b show "build_log (fst (getCombinedIndex e w refs)) =
      build_log w @ [collectDocuments e w refs []]"
    by (simp add: getCombinedIndex_cases)
next
  assume h: "loadParsedDocuments e w ref = Inr ds \<and> ds \<noteq> [] \<and> \<not> shouldUseParsedFiles e w ref \<and>
    configureSettings e = Inr () \<and> embed_ok e (map (with_source ref) ds)"
  then have "collectDocuments e w [ref] [] = map (with_source ref) ds"
    by (simp add: collectDocuments_eq cached_segments_def)
  with h show "snd (getCombinedIndex e w [ref]) =
      Inr (Some \<lparr>idx_docs = map (with_source ref) ds, idx_serial = length (build_log w)\<rparr>)"
    by (simp add: getCombinedIndex_cases del: collectDocuments.simps)
qed

theorem getCombinedIndex_ignores_freshness_witness:
  "\<not> shouldUseParsedFiles demo_env (demo_world (demo_fs (ParsedDocs [demo_stored]) 50))
      ''papers/a.pdf'' \<and>
   snd (getCombinedIndex demo_env (demo_world (demo_fs (ParsedDocs [demo_stored]) 50))
          [''papers/a.pdf'']) =
     Inr (Some \<lparr>idx_docs = [with_source ''papers/a.pdf'' (to_document demo_stored)],
                idx_serial = 0\<rparr>) \<and>
   with_source ''papers/a.pdf'' (to_document demo_stored) \<in>
     set (collectDocuments demo_env (demo_world (demo_fs (ParsedDocs [demo_stored]) 50))
            [''papers/a.pdf'', ''papers/b.pdf''] []) \<and>
   snd (getCombinedIndex demo_env (demo_world (demo_fs (ParsedDocs [demo_stored]) 50))
          [''papers/a.pdf'', ''papers/b.pdf'']) =
   snd (getCombinedIndex demo_env (demo_world (demo_fs (ParsedDocs [demo_stored]) 150))
          [''papers/a.pdf'', ''papers/b.pdf''])"
proof -
  let ?old = "demo_world (demo_fs (ParsedDocs [demo_stored]) 50)"
  let ?new = "demo_world (demo_fs (ParsedDocs [demo_stored]) 150)"
  have same: "\<forall>q. map_option node_content (fs ?old q) = map_option node_content (fs ?new q)"
    by (simp add: demo_world_simps demo_fs_def node_content_def)
  have logs: "length (build_log ?old) = length (build_log ?new)"
    by (simp add: demo_world_simps)
  have a: "snd (getCombinedIndex demo_env ?old [''papers/a.pdf'', ''papers/b.pdf'']) =
      snd (getCombinedIndex demo_env ?new [''papers/a.pdf'', ''papers/b.pdf''])"
    using getCombinedIndex_ignores_freshness
      [where e = demo_env and w = ?new and w' = ?old
         and refs = "[''papers/a.pdf'', ''papers/b.pdf'']"
         and ref = "''papers/a.pdf''" and ds = "[]"]
      same logs
    by blast
  have b: "set (map (with_source ''papers/a.pdf'') [to_document demo_stored]) \<subseteq>
      set (collectDocuments demo_env ?old [''papers/a.pdf'', ''papers/b.pdf''] []) \<and>
    snd (getCombinedIndex demo_env ?old [''papers/a.pdf'']) =
      Inr (Some \<lparr>idx_docs = map (with_source ''papers/a.pdf'') [to_document demo_stored],
                 idx_serial = length (build_log ?old)\<rparr>)"
    using getCombinedIndex_ignores_freshness
      [where e = demo_env and w = ?old and w' = ?old
         and refs = "[''papers/a.pdf'', ''papers/b.pdf'']"
         and ref = "''papers/a.pdf''" and ds = "[to_document demo_stored]"]
      demo_stale [of "ParsedDocs [demo_stored]"] demo_load [of 50] demo_config
    by (simp add: demo_embed_ok)
  from a b demo_stale [of "ParsedDocs [demo_stored]"] show ?thesis
    by (simp add: demo_world_simps)
qed

section \<open>Calls of prepareIndex one after another and in turn\<close>

lemma prepare_step_documents:
  "prepare_step e w (AwaitDocuments p fresh) =
     (case obtainDocuments e w p fresh of
        (w1, Inl err) \<Rightarrow> (w1, Finished (Inl err))
      | (w1, Inr documents) \<Rightarrow>
          if documents = [] then (w1, Finished (Inl EmptyDocument))
          else (w1, AwaitBuild p documents))"
  unfolding obtainDocuments_def by (rule prepare_step.simps)

lemma steps4_Called:
  "steps4 e w (Called p) = (fst (prepareIndex e w p), Finished (snd (prepareIndex e w p)))"
proof (cases "configureSettings e")
  case (Inl err)
  then show ?thesis by (simp add: steps4_def prepareIndex_alt)
next
  case (Inr u)
  note cfg = this
  show ?thesis
  proof (cases "documentIndices w p")
    case (Some h)
    with cfg show ?thesis by (simp add: steps4_def prepareIndex_alt)
  next
    case None
    note miss = this
    obtain w1 r where o: "obtainDocuments e w p (shouldUseParsedFiles e w p) = (w1, r)"
      by (cases "obtainDocuments e w p (shouldUseParsedFiles e w p)")
    show ?thesis
    proof (cases r)
      case (Inl err)
      with cfg miss o show ?thesis
        by (simp add: steps4_def prepareIndex_alt prepare_step_documents
            del: prepare_step.simps(3))
    next
      case (Inr ds)
      with cfg miss o show ?thesis
        by (simp add: steps4_def prepareIndex_alt buildAndRegister_def prepare_step_documents
            del: prepare_step.simps(3) split: prod.splits sum.splits)
    qed
  qed
qed

lemma run_schedule_four:
  assumes "i < length tasks"
  shows "run_schedule e w tasks (replicate 4 i @ rest) =
    run_schedule e (fst (steps4 e w (tasks ! i))) (tasks[i := snd (steps4 e w (tasks ! i))]) rest"
proof -
  have four: "replicate 4 i = [i, i, i, i]" by (simp add: numeral_eq_Suc)
  show ?thesis
    using assms
    by (simp add: four steps4_def split: prod.splits)
qed

lemma replicate_update_next:
  "(replicate k a @ replicate (Suc m) b)[k := a] = replicate (Suc k) a @ replicate m b"
  by (simp add: list_update_append replicate_append_same)

lemma sequential_rest:
  assumes "configureSettings e = Inr ()" "documentIndices w p = Some h"
  shows "run_schedule e w (replicate k (Finished (Inr ())) @ replicate m (Called p))
           (concat (map (replicate 4) [k..<k + m])) =
         (w, replicate (k + m) (Finished (Inr ())))"
proof (induction m arbitrary: k)
  case 0
  then show ?case by simp
next
  case (Suc m)
  let ?ts = "replicate k (Finished (Inr ())) @ replicate (Suc m) (Called p)"
  have sched: "concat (map (replicate 4) [k..<k + Suc m]) =
      replicate 4 k @ concat (map (replicate 4) [Suc k..<Suc k + m])"
    by (simp add: upt_rec [of k])
  have len: "k < length ?ts" by simp
  have task: "?ts ! k = Called p" by (simp add: nth_append)
  have four: "steps4 e w (Called p) = (w, Finished (Inr ()))"
    using assms by (simp add: steps4_Called prepareIndex_hit)
  have "run_schedule e w ?ts (concat (map (replicate 4) [k..<k + Suc m])) =
      run_schedule e w (replicate (Suc k) (Finished (Inr ())) @ replicate m (Called p))
        (concat (map (replicate 4) [Suc k..<Suc k + m]))"
    unfolding sched run_schedule_four [OF len] task four
    by (simp only: fst_conv snd_conv replicate_update_next)
  also have "\<dots> = (w, replicate (Suc k + m) (Finished (Inr ())))"
    by (rule Suc.IH)
  finally show ?case by simp
qed

lemma sequential_calls:
  assumes miss: "documentIndices w p = None" and ok: "snd (prepareIndex e w p) = Inr ()"
  shows "run_schedule e w (replicate (Suc n) (Called p)) (one_after_another (Suc n)) =
    (fst (prepareIndex e w p), replicate (Suc n) (Finished (Inr ())))"
proof -
  let ?w1 = "fst (prepareIndex e w p)"
  have run: "prepareIndex e w p = (?w1, Inr ())"
    using ok by (simp add: prod_eq_iff)
  have cfg: "configureSettings e = Inr ()"
    using run by (rule prepareIndex_ok_config)
  from prepareIndex_registry [OF run] miss obtain idx where entry: "documentIndices ?w1 p = Some idx"
  proof -
    have "documentIndices ?w1 p \<noteq> None"
    proof (cases "snd (obtainDocuments e w p (shouldUseParsedFiles e w p))")
      case (Inl err)
      with cfg miss ok show ?thesis by (simp add: prepareIndex_miss)
    next
      case (Inr ds)
      with cfg miss ok show ?thesis
        by (auto simp: prepareIndex_miss buildAndRegister_cases split: if_splits)
    qed
    then show ?thesis using that by auto
  qed
  have sched: "one_after_another (Suc n) =
      replicate 4 0 @ concat (map (replicate 4) [1..<1 + n])"
    by (simp add: one_after_another_def upt_rec [of 0])
  have four: "steps4 e w (Called p) = (?w1, Finished (Inr ()))"
    by (simp add: steps4_Called ok)
  have "run_schedule e w (replicate (Suc n) (Called p)) (one_after_another (Suc n)) =
      run_schedule e ?w1 (replicate 1 (Finished (Inr ())) @ replicate n (Called p))
        (concat (map (replicate 4) [1..<1 + n]))"
    unfolding sched
    by (subst run_schedule_four) (simp_all add: four)
  also have "\<dots> = (?w1, replicate (1 + n) (Finished (Inr ())))"
    by (rule sequential_rest [OF cfg entry])
  finally show ?thesis by simp
qed

lemma step_parse:
  "snd (parseAndSaveDocuments e w p) = Inr ds \<Longrightarrow> ds \<noteq> [] \<Longrightarrow>
   prepare_step e w (AwaitDocuments p False) =
     (fst (parseAndSaveDocuments e w p), AwaitBuild p ds)"
  by (cases "parseAndSaveDocuments e w p") (simp add: obtainDocuments_def)

lemma step_build:
  "embed_ok e ds \<Longrightarrow>
   prepare_step e w (AwaitBuild p ds) =
     (w\<lparr>build_log := build_log w @ [ds],
        documentIndices := (documentIndices w)
          (p \<mapsto> \<lparr>idx_docs = ds, idx_serial = length (build_log w)\<rparr>)\<rparr>,
      Finished (Inr ()))"
  by (simp add: fromDocuments_def Let_def)

lemma step_build_log:
  "build_log (fst (prepare_step e w (AwaitBuild p ds))) = build_log w @ [ds]"
  by (simp add: fromDocuments_def Let_def)

lemma run_schedule_append:
  "run_schedule e w ts (s1 @ s2) =
     run_schedule e (fst (run_schedule e w ts s1)) (snd (run_schedule e w ts s1)) s2"
  by (induction s1 arbitrary: w ts) (simp_all split: prod.splits)

lemma run_schedule_length: "length (snd (run_schedule e w ts s)) = length ts"
  by (induction s arbitrary: w ts) (simp_all split: prod.splits)

lemma started_together:
  assumes "configureSettings e = Inr ()" "documentIndices w p = None"
  shows "run_schedule e w (replicate k (AwaitFresh p) @ replicate m (Called p))
           ([k..<k + m] @ rest) =
         run_schedule e w (replicate (k + m) (AwaitFresh p)) rest"
proof (induction m arbitrary: k)
  case 0
  then show ?case by simp
next
  case (Suc m)
  let ?ts = "replicate k (AwaitFresh p) @ replicate (Suc m) (Called p)"
  have sched: "[k..<k + Suc m] @ rest = k # ([Suc k..<Suc k + m] @ rest)"
    by (simp add: upt_rec [of k])
  have len: "k < length ?ts" by simp
  have task: "?ts ! k = Called p" by (simp add: nth_append)
  have step: "prepare_step e w (Called p) = (w, AwaitFresh p)"
    using assms by simp
  have "run_schedule e w ?ts ([k..<k + Suc m] @ rest) =
      run_schedule e w (replicate (Suc k) (AwaitFresh p) @ replicate m (Called p))
        ([Suc k..<Suc k + m] @ rest)"
    unfolding sched using len
    by (simp only: run_schedule.simps task step if_True prod.case replicate_update_next)
  also have "\<dots> = run_schedule e w (replicate (Suc k + m) (AwaitFresh p)) rest"
    by (rule Suc.IH)
  finally show ?case by simp
qed

lemma filter_update_count:
  "i < length ts \<Longrightarrow>
   length (filter P (ts[i := t])) + (if P (ts ! i) then 1 else 0) =
     length (filter P ts) + (if P t then 1 else 0)"
proof (induction ts arbitrary: i)
  case Nil
  then show ?case by simp
next
  case (Cons a ts)
  show ?case
  proof (cases i)
    case 0
    then show ?thesis by simp
  next
    case (Suc j)
    with Cons.prems have "j < length ts" by simp
    from Cons.IH [OF this] Suc show ?thesis by simp
  qed
qed

lemma obtainDocuments_error:
  "snd (obtainDocuments e w p fresh) = Inl err \<Longrightarrow> err = ParseFailed"
  by (auto simp: obtainDocuments_def parseAndSaveDocuments_result
      split: if_splits sum.splits option.splits)

lemma step_documents_task:
  "snd (prepare_step e w (AwaitDocuments p fresh)) =
     (case snd (obtainDocuments e w p fresh) of
        Inl err \<Rightarrow> Finished (Inl err)
      | Inr ds \<Rightarrow> if ds = [] then Finished (Inl EmptyDocument) else AwaitBuild p ds)"
  by (cases "obtainDocuments e w p fresh")
    (simp add: prepare_step_documents del: prepare_step.simps(3) split: sum.splits)

lemma step_documents_world:
  "fst (prepare_step e w (AwaitDocuments p fresh)) = fst (obtainDocuments e w p fresh)"
  by (cases "obtainDocuments e w p fresh")
    (simp add: prepare_step_documents del: prepare_step.simps(3) split: sum.splits)

lemma step_builds:
  assumes "started t"
  shows "length (build_log (fst (prepare_step e w t))) + (if build_outcome t then 1 else 0) =
      length (build_log w) + (if build_outcome (snd (prepare_step e w t)) then 1 else 0) \<and>
    started (snd (prepare_step e w t))"
proof (cases t)
  case (Called p)
  with assms show ?thesis by simp
next
  case (AwaitFresh p)
  then show ?thesis by simp
next
  case (AwaitDocuments p fresh)
  have "\<not> build_outcome (snd (prepare_step e w (AwaitDocuments p fresh)))"
    unfolding step_documents_task using obtainDocuments_error [of e w p fresh]
    by (cases "snd (obtainDocuments e w p fresh)") auto
  moreover have "started (snd (prepare_step e w (AwaitDocuments p fresh)))"
    unfolding step_documents_task
    by (cases "snd (obtainDocuments e w p fresh)") simp_all
  moreover have "build_log (fst (prepare_step e w (AwaitDocuments p fresh))) = build_log w"
    unfolding step_documents_world by (rule obtainDocuments_frame)
  ultimately show ?thesis
    unfolding AwaitDocuments by (simp del: prepare_step.simps)
next
  case (AwaitBuild p ds)
  then show ?thesis by (simp add: fromDocuments_def Let_def)
next
  case (Finished r)
  then show ?thesis by simp
qed

lemma run_builds:
  "list_all started ts \<Longrightarrow>
   length (build_log (fst (run_schedule e w ts s))) + length (filter build_outcome ts) =
     length (build_log w) + length (filter build_outcome (snd (run_schedule e w ts s)))"
proof (induction s arbitrary: w ts)
  case Nil
  then show ?case by simp
next
  case (Cons i s)
  show ?case
  proof (cases "i < length ts")
    case False
    with Cons.IH [OF Cons.prems, of w] show ?thesis by simp
  next
    case True
    let ?w1 = "fst (prepare_step e w (ts ! i))"
    let ?t1 = "snd (prepare_step e w (ts ! i))"
    from Cons.prems True have st: "started (ts ! i)"
      by (simp add: list_all_length)
    from step_builds [OF st, of e w]
    have step: "length (build_log ?w1) + (if build_outcome (ts ! i) then 1 else 0) =
        length (build_log w) + (if build_outcome ?t1 then 1 else 0)"
      and st1: "started ?t1"
      by simp_all
    have all: "list_all started (ts[i := ?t1])"
      using Cons.prems st1 by (auto simp: list_all_iff dest: set_update_subset_insert [THEN subsetD])
    have run: "run_schedule e w ts (i # s) = run_schedule e ?w1 (ts[i := ?t1]) s"
      using True by (simp add: case_prod_beta)
    from Cons.IH [OF all, of ?w1] filter_update_count [OF True, of build_outcome ?t1] step
    show ?thesis
      unfolding run by arith
  qed
qed

lemma step_parse_runs:
  "parse_runs (fst (prepare_step e w (AwaitDocuments p False))) = Suc (parse_runs w)"
  unfolding step_documents_world
  by (simp add: obtainDocuments_def parseAndSaveDocuments_runs)

lemma step_parses:
  assumes "past_freshness t"
  shows "parse_runs (fst (prepare_step e w t)) +
        (if awaits_parse t then 0 else 1) =
      parse_runs w + 1 \<and>
    \<not> awaits_parse (snd (prepare_step e w t)) \<and>
    past_freshness (snd (prepare_step e w t))"
proof (cases t)
  case (Called p)
  with assms show ?thesis by simp
next
  case (AwaitFresh p)
  with assms show ?thesis by simp
next
  case (AwaitDocuments p fresh)
  with assms have stale: "\<not> fresh" by simp
  have "\<not> awaits_parse (snd (prepare_step e w (AwaitDocuments p fresh))) \<and>
      past_freshness (snd (prepare_step e w (AwaitDocuments p fresh)))"
    unfolding step_documents_task
    by (cases "snd (obtainDocuments e w p fresh)") simp_all
  with stale show ?thesis
    unfolding AwaitDocuments using step_parse_runs [of e w p]
    by (simp del: prepare_step.simps)
next
  case (AwaitBuild p ds)
  then show ?thesis by (simp add: fromDocuments_def Let_def parse_runs_def)
next
  case (Finished r)
  then show ?thesis by simp
qed

lemma run_parses:
  "list_all past_freshness ts \<Longrightarrow>
   parse_runs (fst (run_schedule e w ts s)) +
     length (filter awaits_parse (snd (run_schedule e w ts s))) =
   parse_runs w + length (filter awaits_parse ts)"
proof (induction s arbitrary: w ts)
  case Nil
  then show ?case by simp
next
  case (Cons i s)
  show ?case
  proof (cases "i < length ts")
    case False
    with Cons.IH [OF Cons.prems, of w] show ?thesis by simp
  next
    case True
    let ?w1 = "fst (prepare_step e w (ts ! i))"
    let ?t1 = "snd (prepare_step e w (ts ! i))"
    from Cons.prems True have st: "past_freshness (ts ! i)"
      by (simp add: list_all_length)
    from step_parses [OF st, of e w]
    have step: "parse_runs ?w1 + (if awaits_parse (ts ! i) then 0 else 1) = parse_runs w + 1"
      and gone: "\<not> awaits_parse ?t1" and st1: "past_freshness ?t1"
      by simp_all
    have all: "list_all past_freshness (ts[i := ?t1])"
      using Cons.prems st1 by (auto simp: list_all_iff dest: set_update_subset_insert [THEN subsetD])
    have run: "run_schedule e w ts (i # s) = run_schedule e ?w1 (ts[i := ?t1]) s"
      using True by (simp add: case_prod_beta)
    from Cons.IH [OF all, of ?w1] filter_update_count [OF True, of awaits_parse ?t1] step gone
    show ?thesis
      unfolding run by (simp split: if_splits)
  qed
qed

lemma json_documents_registry:
  "json_documents e (w\<lparr>documentIndices := r\<rparr>) p rs = json_documents e w p rs"
  by (simp add: json_documents_def)

lemma parseAndSaveDocuments_registry:
  "snd (parseAndSaveDocuments e (w\<lparr>documentIndices := r\<rparr>) p) =
     snd (parseAndSaveDocuments e w p)"
  unfolding parseAndSaveDocuments_result json_documents_registry by (rule refl)

lemma step_ignores_registry:
  assumes "in_flight t"
  shows "snd (prepare_step e (w\<lparr>documentIndices := r\<rparr>) t) = snd (prepare_step e w t)"
proof (cases t)
  case (Called p)
  with assms show ?thesis by simp
next
  case (AwaitFresh p)
  have "shouldUseParsedFiles e (w\<lparr>documentIndices := r\<rparr>) p = shouldUseParsedFiles e w p"
    by (rule shouldUseParsedFiles_fs) simp
  with AwaitFresh show ?thesis by simp
next
  case (AwaitDocuments p fresh)
  have load: "loadParsedDocuments e (w\<lparr>documentIndices := r\<rparr>) p = loadParsedDocuments e w p"
    by (rule loadParsedDocuments_fs) simp
  have "snd (obtainDocuments e (w\<lparr>documentIndices := r\<rparr>) p fresh) =
      snd (obtainDocuments e w p fresh)"
    by (cases "loadParsedDocuments e w p")
      (simp_all add: obtainDocuments_def load parseAndSaveDocuments_registry)
  with AwaitDocuments show ?thesis by (simp only: step_documents_task)
next
  case (AwaitBuild p ds)
  then show ?thesis by (simp add: fromDocuments_def Let_def)
next
  case (Finished r)
  with assms show ?thesis by simp
qed

lemma last_build_wins:
  assumes "i < length tasks"
    and "snd (run_schedule e w tasks schedule) ! i = AwaitBuild p ds"
    and "embed_ok e ds"
  shows "documentIndices (fst (run_schedule e w tasks (schedule @ [i]))) p =
    Some \<lparr>idx_docs = ds, idx_serial = length (build_log (fst (run_schedule e w tasks schedule)))\<rparr>"
  using assms
  by (simp add: run_schedule_append run_schedule_length step_build case_prod_beta
      del: prepare_step.simps)

text \<open>
  C1, as the code has it: \<open>prepareIndex\<close> has no record of builds in progress. Run alone,
  the four steps of a call are \<open>prepareIndex\<close>. Calls for one document that run one
  after another, the first finding no index and succeeding, leave the state the first
  call made: one build, \<open>parseAndSaveDocuments\<close> run at most once, every call
  successful. A call whose first step finds an index does nothing. But calls that are
  started together all pass the registry lookup when the registry has no index, and a
  call that has passed it never looks at the registry again: what it goes on to does
  not depend on the registry. Whatever the order of the steps, calls in flight build
  one index for each of them that ends in success or in a failed build, and calls whose
  freshness check has answered no run \<open>parseAndSaveDocuments\<close> once for each of them that
  goes on. A build step that succeeds stores its index in the registry in place of
  whatever is there, so that the registry keeps the index stored last.
\<close>

theorem prepareIndex_calls_in_sequence:
  "run_schedule e w [Called p] [0, 0, 0, 0] =
     (fst (prepareIndex e w p), [Finished (snd (prepareIndex e w p))]) \<and>
   (documentIndices w p = None \<and> snd (prepareIndex e w p) = Inr () \<longrightarrow>
      run_schedule e w (replicate (Suc n) (Called p)) (one_after_another (Suc n)) =
        (fst (prepareIndex e w p), replicate (Suc n) (Finished (Inr ()))) \<and>
      parse_runs (fst (prepareIndex e w p)) \<le> Suc (parse_runs w) \<and>
      length (build_log (fst (prepareIndex e w p))) = Suc (length (build_log w))) \<and>
   (configureSettings e = Inr () \<and> documentIndices w p = Some h \<longrightarrow>
      prepare_step e w (Called p) = (w, Finished (Inr ()))) \<and>
   (configureSettings e = Inr () \<and> documentIndices w p = None \<longrightarrow>
      run_schedule e w (replicate m (Called p)) ([0..<m] @ schedule) =
        run_schedule e w (replicate m (AwaitFresh p)) schedule) \<and>
   (in_flight t \<longrightarrow>
      snd (prepare_step e (w\<lparr>documentIndices := r\<rparr>) t) = snd (prepare_step e w t)) \<and>
   (list_all in_flight tasks \<longrightarrow>
      length (build_log (fst (run_schedule e w tasks schedule))) =
        length (build_log w) +
        length (filter build_outcome (snd (run_schedule e w tasks schedule)))) \<and>
   (list_all awaits_parse tasks \<longrightarrow>
      parse_runs (fst (run_schedule e w tasks schedule)) =
        parse_runs w +
        length (filter (\<lambda>t. \<not> awaits_parse t) (snd (run_schedule e w tasks schedule)))) \<and>
   parse_runs (fst (prepare_step e w (AwaitDocuments p False))) = Suc (parse_runs w) \<and>
   build_log (fst (prepare_step e w (AwaitBuild p ds))) = build_log w @ [ds] \<and>
   (embed_ok e ds \<longrightarrow>
      prepare_step e w (AwaitBuild p ds) =
        (w\<lparr>build_log := build_log w @ [ds],
           documentIndices := (documentIndices w)
             (p \<mapsto> \<lparr>idx_docs = ds, idx_serial = length (build_log w)\<rparr>)\<rparr>,
         Finished (Inr ()))) \<and>
   (i < length tasks \<and> snd (run_schedule e w tasks schedule) ! i = AwaitBuild p ds \<and>
    embed_ok e ds \<longrightarrow>
      documentIndices (fst (run_schedule e w tasks (schedule @ [i]))) p =
        Some \<lparr>idx_docs = ds,
              idx_serial = length (build_log (fst (run_schedule e w tasks schedule)))\<rparr>)"
proof (intro conjI impI)
  have "run_schedule e w [Called p] (replicate 4 0 @ []) =
      run_schedule e (fst (steps4 e w ([Called p] ! 0)))
        ([Called p][0 := snd (steps4 e w ([Called p] ! 0))]) []"
    by (rule run_schedule_four) simp
  then show "run_schedule e w [Called p] [0, 0, 0, 0] =
     (fst (prepareIndex e w p), [Finished (snd (prepareIndex e w p))])"
    by (simp add: steps4_Called numeral_eq_Suc)
next
  assume h: "documentIndices w p = None \<and> snd (prepareIndex e w p) = Inr ()"
  then have miss: "documentIndices w p = None" and ok: "snd (prepareIndex e w p) = Inr ()"
    by simp_all
  show "run_schedule e w (replicate (Suc n) (Called p)) (one_after_another (Suc n)) =
        (fst (prepareIndex e w p), replicate (Suc n) (Finished (Inr ())))"
    by (rule sequential_calls [OF miss ok])
  have run: "prepareIndex e w p = (fst (prepareIndex e w p), Inr ())"
    using ok by (simp add: prod_eq_iff)
  have cfg: "configureSettings e = Inr ()"
    using run by (rule prepareIndex_ok_config)
  show "parse_runs (fst (prepareIndex e w p)) \<le> Suc (parse_runs w)"
    by (simp add: prepareIndex_parse_runs [OF cfg miss])
  show "length (build_log (fst (prepareIndex e w p))) = Suc (length (build_log w))"
  proof (cases "snd (obtainDocuments e w p (shouldUseParsedFiles e w p))")
    case (Inl err)
    with cfg miss ok show ?thesis by (simp add: prepareIndex_miss)
  next
    case (Inr ds)
    with cfg miss ok show ?thesis
      by (auto simp: prepareIndex_miss buildAndRegister_cases obtainDocuments_frame
          split: if_splits)
  qed
next
  assume "configureSettings e = Inr () \<and> documentIndices w p = Some h"
  then show "prepare_step e w (Called p) = (w, Finished (Inr ()))" by simp
next
  assume "configureSettings e = Inr () \<and> documentIndices w p = None"
  then have "run_schedule e w (replicate 0 (AwaitFresh p) @ replicate m (Called p))
      ([0..<0 + m] @ schedule) =
    run_schedule e w (replicate (0 + m) (AwaitFresh p)) schedule"
    by (intro started_together) simp_all
  then show "run_schedule e w (replicate m (Called p)) ([0..<m] @ schedule) =
      run_schedule e w (replicate m (AwaitFresh p)) schedule"
    by simp
next
  assume "in_flight t"
  then show "snd (prepare_step e (w\<lparr>documentIndices := r\<rparr>) t) = snd (prepare_step e w t)"
    by (rule step_ignores_registry)
next
  assume all: "list_all in_flight tasks"
  have "in_flight t \<Longrightarrow> started t \<and> \<not> build_outcome t" for t
    by (cases t) simp_all
  with all have "list_all started tasks" "filter build_outcome tasks = []"
    by (auto simp: list_all_iff filter_empty_conv)
  with run_builds [of tasks e w schedule]
  show "length (build_log (fst (run_schedule e w tasks schedule))) =
      length (build_log w) +
      length (filter build_outcome (snd (run_schedule e w tasks schedule)))"
    by simp
next
  assume all: "list_all awaits_parse tasks"
  let ?ts = "snd (run_schedule e w tasks schedule)"
  have "awaits_parse t \<Longrightarrow> past_freshness t" for t
    by (cases t) simp_all
  with all have "list_all past_freshness tasks" "filter awaits_parse tasks = tasks"
    by (auto simp: list_all_iff filter_id_conv)
  with run_parses [of tasks e w schedule]
  have "parse_runs (fst (run_schedule e w tasks schedule)) + length (filter awaits_parse ?ts) =
      parse_runs w + length tasks"
    by simp
  moreover have "length (filter awaits_parse ?ts) +
      length (filter (\<lambda>t. \<not> awaits_parse t) ?ts) = length tasks"
    using sum_length_filter_compl [of awaits_parse ?ts] by (simp add: run_schedule_length)
  ultimately show "parse_runs (fst (run_schedule e w tasks schedule)) =
      parse_runs w + length (filter (\<lambda>t. \<not> awaits_parse t) ?ts)"
    by arith
next
  show "parse_runs (fst (prepare_step e w (AwaitDocuments p False))) = Suc (parse_runs w)"
    by (rule step_parse_runs)
  show "build_log (fst (prepare_step e w (AwaitBuild p ds))) = build_log w @ [ds]"
    by (rule step_build_log)
next
  assume "embed_ok e ds"
  then show "prepare_step e w (AwaitBuild p ds) =
        (w\<lparr>build_log := build_log w @ [ds],
           documentIndices := (documentIndices w)
             (p \<mapsto> \<lparr>idx_docs = ds, idx_serial = length (build_log w)\<rparr>)\<rparr>,
         Finished (Inr ()))"
    by (rule step_build)
next
  assume "i < length tasks \<and> snd (run_schedule e w tasks schedule) ! i = AwaitBuild p ds \<and>
    embed_ok e ds"
  then show "documentIndices (fst (run_schedule e w tasks (schedule @ [i]))) p =
        Some \<lparr>idx_docs = ds,
              idx_serial = length (build_log (fst (run_schedule e w tasks schedule)))\<rparr>"
    by (intro last_build_wins) simp_all
qed

lemma demo_race:
  "snd (run_schedule demo_env (demo_world demo_source_fs)
          [Called ''papers/a.pdf'', Called ''papers/a.pdf''] [0, 1, 0, 1, 0, 1, 0, 1]) =
     [Finished (Inr ()), Finished (Inr ())]"
  "parse_runs (fst (run_schedule demo_env (demo_world demo_source_fs)
          [Called ''papers/a.pdf'', Called ''papers/a.pdf''] [0, 1, 0, 1, 0, 1, 0, 1])) = 2"
  "length (build_log (fst (run_schedule demo_env (demo_world demo_source_fs)
          [Called ''papers/a.pdf'', Called ''papers/a.pdf''] [0, 1, 0, 1, 0, 1, 0, 1]))) = 2"
  "snd (run_schedule demo_env (demo_world demo_source_fs)
          [Called ''papers/a.pdf'', Called ''papers/a.pdf''] [0, 1, 0, 1, 0, 1, 0]) =
     [Finished (Inr ()), AwaitBuild ''papers/a.pdf'' [demo_document]]"
  "length (build_log (fst (run_schedule demo_env (demo_world demo_source_fs)
          [Called ''papers/a.pdf'', Called ''papers/a.pdf''] [0, 1, 0, 1, 0, 1, 0]))) = 1"
  "snd (run_schedule demo_env (demo_world demo_source_fs)
          [AwaitDocuments ''papers/a.pdf'' False, AwaitDocuments ''papers/a.pdf'' False]
          [0, 1, 0, 1]) =
     [Finished (Inr ()), Finished (Inr ())]"
proof -
  let ?w = "demo_world demo_source_fs"
  let ?a = "''papers/a.pdf''"
  let ?ds = "[demo_document]"
  let ?w1 = "fst (parseAndSaveDocuments demo_env ?w ?a)"
  let ?w2 = "fst (parseAndSaveDocuments demo_env ?w1 ?a)"
  let ?w3 = "?w2\<lparr>build_log := build_log ?w2 @ [?ds],
      documentIndices := (documentIndices ?w2)
        (?a \<mapsto> \<lparr>idx_docs = ?ds, idx_serial = length (build_log ?w2)\<rparr>)\<rparr>"
  let ?w4 = "?w3\<lparr>build_log := build_log ?w3 @ [?ds],
      documentIndices := (documentIndices ?w3)
        (?a \<mapsto> \<lparr>idx_docs = ?ds, idx_serial = length (build_log ?w3)\<rparr>)\<rparr>"
  have called: "prepare_step demo_env ?w (Called ?a) = (?w, AwaitFresh ?a)"
    by (simp add: demo_config demo_world_simps)
  have fresh: "prepare_step demo_env ?w (AwaitFresh ?a) = (?w, AwaitDocuments ?a False)"
    by (simp add: demo_source_only)
  have parse: "prepare_step demo_env v (AwaitDocuments ?a False) =
      (fst (parseAndSaveDocuments demo_env v ?a), AwaitBuild ?a ?ds)" for v
    by (rule step_parse) (simp_all add: demo_parse demo_document_def)
  have build: "prepare_step demo_env v (AwaitBuild ?a ?ds) =
      (v\<lparr>build_log := build_log v @ [?ds],
         documentIndices := (documentIndices v)
           (?a \<mapsto> \<lparr>idx_docs = ?ds, idx_serial = length (build_log v)\<rparr>)\<rparr>,
       Finished (Inr ()))" for v
    by (rule step_build) (rule demo_embed_ok)
  have run: "run_schedule demo_env ?w [Called ?a, Called ?a] [0, 1, 0, 1, 0, 1, 0, 1] =
      (?w4, [Finished (Inr ()), Finished (Inr ())])"
    by (simp add: called fresh parse build del: prepare_step.simps)
  have most: "run_schedule demo_env ?w [Called ?a, Called ?a] [0, 1, 0, 1, 0, 1, 0] =
      (?w3, [Finished (Inr ()), AwaitBuild ?a ?ds])"
    by (simp add: called fresh parse build del: prepare_step.simps)
  have parses: "run_schedule demo_env ?w
      [AwaitDocuments ?a False, AwaitDocuments ?a False] [0, 1, 0, 1] =
      (?w4, [Finished (Inr ()), Finished (Inr ())])"
    by (simp add: parse build del: prepare_step.simps)
  have runs: "parse_runs ?w4 = 2"
    by (simp add: parse_runs_def parseAndSaveDocuments_log demo_paths demo_world_simps
        demo_env_def)
  have builds: "length (build_log ?w4) = 2" "length (build_log ?w3) = 1"
    by (simp_all add: parseAndSaveDocuments_frame demo_world_simps)
  show "snd (run_schedule demo_env ?w [Called ?a, Called ?a] [0, 1, 0, 1, 0, 1, 0, 1]) =
      [Finished (Inr ()), Finished (Inr ())]"
    "parse_runs (fst (run_schedule demo_env ?w [Called ?a, Called ?a]
       [0, 1, 0, 1, 0, 1, 0, 1])) = 2"
    "length (build_log (fst (run_schedule demo_env ?w [Called ?a, Called ?a]
       [0, 1, 0, 1, 0, 1, 0, 1]))) = 2"
    unfolding run using runs builds by simp_all
  show "snd (run_schedule demo_env ?w [Called ?a, Called ?a] [0, 1, 0, 1, 0, 1, 0]) =
      [Finished (Inr ()), AwaitBuild ?a ?ds]"
    "length (build_log (fst (run_schedule demo_env ?w [Called ?a, Called ?a]
       [0, 1, 0, 1, 0, 1, 0]))) = 1"
    unfolding most using builds by simp_all
  show "snd (run_schedule demo_env ?w
      [AwaitDocuments ?a False, AwaitDocuments ?a False] [0, 1, 0, 1]) =
      [Finished (Inr ()), Finished (Inr ())]"
    unfolding parses by simp
qed

text \<open>
  The same two calls with the second one held back: its freshness check comes after the
  first call has saved the cache, so it loads the cached document instead of parsing,
  and then builds its own index all the same.
\<close>

lemma demo_staggered:
  "snd (run_schedule demo_env (demo_world demo_source_fs)
          [Called ''papers/a.pdf'', Called ''papers/a.pdf''] [0, 1, 0, 0, 0, 1, 1]) =
     [Finished (Inr ()), AwaitBuild ''papers/a.pdf'' [demo_cached_document]]"
  "length (build_log (fst (run_schedule demo_env (demo_world demo_source_fs)
          [Called ''papers/a.pdf'', Called ''papers/a.pdf''] [0, 1, 0, 0, 0, 1, 1]))) = 1"
  "parse_runs (fst (run_schedule demo_env (demo_world demo_source_fs)
          [Called ''papers/a.pdf'', Called ''papers/a.pdf''] [0, 1, 0, 0, 0, 1, 1, 1])) = 1"
  "snd (run_schedule demo_env (demo_world demo_source_fs)
          [AwaitFresh ''papers/a.pdf'', AwaitFresh ''papers/a.pdf''] [0, 0, 0, 1, 1, 1]) =
     [Finished (Inr ()), Finished (Inr ())]"
  by code_simp+

theorem prepareIndex_calls_in_sequence_witness:
  "run_schedule demo_env (demo_world demo_source_fs)
     [Called ''papers/a.pdf'', Called ''papers/a.pdf'', Called ''papers/a.pdf'']
     [0, 0, 0, 0, 1, 1, 1, 1, 2, 2, 2, 2] =
   (fst (prepareIndex demo_env (demo_world demo_source_fs) ''papers/a.pdf''),
    [Finished (Inr ()), Finished (Inr ()), Finished (Inr ())]) \<and>
   length (build_log (fst (prepareIndex demo_env (demo_world demo_source_fs)
      ''papers/a.pdf''))) = 1 \<and>
   run_schedule demo_env (demo_world demo_source_fs)
     [Called ''papers/a.pdf'', Called ''papers/a.pdf''] [0, 1, 0, 1, 0, 1, 0, 1] =
   run_schedule demo_env (demo_world demo_source_fs)
     [AwaitFresh ''papers/a.pdf'', AwaitFresh ''papers/a.pdf''] [0, 1, 0, 1, 0, 1] \<and>
   length (build_log (fst (run_schedule demo_env (demo_world demo_source_fs)
     [AwaitFresh ''papers/a.pdf'', AwaitFresh ''papers/a.pdf''] [0, 1, 0, 1, 0, 1]))) = 2 \<and>
   parse_runs (fst (run_schedule demo_env (demo_world demo_source_fs)
     [AwaitDocuments ''papers/a.pdf'' False, AwaitDocuments ''papers/a.pdf'' False]
     [0, 1, 0, 1])) = 2 \<and>
   documentIndices (fst (run_schedule demo_env (demo_world demo_source_fs)
     [Called ''papers/a.pdf'', Called ''papers/a.pdf''] [0, 1, 0, 1, 0, 1, 0, 1]))
     ''papers/a.pdf'' = Some \<lparr>idx_docs = [demo_document], idx_serial = 1\<rparr> \<and>
   parse_runs (fst (run_schedule demo_env (demo_world demo_source_fs)
     [Called ''papers/a.pdf'', Called ''papers/a.pdf''] [0, 1, 0, 0, 0, 1, 1, 1])) = 1 \<and>
   length (build_log (fst (run_schedule demo_env (demo_world demo_source_fs)
     [AwaitFresh ''papers/a.pdf'', AwaitFresh ''papers/a.pdf''] [0, 0, 0, 1, 1, 1]))) = 2 \<and>
   documentIndices (fst (run_schedule demo_env (demo_world demo_source_fs)
     [Called ''papers/a.pdf'', Called ''papers/a.pdf''] [0, 1, 0, 0, 0, 1, 1, 1]))
     ''papers/a.pdf'' = Some \<lparr>idx_docs = [demo_cached_document], idx_serial = 1\<rparr>"
proof -
  let ?w = "demo_world demo_source_fs"
  let ?a = "''papers/a.pdf''"
  have miss: "documentIndices ?w ?a = None"
    by (simp add: demo_world_simps)
  have ok: "snd (prepareIndex demo_env ?w ?a) = Inr ()"
    by (rule demo_prepare_ok [OF demo_source_only])
  have sched: "one_after_another (Suc 2) = [0, 0, 0, 0, 1, 1, 1, 1, 2, 2, 2, 2]"
    by (simp add: one_after_another_def numeral_eq_Suc upt_rec)
  have tasks: "replicate (Suc 2) (Called ?a) = [Called ?a, Called ?a, Called ?a]"
    "replicate 2 (Called ?a) = [Called ?a, Called ?a]"
    "replicate 2 (AwaitFresh ?a) = [AwaitFresh ?a, AwaitFresh ?a]"
    by (simp_all add: numeral_eq_Suc)
  have first: "[0..<2] @ [0, 1, 0, 1, 0, 1] = [0, 1, 0, 1, 0, 1, 0, (1::nat)]"
    by (simp add: numeral_eq_Suc upt_rec)
  have last: "[0, 1, 0, 1, 0, 1, 0] @ [1] = [0, 1, 0, 1, 0, 1, 0, (1::nat)]"
    by simp
  note sequence = prepareIndex_calls_in_sequence
      [where e = demo_env and w = ?w and p = ?a and n = 2 and m = 2
         and h = "\<lparr>idx_docs = [], idx_serial = 0\<rparr>" and ds = "[demo_document]"
         and t = "AwaitFresh ?a" and r = Map.empty
         and tasks = "[Called ?a, Called ?a]" and schedule = "[0, 1, 0, 1, 0, 1, 0]" and i = 1]
  note together = prepareIndex_calls_in_sequence
      [where e = demo_env and w = ?w and p = ?a and n = 2 and m = 2
         and h = "\<lparr>idx_docs = [], idx_serial = 0\<rparr>" and ds = "[demo_document]"
         and t = "AwaitFresh ?a" and r = Map.empty
         and tasks = "[AwaitFresh ?a, AwaitFresh ?a]" and schedule = "[0, 1, 0, 1, 0, 1]"
         and i = 0]
  note parsing = prepareIndex_calls_in_sequence
      [where e = demo_env and w = ?w and p = ?a and n = 2 and m = 2
         and h = "\<lparr>idx_docs = [], idx_serial = 0\<rparr>" and ds = "[demo_document]"
         and t = "AwaitFresh ?a" and r = Map.empty
         and tasks = "[AwaitDocuments ?a False, AwaitDocuments ?a False]"
         and schedule = "[0, 1, 0, 1]" and i = 0]
  from sequence miss ok
  have a: "run_schedule demo_env ?w (replicate (Suc 2) (Called ?a))
        (one_after_another (Suc 2)) =
      (fst (prepareIndex demo_env ?w ?a), replicate (Suc 2) (Finished (Inr ()))) \<and>
    length (build_log (fst (prepareIndex demo_env ?w ?a))) = Suc (length (build_log ?w))"
    by blast
  from together demo_config miss
  have "run_schedule demo_env ?w (replicate 2 (Called ?a)) ([0..<2] @ [0, 1, 0, 1, 0, 1]) =
      run_schedule demo_env ?w (replicate 2 (AwaitFresh ?a)) [0, 1, 0, 1, 0, 1]"
    by blast
  then have b: "run_schedule demo_env ?w [Called ?a, Called ?a] [0, 1, 0, 1, 0, 1, 0, 1] =
      run_schedule demo_env ?w [AwaitFresh ?a, AwaitFresh ?a] [0, 1, 0, 1, 0, 1]"
    unfolding tasks first .
  have both: "snd (run_schedule demo_env ?w [AwaitFresh ?a, AwaitFresh ?a]
        [0, 1, 0, 1, 0, 1]) = [Finished (Inr ()), Finished (Inr ())]"
    unfolding b [symmetric] by (rule demo_race)
  have "list_all in_flight [AwaitFresh ?a, AwaitFresh ?a]" by simp
  with together
  have "length (build_log (fst (run_schedule demo_env ?w [AwaitFresh ?a, AwaitFresh ?a]
        [0, 1, 0, 1, 0, 1]))) =
      length (build_log ?w) +
      length (filter build_outcome (snd (run_schedule demo_env ?w
        [AwaitFresh ?a, AwaitFresh ?a] [0, 1, 0, 1, 0, 1])))"
    by blast
  then have "length (build_log (fst (run_schedule demo_env ?w [AwaitFresh ?a, AwaitFresh ?a]
        [0, 1, 0, 1, 0, 1]))) =
      length (build_log ?w) +
      length (filter build_outcome [Finished (Inr ()), Finished (Inr ())])"
    unfolding both .
  then have c: "length (build_log (fst (run_schedule demo_env ?w
        [AwaitFresh ?a, AwaitFresh ?a] [0, 1, 0, 1, 0, 1]))) = 2"
    by (simp add: demo_world_simps del: run_schedule.simps)
  have "list_all awaits_parse [AwaitDocuments ?a False, AwaitDocuments ?a False]" by simp
  with parsing
  have "parse_runs (fst (run_schedule demo_env ?w
        [AwaitDocuments ?a False, AwaitDocuments ?a False] [0, 1, 0, 1])) =
      parse_runs ?w +
      length (filter (\<lambda>t. \<not> awaits_parse t) (snd (run_schedule demo_env ?w
        [AwaitDocuments ?a False, AwaitDocuments ?a False] [0, 1, 0, 1])))"
    by blast
  then have "parse_runs (fst (run_schedule demo_env ?w
        [AwaitDocuments ?a False, AwaitDocuments ?a False] [0, 1, 0, 1])) =
      parse_runs ?w +
      length (filter (\<lambda>t. \<not> awaits_parse t) [Finished (Inr ()), Finished (Inr ())])"
    unfolding demo_race(6) .
  moreover have "parse_runs ?w = 0"
    by (simp add: parse_runs_def demo_world_simps)
  ultimately have d: "parse_runs (fst (run_schedule demo_env ?w
        [AwaitDocuments ?a False, AwaitDocuments ?a False] [0, 1, 0, 1])) = 2"
    by (simp del: run_schedule.simps)
  have "(1::nat) < length [Called ?a, Called ?a] \<and>
      snd (run_schedule demo_env ?w [Called ?a, Called ?a] [0, 1, 0, 1, 0, 1, 0]) ! 1 =
        AwaitBuild ?a [demo_document] \<and>
      embed_ok demo_env [demo_document]"
    unfolding demo_race(4) by (simp add: demo_embed_ok)
  with sequence
  have "documentIndices (fst (run_schedule demo_env ?w [Called ?a, Called ?a]
        ([0, 1, 0, 1, 0, 1, 0] @ [1]))) ?a =
      Some \<lparr>idx_docs = [demo_document],
            idx_serial = length (build_log (fst (run_schedule demo_env ?w
              [Called ?a, Called ?a] [0, 1, 0, 1, 0, 1, 0])))\<rparr>"
    by blast
  then have e: "documentIndices (fst (run_schedule demo_env ?w [Called ?a, Called ?a]
        [0, 1, 0, 1, 0, 1, 0, 1])) ?a = Some \<lparr>idx_docs = [demo_document], idx_serial = 1\<rparr>"
    unfolding last by (simp only: demo_race)
  from a have a': "run_schedule demo_env ?w [Called ?a, Called ?a, Called ?a]
        [0, 0, 0, 0, 1, 1, 1, 1, 2, 2, 2, 2] =
      (fst (prepareIndex demo_env ?w ?a),
       [Finished (Inr ()), Finished (Inr ()), Finished (Inr ())]) \<and>
    length (build_log (fst (prepareIndex demo_env ?w ?a))) = 1"
    unfolding sched tasks
    by (simp add: demo_world_simps numeral_eq_Suc del: run_schedule.simps)
  note held_back = prepareIndex_calls_in_sequence
      [where e = demo_env and w = ?w and p = ?a and n = 2 and m = 2
         and h = "\<lparr>idx_docs = [], idx_serial = 0\<rparr>" and ds = "[demo_cached_document]"
         and t = "AwaitFresh ?a" and r = Map.empty
         and tasks = "[Called ?a, Called ?a]" and schedule = "[0, 1, 0, 0, 0, 1, 1]" and i = 1]
  note held_back_builds = prepareIndex_calls_in_sequence
      [where e = demo_env and w = ?w and p = ?a and n = 2 and m = 2
         and h = "\<lparr>idx_docs = [], idx_serial = 0\<rparr>" and ds = "[demo_cached_document]"
         and t = "AwaitFresh ?a" and r = Map.empty
         and tasks = "[AwaitFresh ?a, AwaitFresh ?a]" and schedule = "[0, 0, 0, 1, 1, 1]"
         and i = 0]
  have "list_all in_flight [AwaitFresh ?a, AwaitFresh ?a]" by simp
  with held_back_builds
  have "length (build_log (fst (run_schedule demo_env ?w [AwaitFresh ?a, AwaitFresh ?a]
        [0, 0, 0, 1, 1, 1]))) =
      length (build_log ?w) +
      length (filter build_outcome (snd (run_schedule demo_env ?w
        [AwaitFresh ?a, AwaitFresh ?a] [0, 0, 0, 1, 1, 1])))"
    by blast
  then have "length (build_log (fst (run_schedule demo_env ?w [AwaitFresh ?a, AwaitFresh ?a]
        [0, 0, 0, 1, 1, 1]))) =
      length (build_log ?w) +
      length (filter build_outcome [Finished (Inr ()), Finished (Inr ())])"
    unfolding demo_staggered(4) .
  then have f: "length (build_log (fst (run_schedule demo_env ?w
        [AwaitFresh ?a, AwaitFresh ?a] [0, 0, 0, 1, 1, 1]))) = 2"
    by (simp add: demo_world_simps del: run_schedule.simps)
  have "(1::nat) < length [Called ?a, Called ?a] \<and>
      snd (run_schedule demo_env ?w [Called ?a, Called ?a] [0, 1, 0, 0, 0, 1, 1]) ! 1 =
        AwaitBuild ?a [demo_cached_document] \<and>
      embed_ok demo_env [demo_cached_document]"
    unfolding demo_staggered(1) by (simp add: demo_embed_ok)
  with held_back
  have "documentIndices (fst (run_schedule demo_env ?w [Called ?a, Called ?a]
        ([0, 1, 0, 0, 0, 1, 1] @ [1]))) ?a =
      Some \<lparr>idx_docs = [demo_cached_document],
            idx_serial = length (build_log (fst (run_schedule demo_env ?w
              [Called ?a, Called ?a] [0, 1, 0, 0, 0, 1, 1])))\<rparr>"
    by blast
  moreover have "[0, 1, 0, 0, 0, 1, 1] @ [1] = [0, 1, 0, 0, 0, 1, 1, (1::nat)]"
    by simp
  ultimately have g: "documentIndices (fst (run_schedule demo_env ?w [Called ?a, Called ?a]
        [0, 1, 0, 0, 0, 1, 1, 1])) ?a =
      Some \<lparr>idx_docs = [demo_cached_document], idx_serial = 1\<rparr>"
    by (simp only: demo_staggered)
  from a' b c d e f g demo_staggered(3) show ?thesis by blast
qed

text \<open>
  C1 as stated fails: two calls of \<open>prepareIndex\<close> for \<open>papers/a.pdf\<close> that are started
  together, as \<open>prepareMultipleIndices\<close> starts them, and take their steps in turn both
  succeed, and between them \<open>parseAndSaveDocuments\<close> has run twice and two indices
  have been built.
\<close>

theorem racing_calls_parse_twice:
  "snd (run_schedule demo_env
          (demo_world demo_source_fs)
          [Called ''papers/a.pdf'', Called ''papers/a.pdf''] [0, 1, 0, 1, 0, 1, 0, 1]) =
     [Finished (Inr ()), Finished (Inr ())] \<and>
   parse_runs (fst (run_schedule demo_env
          (demo_world demo_source_fs)
          [Called ''papers/a.pdf'', Called ''papers/a.pdf''] [0, 1, 0, 1, 0, 1, 0, 1])) = 2 \<and>
   length (build_log (fst (run_schedule demo_env
          (demo_world demo_source_fs)
          [Called ''papers/a.pdf'', Called ''papers/a.pdf''] [0, 1, 0, 1, 0, 1, 0, 1]))) = 2"
  using demo_race(1) demo_race(2) demo_race(3) by (rule conjI [OF _ conjI])

end
